(* ===== verification/Prelude.thy ===== *)
theory Prelude
  imports Main "HOL-Library.AList"
begin

text \<open>
  What every component of the agent model shares: Go's scalar types as HOL types, Go maps as
  association lists with one entry per key, buffered channels with the non-blocking send the agent
  uses, the readings of the wall clock, decimal printing, and the theorem collections the component
  proofs draw on. Nothing here models a file under src/; it models the language the files use.
\<close>

section \<open>Scalars\<close>

text \<open>
  A \<open>time.Time\<close> is an instant in nanoseconds, a \<open>time.Duration\<close> a number of
  nanoseconds; Go's \<open>int\<close> is \<open>int\<close> here, and the places where a narrower width is
  written (\<open>int32\<close>) or where 64 bits can overflow say so. \<open>goerror\<close> is the message of an
  error made outside the repository; errors the repository makes have datatypes of their own.
\<close>

type_synonym gotime = int
type_synonym duration = int
type_synonym goerror = string

abbreviation go_Millisecond :: duration where "go_Millisecond \<equiv> 1000000"
abbreviation go_Second :: duration where "go_Second \<equiv> 1000000000"
abbreviation go_Minute :: duration where "go_Minute \<equiv> 60000000000"
abbreviation go_Hour :: duration where "go_Hour \<equiv> 3600000000000"

text \<open>Go's integer division truncates towards zero.\<close>

definition go_quot :: "int \<Rightarrow> int \<Rightarrow> int" where
  "go_quot a b = sgn a * sgn b * (\<bar>a\<bar> div \<bar>b\<bar>)"

lemma int_le_div_iff:
  assumes "0 < (k :: int)"
  shows "n \<le> x div k \<longleftrightarrow> n * k \<le> x"
proof
  assume "n \<le> x div k"
  then have "n * k \<le> x div k * k" using assms by (intro mult_right_mono) simp_all
  also have "\<dots> \<le> x" using div_mult_mod_eq [of x k] pos_mod_sign [OF assms, of x] by linarith
  finally show "n * k \<le> x" .
next
  assume "n * k \<le> x"
  from zdiv_mono1 [OF this assms] assms show "n \<le> x div k" by simp
qed

text \<open>A value in Go's 64-bit \<open>int\<close>, where arithmetic wraps around.\<close>

definition wrap64 :: "int \<Rightarrow> int" where
  "wrap64 x = (x + 2 ^ 63) mod 2 ^ 64 - 2 ^ 63"

lemma wrap64_id: "- (2 ^ 63) \<le> x \<Longrightarrow> x < 2 ^ 63 \<Longrightarrow> wrap64 x = x"
  by (simp add: wrap64_def)

lemma wrap64_range: "- (2 ^ 63) \<le> wrap64 x" "wrap64 x < 2 ^ 63"
  by (simp_all add: wrap64_def)

text \<open>Milliseconds since the epoch: \<open>Time.UnixMilli\<close> rounds down, \<open>Time.Unix\<close> too.\<close>

definition unix_milli :: "gotime \<Rightarrow> int" where
  "unix_milli t = t div 1000000"

definition unix_sec :: "gotime \<Rightarrow> int" where
  "unix_sec t = t div 1000000000"

section \<open>Collections the proofs use\<close>

named_theorems gmap_simps
  \<open>lookup, update, delete and size of Go maps\<close>
named_theorems frame_simps
  \<open>fields an operation leaves as they were\<close>
named_theorems inv_intros
  \<open>preservation of the components' invariants\<close>

section \<open>Lists\<close>

text \<open>Replacing one element changes the number of elements with a property by that element.\<close>

lemma filter_update_length:
  assumes "i < length xs"
  shows "length (filter P (xs[i := y])) + (if P (xs ! i) then 1 else 0) =
         length (filter P xs) + (if P y then 1 else 0)"
  using assms
proof (induction xs arbitrary: i)
  case Nil
  then show ?case by simp
next
  case (Cons x xs)
  then show ?case by (cases i) auto
qed

section \<open>Go maps\<close>

text \<open>
  A Go map is an association list; reading takes the entry of the key, writing replaces it or adds
  one, \<open>delete\<close> removes it, \<open>len\<close> counts the entries. Go leaves the iteration order of
  a map open, so no theorem about an iteration depends on the list's order.
\<close>

type_synonym 'v gmap = "(string \<times> 'v) list"

definition gget :: "'v gmap \<Rightarrow> string \<Rightarrow> 'v option" where
  "gget m k = map_of m k"

definition gset :: "string \<Rightarrow> 'v \<Rightarrow> 'v gmap \<Rightarrow> 'v gmap" where
  "gset k v m = AList.update k v m"

definition gdel :: "string \<Rightarrow> 'v gmap \<Rightarrow> 'v gmap" where
  "gdel k m = AList.delete k m"

definition glen :: "'v gmap \<Rightarrow> nat" where
  "glen m = length m"

definition gkeys :: "'v gmap \<Rightarrow> string list" where
  "gkeys m = map fst m"

definition gvals :: "'v gmap \<Rightarrow> 'v list" where
  "gvals m = map snd m"

definition gwf :: "'v gmap \<Rightarrow> bool" where
  "gwf m \<longleftrightarrow> distinct (map fst m)"

text \<open>\<open>m[k]\<close> with Go's zero value for a missing key.\<close>

definition gget_or :: "'v \<Rightarrow> 'v gmap \<Rightarrow> string \<Rightarrow> 'v" where
  "gget_or z m k = (case gget m k of None \<Rightarrow> z | Some v \<Rightarrow> v)"

lemma gget_Nil [simp, gmap_simps]: "gget [] k = None"
  by (simp add: gget_def)

lemma gget_gset [simp, gmap_simps]: "gget (gset k v m) j = (if j = k then Some v else gget m j)"
  by (simp add: gget_def gset_def update_conv')

lemma gget_gdel [simp, gmap_simps]: "gget (gdel k m) j = (if j = k then None else gget m j)"
  by (simp add: gget_def gdel_def delete_conv')

lemma gget_or_Nil [simp, gmap_simps]: "gget_or z [] k = z"
  by (simp add: gget_or_def)

lemma gget_or_gset [simp, gmap_simps]:
  "gget_or z (gset k v m) j = (if j = k then v else gget_or z m j)"
  by (simp add: gget_or_def)

lemma gget_or_gdel [simp, gmap_simps]:
  "gget_or z (gdel k m) j = (if j = k then z else gget_or z m j)"
  by (simp add: gget_or_def)

lemma gset_not_Nil [simp, gmap_simps]: "gset k v m \<noteq> []"
  by (cases m) (auto simp: gset_def)

lemma gwf_Nil [simp, inv_intros]: "gwf []"
  by (simp add: gwf_def)

lemma gwf_gset [simp, inv_intros]: "gwf m \<Longrightarrow> gwf (gset k v m)"
  by (simp add: gwf_def gset_def distinct_update)

lemma gwf_gdel [simp, inv_intros]: "gwf m \<Longrightarrow> gwf (gdel k m)"
  by (simp add: gwf_def gdel_def distinct_delete)

lemma gget_Some_iff: "gwf m \<Longrightarrow> gget m k = Some v \<longleftrightarrow> (k, v) \<in> set m"
  by (simp add: gwf_def gget_def)

lemma gget_None_iff: "gget m k = None \<longleftrightarrow> k \<notin> set (gkeys m)"
  by (simp add: gget_def gkeys_def map_of_eq_None_iff)

lemma gkeys_dom: "set (gkeys m) = dom (gget m)"
  by (simp add: gkeys_def gget_def [abs_def] dom_map_of_conv_image_fst)

lemma gkeys_gset: "set (gkeys (gset k v m)) = insert k (set (gkeys m))"
  by (simp add: gkeys_def gset_def dom_update)

lemma gkeys_gdel: "set (gkeys (gdel k m)) = set (gkeys m) - {k}"
  by (simp add: gkeys_def gdel_def delete_keys)

lemma glen_card: "gwf m \<Longrightarrow> glen m = card (set (gkeys m))"
  using distinct_card [of "map fst m"] by (simp add: gwf_def glen_def gkeys_def)

lemma glen_gset [gmap_simps]:
  assumes "gwf m"
  shows "glen (gset k v m) = (if gget m k = None then Suc (glen m) else glen m)"
  using assms
  by (auto simp: glen_card gkeys_gset gget_None_iff insert_absorb)

lemma glen_gdel [gmap_simps]:
  assumes "gwf m"
  shows "glen (gdel k m) = (if gget m k = None then glen m else glen m - 1)"
  using assms
  by (auto simp: glen_card gkeys_gdel gget_None_iff)

lemma gvals_gget: "gwf m \<Longrightarrow> v \<in> set (gvals m) \<longleftrightarrow> (\<exists>k. gget m k = Some v)"
  by (force simp: gget_Some_iff gvals_def)

section \<open>Channels\<close>

text \<open>
  A buffered channel holds at most \<open>ch_cap\<close> values in order. The agent's event and report
  queues are written with \<open>select\<close> and a \<open>default\<close> branch: the value is dropped when the
  buffer is full (\<open>try_send\<close> returns whether it was queued).
\<close>

record 'a chan =
  ch_cap :: nat
  ch_buf :: "'a list"

definition make_chan :: "nat \<Rightarrow> 'a chan" where
  "make_chan n = \<lparr>ch_cap = n, ch_buf = []\<rparr>"

definition try_send :: "'a \<Rightarrow> 'a chan \<Rightarrow> bool \<times> 'a chan" where
  "try_send x c =
     (if length (ch_buf c) < ch_cap c then (True, c\<lparr>ch_buf := ch_buf c @ [x]\<rparr>) else (False, c))"

definition recv :: "'a chan \<Rightarrow> ('a \<times> 'a chan) option" where
  "recv c = (case ch_buf c of [] \<Rightarrow> None | x # xs \<Rightarrow> Some (x, c\<lparr>ch_buf := xs\<rparr>))"

definition chan_ok :: "'a chan \<Rightarrow> bool" where
  "chan_ok c \<longleftrightarrow> length (ch_buf c) \<le> ch_cap c"

lemma chan_ok_make [simp, inv_intros]: "chan_ok (make_chan n)"
  by (simp add: chan_ok_def make_chan_def)

lemma chan_ok_try_send [simp, inv_intros]: "chan_ok c \<Longrightarrow> chan_ok (snd (try_send x c))"
  by (auto simp: chan_ok_def try_send_def)

lemma chan_ok_recv [inv_intros]: "chan_ok c \<Longrightarrow> recv c = Some (x, c') \<Longrightarrow> chan_ok c'"
  by (auto simp: chan_ok_def recv_def split: list.splits)

lemma ch_cap_try_send [simp, frame_simps]: "ch_cap (snd (try_send x c)) = ch_cap c"
  by (simp add: try_send_def)

lemma try_send_buf:
  "ch_buf (snd (try_send x c)) = ch_buf c \<or> ch_buf (snd (try_send x c)) = ch_buf c @ [x]"
  by (simp add: try_send_def)

section \<open>The clock and the outside world\<close>

text \<open>
  Every \<open>time.Now()\<close> is an input. An operation that reads the clock a fixed number of times
  takes the readings as an argument \<open>now :: nat \<Rightarrow> gotime\<close>, its \<open>i\<close>-th reading
  being \<open>now i\<close>. Where the number of readings depends on the run (the repair engine), the
  world carries them: \<open>w_clock\<close> gives the readings, \<open>w_reads\<close> counts those taken, and
  \<open>w_env\<close> is whatever else an action can observe or change.
\<close>

record 'e world =
  w_clock :: "nat \<Rightarrow> gotime"
  w_reads :: nat
  w_env :: 'e

definition time_now :: "'e world \<Rightarrow> gotime \<times> 'e world" where
  "time_now w = (w_clock w (w_reads w), w\<lparr>w_reads := Suc (w_reads w)\<rparr>)"

definition clock_monotone :: "'e world \<Rightarrow> bool" where
  "clock_monotone w \<longleftrightarrow> mono (w_clock w)"

lemma time_now_clock [simp, frame_simps]: "w_clock (snd (time_now w)) = w_clock w"
  by (simp add: time_now_def)

lemma time_now_env [simp, frame_simps]: "w_env (snd (time_now w)) = w_env w"
  by (simp add: time_now_def)

lemma time_now_reads [simp]: "w_reads (snd (time_now w)) = Suc (w_reads w)"
  by (simp add: time_now_def)

section \<open>Decimal printing\<close>

text \<open>\<open>%d\<close> of a non-negative and of any integer; printing is injective.\<close>

definition digit_char :: "nat \<Rightarrow> char" where
  "digit_char d = ''0123456789'' ! d"

fun show_nat :: "nat \<Rightarrow> string" where
  "show_nat n = (if n < 10 then [digit_char n] else show_nat (n div 10) @ [digit_char (n mod 10)])"

declare show_nat.simps [simp del]

definition show_int :: "int \<Rightarrow> string" where
  "show_int i = (if i < 0 then CHR ''-'' # show_nat (nat (- i)) else show_nat (nat i))"

definition is_digit :: "char \<Rightarrow> bool" where
  "is_digit c \<longleftrightarrow> 48 \<le> (of_char c :: nat) \<and> (of_char c :: nat) \<le> 57"

definition digit_val :: "char \<Rightarrow> nat" where
  "digit_val c = of_char c - 48"

definition dec_val :: "string \<Rightarrow> nat" where
  "dec_val s = foldl (\<lambda>a c. 10 * a + digit_val c) 0 s"

text \<open>\<open>%0nd\<close>: leading zeros up to a width.\<close>

definition pad_left :: "nat \<Rightarrow> string \<Rightarrow> string" where
  "pad_left n s = replicate (n - length s) (CHR ''0'') @ s"

lemma less_10_cases:
  "(d::nat) < 10 \<Longrightarrow>
    d = 0 \<or> d = 1 \<or> d = 2 \<or> d = 3 \<or> d = 4 \<or> d = 5 \<or> d = 6 \<or> d = 7 \<or> d = 8 \<or> d = 9"
  by arith

lemma digit_val_char [simp]: "d < 10 \<Longrightarrow> digit_val (digit_char d) = d"
  by (drule less_10_cases) (auto simp: digit_val_def digit_char_def)

lemma is_digit_char [simp]: "d < 10 \<Longrightarrow> is_digit (digit_char d)"
  by (drule less_10_cases) (auto simp: is_digit_def digit_char_def)

lemma dec_val_append [simp]: "dec_val (s @ [c]) = 10 * dec_val s + digit_val c"
  by (simp add: dec_val_def)

lemma dec_val_show_nat [simp]: "dec_val (show_nat n) = n"
proof (induction n rule: show_nat.induct)
  case (1 n)
  show ?case
  proof (cases "n < 10")
    case True
    then show ?thesis by (simp add: show_nat.simps [of n] dec_val_def)
  next
    case False
    with 1 have "dec_val (show_nat n) = 10 * (n div 10) + n mod 10"
      by (simp add: show_nat.simps [of n])
    then show ?thesis by simp
  qed
qed

lemma show_nat_inject [simp]: "show_nat m = show_nat n \<longleftrightarrow> m = n"
  by (metis dec_val_show_nat)

lemma show_nat_digits: "c \<in> set (show_nat n) \<Longrightarrow> is_digit c"
proof (induction n rule: show_nat.induct)
  case (1 n)
  then show ?case
    by (cases "n < 10") (auto simp: show_nat.simps [of n])
qed

lemma show_nat_not_Nil [simp]: "show_nat n \<noteq> []"
  by (simp add: show_nat.simps [of n])

lemma minus_not_digit [simp]: "\<not> is_digit (CHR ''-'')"
  by (simp add: is_digit_def)

lemma hd_show_nat: "hd (show_nat n) \<noteq> CHR ''-''"
  using show_nat_digits [of "hd (show_nat n)" n] by auto

lemma show_int_inject [simp]: "show_int i = show_int j \<longleftrightarrow> i = j"
proof -
  have "show_nat n \<noteq> CHR ''-'' # s" for n s
    using hd_show_nat [of n] by (metis list.sel(1))
  then show ?thesis
    by (auto simp: show_int_def split: if_splits) (metis (no_types, lifting))+
qed

end
