(* ===== verification/Registry_Interface.thy ===== *)
theory Registry_Interface
  imports Prelude
begin

text \<open>
  The contract the check registry and the repair action registry share: an entry is stored under
  its own name, a second entry of the same name is refused, and a lookup returns what was
  registered. \<open>register_all\<close> is the loop over a list of entries that stops at the first error, as
  the runtime runs it over the built-in actions.
\<close>

datatype registry_error = AlreadyRegistered string

fun register_all :: "('a \<Rightarrow> 'r \<Rightarrow> registry_error + 'r) \<Rightarrow> 'a list \<Rightarrow> 'r \<Rightarrow> registry_error + 'r" where
  "register_all reg [] r = Inr r"
| "register_all reg (a # as) r =
     (case reg a r of Inl e \<Rightarrow> Inl e | Inr r' \<Rightarrow> register_all reg as r')"

locale named_registry =
  fixes entry_name :: "'a \<Rightarrow> string"
    and reg_empty :: "'r"
    and reg_add :: "'a \<Rightarrow> 'r \<Rightarrow> registry_error + 'r"
    and reg_get :: "'r \<Rightarrow> string \<Rightarrow> 'a option"
    and reg_names :: "'r \<Rightarrow> string list"
    and reg_inv :: "'r \<Rightarrow> bool"
  assumes inv_empty: "reg_inv reg_empty"
    and get_empty: "reg_get reg_empty n = None"
    and add_dup: "reg_get r (entry_name a) = Some b \<Longrightarrow>
                    reg_add a r = Inl (AlreadyRegistered (entry_name a))"
    and add_new: "reg_inv r \<Longrightarrow> reg_get r (entry_name a) = None \<Longrightarrow>
                    \<exists>r'. reg_add a r = Inr r' \<and> reg_inv r'
                         \<and> reg_get r' = (reg_get r)(entry_name a \<mapsto> a)"
    and names_distinct: "reg_inv r \<Longrightarrow> distinct (reg_names r)"
    and names_set: "reg_inv r \<Longrightarrow> set (reg_names r) = dom (reg_get r)"
begin

lemma add_cases:
  assumes "reg_inv r"
  obtains b where "reg_get r (entry_name a) = Some b"
    and "reg_add a r = Inl (AlreadyRegistered (entry_name a))"
  | r' where "reg_get r (entry_name a) = None" and "reg_add a r = Inr r'" and "reg_inv r'"
    and "reg_get r' = (reg_get r)(entry_name a \<mapsto> a)"
proof (cases "reg_get r (entry_name a)")
  case None
  with add_new [OF assms] that(2) show ?thesis by blast
next
  case (Some b)
  with add_dup that(1) show ?thesis by blast
qed

lemma add_keeps:
  assumes "reg_inv r" and "reg_add a r = Inr r'" and "reg_get r n = Some b"
  shows "reg_get r' n = Some b"
  using assms(2,3) by (cases rule: add_cases [OF assms(1), of a]) auto

lemma add_stores:
  assumes "reg_inv r" and "reg_add a r = Inr r'"
  shows "reg_get r' (entry_name a) = Some a" and "reg_inv r'"
  using assms(2) by (cases rule: add_cases [OF assms(1), of a]; simp)+

text \<open>Registering entries with fresh, distinct names succeeds and makes every one retrievable.\<close>

lemma register_all_ok:
  assumes "reg_inv r" and "distinct (map entry_name as)"
    and "\<forall>a \<in> set as. reg_get r (entry_name a) = None"
  shows "\<exists>r'. register_all reg_add as r = Inr r' \<and> reg_inv r'
              \<and> (\<forall>n. reg_get r' n = (case find (\<lambda>a. entry_name a = n) as of
                                        None \<Rightarrow> reg_get r n | Some a \<Rightarrow> Some a))"
  using assms
proof (induction as arbitrary: r)
  case Nil
  then show ?case by simp
next
  case (Cons a as)
  from Cons.prems(3) have "reg_get r (entry_name a) = None" by simp
  with add_new [OF Cons.prems(1)] obtain r1 where r1: "reg_add a r = Inr r1" "reg_inv r1"
    "reg_get r1 = (reg_get r)(entry_name a \<mapsto> a)"
    by blast
  have fresh: "entry_name a \<notin> entry_name ` set as"
    using Cons.prems(2) by simp
  have "entry_name b \<noteq> entry_name a" if "b \<in> set as" for b
    using imageI [OF that, of entry_name] fresh by metis
  then have "\<forall>b \<in> set as. reg_get r1 (entry_name b) = None"
    using Cons.prems(3) r1(3) by auto
  then obtain r' where r': "register_all reg_add as r1 = Inr r'" "reg_inv r'"
    "\<forall>n. reg_get r' n = (case find (\<lambda>a. entry_name a = n) as of
                            None \<Rightarrow> reg_get r1 n | Some a \<Rightarrow> Some a)"
    using Cons.IH [OF r1(2)] Cons.prems(2) by auto
  have "find (\<lambda>b. entry_name b = entry_name a) as = None"
    using fresh by (auto simp: find_None_iff intro: rev_image_eqI)
  with r' r1 show ?case
    by (auto split: option.splits)
qed

text \<open>A list with a repeated name, or with a name already taken, is refused.\<close>

lemma register_all_dup:
  assumes "reg_inv r"
    and "\<not> distinct (map entry_name as) \<or> (\<exists>a \<in> set as. reg_get r (entry_name a) \<noteq> None)"
  shows "\<exists>e. register_all reg_add as r = Inl e"
  using assms
proof (induction as arbitrary: r)
  case Nil
  then show ?case by simp
next
  case (Cons a as)
  show ?case
  proof (cases rule: add_cases [OF Cons.prems(1), of a])
    case (1 b)
    then show ?thesis by simp
  next
    case (2 r')
    with Cons.prems(2)
    have "\<not> distinct (map entry_name as) \<or> (\<exists>b \<in> set as. reg_get r' (entry_name b) \<noteq> None)"
      by auto
    with Cons.IH 2 show ?thesis by auto
  qed
qed

end

end
