(* ===== verification/Checks.thy ===== *)
theory Checks
  imports Registry_Interface
begin

text \<open>
  The check engine's data (\<open>internal/checks/check.go\<close>) and its registry
  (\<open>internal/checks/registry.go\<close>). A \<open>Check\<close> is an interface value: its name and its
  \<open>Run\<close> method, which may read the clock and the environment. The errors of results stay
  a type parameter; each checker has its own.
\<close>

section \<open>Check results\<close>

datatype check_status = CheckHealthy | CheckDegraded | CheckFailed

fun check_status_string :: "check_status \<Rightarrow> string" where
  "check_status_string CheckHealthy = ''healthy''"
| "check_status_string CheckDegraded = ''degraded''"
| "check_status_string CheckFailed = ''failed''"

record 'err check_result =
  cr_Name :: string
  cr_Service :: string
  cr_Status :: check_status
  cr_Error :: "'err option"
  cr_Timestamp :: gotime
  cr_Duration :: duration
  cr_Metadata :: "string gmap"

record ('err, 'e) check =
  ck_Name :: string
  ck_Run :: "'e world \<Rightarrow> 'err check_result \<times> 'e world"

section \<open>The registry of checks\<close>

type_synonym ('err, 'e) check_registry = "('err, 'e) check gmap"

definition new_registry :: "('err, 'e) check_registry" where
  "new_registry = []"

definition check_register ::
  "('err, 'e) check \<Rightarrow> ('err, 'e) check_registry \<Rightarrow> registry_error + ('err, 'e) check_registry" where
  "check_register c r =
     (case gget r (ck_Name c) of
        Some _ \<Rightarrow> Inl (AlreadyRegistered (ck_Name c))
      | None \<Rightarrow> Inr (gset (ck_Name c) c r))"

definition check_get :: "('err, 'e) check_registry \<Rightarrow> string \<Rightarrow> ('err, 'e) check option" where
  "check_get r n = gget r n"

definition check_all :: "('err, 'e) check_registry \<Rightarrow> ('err, 'e) check list" where
  "check_all r = gvals r"

definition check_names :: "('err, 'e) check_registry \<Rightarrow> string list" where
  "check_names r = gkeys r"

definition check_registry_ok :: "('err, 'e) check_registry \<Rightarrow> bool" where
  "check_registry_ok r \<longleftrightarrow> gwf r \<and> (\<forall>n c. gget r n = Some c \<longrightarrow> ck_Name c = n)"

interpretation check_reg: named_registry ck_Name new_registry check_register check_get check_names
  check_registry_ok
proof
  fix r :: "('err, 'e) check_registry" and c :: "('err, 'e) check"
  assume "check_registry_ok r" and "check_get r (ck_Name c) = None"
  then show "\<exists>r'. check_register c r = Inr r' \<and> check_registry_ok r' \<and>
               check_get r' = (check_get r)(ck_Name c \<mapsto> c)"
    by (auto simp: check_register_def check_get_def check_registry_ok_def)
next
  fix r :: "('err, 'e) check_registry"
  assume "check_registry_ok r"
  then show "set (check_names r) = dom (check_get r)"
    by (simp add: check_names_def check_get_def gkeys_dom dom_def)
qed (auto simp: new_registry_def check_register_def check_get_def check_names_def
      check_registry_ok_def gkeys_def gwf_def)

lemma check_all_get:
  assumes "check_registry_ok r"
  shows "c \<in> set (check_all r) \<longleftrightarrow> check_get r (ck_Name c) = Some c"
  using assms gvals_gget [of r c] by (auto simp: check_registry_ok_def check_all_def check_get_def)

end
