(* ===== verification/Ring_Interface.thy ===== *)
theory Ring_Interface
  imports Prelude
begin

text \<open>
  What a bounded telemetry log promises: it holds at most its capacity, a push adds at the end, and
  when it is full the oldest entry goes. \<open>take_last n xs\<close>, the last \<open>n\<close> entries, is the
  specification of its contents. A push that panics is \<open>None\<close>.
\<close>

definition take_last :: "nat \<Rightarrow> 'a list \<Rightarrow> 'a list" where
  "take_last n xs = drop (length xs - n) xs"

lemma take_last_all [simp]: "length xs \<le> n \<Longrightarrow> take_last n xs = xs"
  by (simp add: take_last_def)

lemma length_take_last [simp]: "length (take_last n xs) = min n (length xs)"
  by (simp add: take_last_def)

lemma take_last_append: "take_last n (take_last n xs @ ys) = take_last n (xs @ ys)"
  by (cases "length xs \<le> n") (auto simp: take_last_def add.commute)

lemma take_last_snoc_full:
  "length xs = n \<Longrightarrow> 0 < n \<Longrightarrow> take_last n (xs @ [x]) = tl xs @ [x]"
  by (cases xs) (auto simp: take_last_def)

fun push_all :: "('a \<Rightarrow> 'q \<Rightarrow> 'q option) \<Rightarrow> 'a list \<Rightarrow> 'q \<Rightarrow> 'q option" where
  "push_all p [] q = Some q"
| "push_all p (x # xs) q = Option.bind (p x q) (push_all p xs)"

locale bounded_log =
  fixes lg_push :: "'a \<Rightarrow> 'q \<Rightarrow> 'q option"
    and lg_contents :: "'q \<Rightarrow> 'a list"
    and lg_cap :: "'q \<Rightarrow> nat"
    and lg_inv :: "'q \<Rightarrow> bool"
  assumes push_ok: "lg_inv q \<Longrightarrow>
      \<exists>q'. lg_push x q = Some q' \<and> lg_inv q' \<and> lg_cap q' = lg_cap q
           \<and> lg_contents q' = take_last (lg_cap q) (lg_contents q @ [x])"
    and contents_bound: "lg_inv q \<Longrightarrow> length (lg_contents q) \<le> lg_cap q"
begin

lemma push_all_contents:
  assumes "lg_inv q"
  shows "\<exists>q'. push_all lg_push xs q = Some q' \<and> lg_inv q' \<and> lg_cap q' = lg_cap q
              \<and> lg_contents q' = take_last (lg_cap q) (lg_contents q @ xs)"
  using assms
proof (induction xs arbitrary: q)
  case Nil
  then show ?case by (simp add: contents_bound)
next
  case (Cons x xs)
  from push_ok [OF Cons.prems, of x] obtain q1 where q1: "lg_push x q = Some q1" "lg_inv q1"
    "lg_cap q1 = lg_cap q" "lg_contents q1 = take_last (lg_cap q) (lg_contents q @ [x])"
    by blast
  from Cons.IH [OF q1(2)] obtain q' where "push_all lg_push xs q1 = Some q'" "lg_inv q'"
    "lg_cap q' = lg_cap q" "lg_contents q' = take_last (lg_cap q) (lg_contents q1 @ xs)"
    by (auto simp: q1(3))
  with q1 show ?case
    by (simp add: take_last_append)
qed

end

end
