(* ===== verification/Telemetry.thy ===== *)
theory Telemetry
  imports Ring_Interface
begin

text \<open>
  The telemetry ring buffer (\<open>internal/telemetry/buffer.go\<close>) and the Prometheus instruments
  (\<open>internal/telemetry/metrics.go\<close>). The buffer is the array with its head, count and capacity,
  as in the code; \<open>ring_list\<close> is the list it stands for. \<open>Push\<close> divides by the capacity
  and so panics when it is zero: that is \<open>None\<close>. The indices stay below twice the capacity, far
  from the bounds of \<open>int\<close>, so they are naturals. The instruments are counters and gauges; a
  histogram is the list of its observations.
\<close>

section \<open>The ring buffer\<close>

record telemetry_event =
  te_Type :: string
  te_Timestamp :: gotime
  te_Data :: "string gmap"

definition zero_event :: telemetry_event where
  "zero_event = \<lparr>te_Type = '''', te_Timestamp = 0, te_Data = []\<rparr>"

record ring_buffer =
  rb_buf :: "telemetry_event list"
  rb_head :: nat
  rb_count :: nat
  rb_cap :: nat

text \<open>\<open>make([]Event, capacity)\<close> panics on a negative capacity.\<close>

definition new_ring_buffer :: "int \<Rightarrow> ring_buffer option" where
  "new_ring_buffer capacity =
     (if capacity < 0 then None
      else Some \<lparr>rb_buf = replicate (nat capacity) zero_event, rb_head = 0, rb_count = 0,
                 rb_cap = nat capacity\<rparr>)"

definition ring_push :: "telemetry_event \<Rightarrow> ring_buffer \<Rightarrow> ring_buffer option" where
  "ring_push e rb =
     (if rb_cap rb = 0 then None
      else let idx = (rb_head rb + rb_count rb) mod rb_cap rb;
               rb1 = rb\<lparr>rb_buf := (rb_buf rb)[idx := e]\<rparr>
           in Some (if rb_count rb1 = rb_cap rb1
                    then rb1\<lparr>rb_head := (rb_head rb1 + 1) mod rb_cap rb1\<rparr>
                    else rb1\<lparr>rb_count := rb_count rb1 + 1\<rparr>))"

text \<open>The loop \<open>Drain\<close> and \<open>Snapshot\<close> share.\<close>

definition ring_list :: "ring_buffer \<Rightarrow> telemetry_event list" where
  "ring_list rb = map (\<lambda>i. rb_buf rb ! ((rb_head rb + i) mod rb_cap rb)) [0..<rb_count rb]"

definition ring_drain :: "ring_buffer \<Rightarrow> telemetry_event list \<times> ring_buffer" where
  "ring_drain rb =
     (if rb_count rb = 0 then ([], rb)
      else (ring_list rb, rb\<lparr>rb_head := 0, rb_count := 0\<rparr>))"

definition ring_len :: "ring_buffer \<Rightarrow> nat" where
  "ring_len rb = rb_count rb"

definition ring_snapshot :: "ring_buffer \<Rightarrow> telemetry_event list" where
  "ring_snapshot rb = (if rb_count rb = 0 then [] else ring_list rb)"

definition ring_ok :: "ring_buffer \<Rightarrow> bool" where
  "ring_ok rb \<longleftrightarrow> 0 < rb_cap rb \<and> length (rb_buf rb) = rb_cap rb
     \<and> rb_head rb < rb_cap rb \<and> rb_count rb \<le> rb_cap rb"

lemma length_ring_list [simp]: "length (ring_list rb) = rb_count rb"
  by (simp add: ring_list_def)

lemma nth_ring_list:
  "i < rb_count rb \<Longrightarrow> ring_list rb ! i = rb_buf rb ! ((rb_head rb + i) mod rb_cap rb)"
  by (simp add: ring_list_def)

lemma ring_ok_new [inv_intros]: "new_ring_buffer c = Some rb \<Longrightarrow> 0 < c \<Longrightarrow> ring_ok rb"
  by (auto simp: new_ring_buffer_def ring_ok_def split: if_splits)

lemma ring_list_new: "new_ring_buffer c = Some rb \<Longrightarrow> ring_list rb = []"
  by (auto simp: new_ring_buffer_def ring_list_def split: if_splits)

lemma mod_add_neq:
  fixes h i j c :: nat
  assumes "i < c" and "j < c" and "i \<noteq> j"
  shows "(h + i) mod c \<noteq> (h + j) mod c"
proof
  assume "(h + i) mod c = (h + j) mod c"
  then have "i mod c = j mod c" by (simp add: nat_mod_eq_iff)
  with assms show False by simp
qed

lemma ring_push_some:
  assumes "ring_ok rb"
  obtains rb' where "ring_push e rb = Some rb'"
  using assms by (auto simp: ring_push_def ring_ok_def Let_def)

lemma ring_ok_push [inv_intros]: "ring_ok rb \<Longrightarrow> ring_push e rb = Some rb' \<Longrightarrow> ring_ok rb'"
  by (auto simp: ring_push_def ring_ok_def Let_def split: if_splits)

lemma ring_push_cap: "ring_push e rb = Some rb' \<Longrightarrow> rb_cap rb' = rb_cap rb"
  by (auto simp: ring_push_def Let_def split: if_splits)

lemma ring_push_list_room:
  assumes ok: "ring_ok rb" and room: "rb_count rb < rb_cap rb" and push: "ring_push e rb = Some rb'"
  shows "ring_list rb' = ring_list rb @ [e]"
proof (rule nth_equalityI)
  from assms have rb': "rb' = rb\<lparr>rb_buf := (rb_buf rb)[(rb_head rb + rb_count rb) mod rb_cap rb := e],
      rb_count := rb_count rb + 1\<rparr>"
    by (auto simp: ring_push_def Let_def ring_ok_def)
  then show "length (ring_list rb') = length (ring_list rb @ [e])" by simp
  fix i assume "i < length (ring_list rb')"
  then have i: "i < rb_count rb \<or> i = rb_count rb" using rb' by auto
  then show "ring_list rb' ! i = (ring_list rb @ [e]) ! i"
  proof
    assume lt: "i < rb_count rb"
    then have "(rb_head rb + i) mod rb_cap rb \<noteq> (rb_head rb + rb_count rb) mod rb_cap rb"
      using room by (intro mod_add_neq) auto
    with lt rb' show ?thesis
      by (simp add: nth_ring_list nth_append)
  next
    assume eq: "i = rb_count rb"
    have "(rb_head rb + rb_count rb) mod rb_cap rb < length (rb_buf rb)"
      using ok by (simp add: ring_ok_def)
    with eq rb' show ?thesis
      by (simp add: nth_ring_list nth_append)
  qed
qed

lemma ring_push_list_full:
  assumes ok: "ring_ok rb" and full: "rb_count rb = rb_cap rb" and push: "ring_push e rb = Some rb'"
  shows "ring_list rb' = tl (ring_list rb) @ [e]"
proof (rule nth_equalityI)
  let ?c = "rb_cap rb" and ?h = "rb_head rb"
  from ok have c: "0 < ?c" "?h < ?c" "length (rb_buf rb) = ?c" by (auto simp: ring_ok_def)
  from assms c have rb': "rb' = rb\<lparr>rb_buf := (rb_buf rb)[?h := e], rb_head := (?h + 1) mod ?c\<rparr>"
    by (auto simp: ring_push_def Let_def)
  then show "length (ring_list rb') = length (tl (ring_list rb) @ [e])"
    using full c by simp
  fix i assume "i < length (ring_list rb')"
  then have i: "i < ?c" using rb' full by simp
  have idx: "(Suc ?h mod ?c + i) mod ?c = Suc (?h + i) mod ?c"
    using mod_add_left_eq [of "Suc ?h" ?c i] by simp
  show "ring_list rb' ! i = (tl (ring_list rb) @ [e]) ! i"
  proof (cases "Suc i < ?c")
    case True
    then have "(?h + Suc i) mod ?c \<noteq> ?h"
      using mod_add_neq [of "Suc i" ?c 0 ?h] c by simp
    with True i full c show ?thesis
      by (simp add: rb' nth_ring_list nth_append nth_tl idx)
  next
    case False
    with i have "Suc i = ?c" by simp
    then have "Suc (?h + i) mod ?c = ?h"
      using c by (metis add_Suc_right mod_add_self2 mod_less)
    with False i full c show ?thesis
      by (simp add: rb' nth_ring_list nth_append idx)
  qed
qed

interpretation ring: bounded_log ring_push ring_list rb_cap ring_ok
proof
  fix q x
  assume ok: "ring_ok q"
  then obtain q' where q': "ring_push x q = Some q'" by (rule ring_push_some)
  have "ring_list q' = take_last (rb_cap q) (ring_list q @ [x])"
  proof (cases "rb_count q = rb_cap q")
    case True
    with ok q' ring_push_list_full [OF ok True q'] show ?thesis
      by (simp add: take_last_snoc_full ring_ok_def)
  next
    case False
    with ok have "rb_count q < rb_cap q" by (simp add: ring_ok_def)
    with ring_push_list_room [OF ok this q'] show ?thesis by simp
  qed
  with q' ok show "\<exists>q'. ring_push x q = Some q' \<and> ring_ok q' \<and> rb_cap q' = rb_cap q \<and>
      ring_list q' = take_last (rb_cap q) (ring_list q @ [x])"
    by (auto intro: ring_ok_push dest: ring_push_cap)
next
  fix q assume "ring_ok q"
  then show "length (ring_list q) \<le> rb_cap q" by (simp add: ring_ok_def)
qed

lemma ring_drain_ok [inv_intros]: "ring_ok rb \<Longrightarrow> ring_ok (snd (ring_drain rb))"
  by (simp add: ring_drain_def ring_ok_def)

lemma ring_drain_empties: "ring_list (snd (ring_drain rb)) = []"
  by (simp add: ring_drain_def ring_list_def)

lemma ring_drain_list: "fst (ring_drain rb) = ring_list rb"
  by (simp add: ring_drain_def ring_list_def)

section \<open>The instruments\<close>

record metrics =
  m_AgentUptime :: nat
  m_ChecksTotal :: nat
  m_ChecksFailed :: nat
  m_RepairsAttempted :: nat
  m_RepairsSuccess :: nat
  m_IncidentsTotal :: nat
  m_RepairDuration :: "duration list"
  m_IncidentResolution :: "duration list"
  m_ActiveIncidents :: int

definition new_metrics :: metrics where
  "new_metrics = \<lparr>m_AgentUptime = 0, m_ChecksTotal = 0, m_ChecksFailed = 0,
     m_RepairsAttempted = 0, m_RepairsSuccess = 0, m_IncidentsTotal = 0,
     m_RepairDuration = [], m_IncidentResolution = [], m_ActiveIncidents = 0\<rparr>"

end
