(* ===== verification/Client.thy ===== *)
theory Client
  imports Telemetry
begin

text \<open>
  The control plane client (\<open>pkg/client/client.go\<close>): its configuration and state, the queues the
  recorder reports into. A gRPC connection is a handle; the telemetry buffer and the incident counter
  the client points to belong to other components, so the client records only whether it has them.
\<close>

record incident_report =
  ir_ID :: string
  ir_CheckName :: string
  ir_Service :: string
  ir_Status :: string
  ir_FailureCount :: int
  ir_EventCreatedAt :: gotime

record repair_report =
  rp_IncidentID :: string
  rp_Rule :: string
  rp_Recipe :: string
  rp_Status :: string
  rp_EventCreatedAt :: gotime
  rp_Duration :: duration

record client =
  cl_endpoint :: string
  cl_agentUUID :: string
  cl_apiKey :: string
  cl_useTLS :: bool
  cl_heartbeatInterval :: duration
  cl_telemetryInterval :: duration
  cl_telemetryDrainer :: bool
  cl_incidentCounter :: bool
  cl_onConfigUpdate :: bool
  cl_incidents :: "incident_report chan"
  cl_repairs :: "repair_report chan"
  cl_conn :: "nat option"
  cl_connected :: bool

datatype client_option =
    WithTLS
  | WithHeartbeatInterval duration
  | WithTelemetryInterval duration
  | WithTelemetryDrainer
  | WithActiveIncidentCounter
  | WithConfigUpdateHandler

fun apply_option :: "client_option \<Rightarrow> client \<Rightarrow> client" where
  "apply_option WithTLS c = c\<lparr>cl_useTLS := True\<rparr>"
| "apply_option (WithHeartbeatInterval d) c = c\<lparr>cl_heartbeatInterval := d\<rparr>"
| "apply_option (WithTelemetryInterval d) c = c\<lparr>cl_telemetryInterval := d\<rparr>"
| "apply_option WithTelemetryDrainer c = c\<lparr>cl_telemetryDrainer := True\<rparr>"
| "apply_option WithActiveIncidentCounter c = c\<lparr>cl_incidentCounter := True\<rparr>"
| "apply_option WithConfigUpdateHandler c = c\<lparr>cl_onConfigUpdate := True\<rparr>"

definition new_control_plane_client ::
  "string \<Rightarrow> string \<Rightarrow> string \<Rightarrow> client_option list \<Rightarrow> client" where
  "new_control_plane_client endpoint uuid key opts =
     fold apply_option opts
       \<lparr>cl_endpoint = endpoint, cl_agentUUID = uuid, cl_apiKey = key, cl_useTLS = False,
        cl_heartbeatInterval = 30 * go_Second, cl_telemetryInterval = 10 * go_Second,
        cl_telemetryDrainer = False, cl_incidentCounter = False, cl_onConfigUpdate = False,
        cl_incidents = make_chan 128, cl_repairs = make_chan 128,
        cl_conn = None, cl_connected = False\<rparr>"

definition report_incident ::
  "string \<Rightarrow> string \<Rightarrow> string \<Rightarrow> string \<Rightarrow> int \<Rightarrow> gotime \<Rightarrow> client \<Rightarrow> client" where
  "report_incident i check service status failures at c =
     c\<lparr>cl_incidents := snd (try_send
          \<lparr>ir_ID = i, ir_CheckName = check, ir_Service = service, ir_Status = status,
           ir_FailureCount = failures, ir_EventCreatedAt = at\<rparr> (cl_incidents c))\<rparr>"

definition report_repair ::
  "string \<Rightarrow> string \<Rightarrow> string \<Rightarrow> string \<Rightarrow> gotime \<Rightarrow> duration \<Rightarrow> client \<Rightarrow> client" where
  "report_repair i rule recipe status at d c =
     c\<lparr>cl_repairs := snd (try_send
          \<lparr>rp_IncidentID = i, rp_Rule = rule, rp_Recipe = recipe, rp_Status = status,
           rp_EventCreatedAt = at, rp_Duration = d\<rparr> (cl_repairs c))\<rparr>"

definition client_ok :: "client \<Rightarrow> bool" where
  "client_ok c \<longleftrightarrow> chan_ok (cl_incidents c) \<and> chan_ok (cl_repairs c)
     \<and> (cl_connected c \<longleftrightarrow> cl_conn c \<noteq> None)"

lemma apply_options_queues:
  "cl_incidents (fold apply_option opts c) = cl_incidents c \<and>
   cl_repairs (fold apply_option opts c) = cl_repairs c \<and>
   cl_conn (fold apply_option opts c) = cl_conn c \<and>
   cl_connected (fold apply_option opts c) = cl_connected c"
proof (induction opts arbitrary: c)
  case Nil
  then show ?case by simp
next
  case (Cons a opts)
  show ?case by (cases a) (simp_all add: Cons.IH)
qed

lemma client_ok_new [inv_intros]: "client_ok (new_control_plane_client e u k opts)"
  using apply_options_queues [of opts] by (simp add: client_ok_def new_control_plane_client_def)

lemma client_ok_report_incident [simp, inv_intros]:
  "client_ok c \<Longrightarrow> client_ok (report_incident i n s st f t c)"
  by (simp add: client_ok_def report_incident_def)

lemma client_ok_report_repair [simp, inv_intros]:
  "client_ok c \<Longrightarrow> client_ok (report_repair i r w st t d c)"
  by (simp add: client_ok_def report_repair_def)

end
