(* ===== verification/Incident.thy ===== *)
theory Incident
  imports Prelude
begin

text \<open>
  The incident record, its status and its lifecycle events (\<open>internal/incidents/incident.go\<close>).
  \<open>Status\<close> is a string in the code; the five values it names are constructors here and any other
  string is \<open>StatusOther\<close>, with the conversions both ways. Pointers to incidents are values: the
  manager copies an incident before it hands it out.
\<close>

datatype status =
    StatusOpen
  | StatusRepairing
  | StatusVerifying
  | StatusResolved
  | StatusFailed
  | StatusOther string

fun status_string :: "status \<Rightarrow> string" where
  "status_string StatusOpen = ''open''"
| "status_string StatusRepairing = ''repairing''"
| "status_string StatusVerifying = ''verifying''"
| "status_string StatusResolved = ''resolved''"
| "status_string StatusFailed = ''failed''"
| "status_string (StatusOther s) = s"

definition status_of_string :: "string \<Rightarrow> status" where
  "status_of_string s =
     (if s = ''open'' then StatusOpen
      else if s = ''repairing'' then StatusRepairing
      else if s = ''verifying'' then StatusVerifying
      else if s = ''resolved'' then StatusResolved
      else if s = ''failed'' then StatusFailed
      else StatusOther s)"

definition known_status :: "status \<Rightarrow> bool" where
  "known_status st \<longleftrightarrow> status_of_string (status_string st) = st"

lemma status_string_of_string [simp]: "status_string (status_of_string s) = s"
  by (simp add: status_of_string_def)

lemma known_status_simps [simp]:
  "known_status StatusOpen" "known_status StatusRepairing" "known_status StatusVerifying"
  "known_status StatusResolved" "known_status StatusFailed" "known_status (status_of_string s)"
  by (simp_all add: known_status_def status_of_string_def)

record incident =
  inc_ID :: string
  inc_CheckName :: string
  inc_Service :: string
  inc_Status :: status
  inc_FailureCount :: int
  inc_CreatedAt :: gotime
  inc_UpdatedAt :: gotime
  inc_ResolvedAt :: "gotime option"

text \<open>\<open>Copy\<close> duplicates the record and the time it points to: the identity on values.\<close>

definition incident_copy :: "incident \<Rightarrow> incident" where
  "incident_copy inc = inc\<lparr>inc_ResolvedAt := (case inc_ResolvedAt inc of None \<Rightarrow> None | Some t \<Rightarrow> Some t)\<rparr>"

lemma incident_copy_id [simp]: "incident_copy inc = inc"
  by (simp add: incident_copy_def option.case_eq_if)

datatype event_type = EventOpened | EventUpdated | EventRepairing | EventResolved | EventFailed

record incident_event =
  ev_Incident :: incident
  ev_Type :: event_type

end
