(* ===== verification/Go_Float.thy ===== *)
theory Go_Float
  imports Prelude "HOL-Library.Log_Nat"
begin

text \<open>
  Arithmetic in \<open>float64\<close>: the result of an operation is the exact rational result rounded to the
  nearest number with 53 significant bits, ties to even. Numbers below the normal range are spaced
  evenly; results stay far below the overflow threshold wherever the agent computes with floats.
\<close>

section \<open>Rounding to an integer\<close>

definition rne :: "rat \<Rightarrow> int" where
  "rne x =
     (let n = \<lfloor>x\<rfloor>; d = x - of_int n
      in if d < 1 / 2 then n else if 1 / 2 < d then n + 1 else if even n then n else n + 1)"

lemma rne_close: "of_int (rne x) \<le> x + 1 / 2" "x \<le> of_int (rne x) + 1 / 2"
proof -
  have "of_int \<lfloor>x\<rfloor> \<le> x" "x < of_int \<lfloor>x\<rfloor> + 1" by linarith+
  moreover have "of_int (\<lfloor>x\<rfloor> + 1) = (of_int \<lfloor>x\<rfloor> + 1 :: rat)" by simp
  ultimately show "of_int (rne x) \<le> x + 1 / 2" "x \<le> of_int (rne x) + 1 / 2"
    unfolding rne_def Let_def by (simp_all only: of_int_add of_int_1 split: if_split) linarith+
qed

lemma rne_eqI: "of_int n - 1 / 2 < x \<Longrightarrow> x < of_int n + 1 / 2 \<Longrightarrow> rne x = n"
  using rne_close [of x] by linarith

lemma rne_ge: "of_int n \<le> x \<Longrightarrow> n \<le> rne x"
  using rne_close(2) [of x] by linarith

lemma rne_le: "x \<le> of_int n \<Longrightarrow> rne x \<le> n"
  using rne_close(1) [of x] by linarith

section \<open>Rounding to 53 bits\<close>

text \<open>The smallest positive number is \<open>2\<close> to the power \<open>-1074\<close>.\<close>

definition f64_units :: rat where
  "f64_units = 2 ^ 1074"

definition f64_shift :: "rat \<Rightarrow> nat" where
  "f64_shift y = nat (bitlen \<lfloor>y\<rfloor> - 53)"

definition f64 :: "rat \<Rightarrow> rat" where
  "f64 x =
     (let y = \<bar>x\<bar> * f64_units; s = f64_shift y
      in sgn x * (of_int (rne (y / 2 ^ s)) * 2 ^ s / f64_units))"

lemma f64_units_pos [simp]: "0 < f64_units"
  by (simp add: f64_units_def)

lemma f64_0 [simp]: "f64 0 = 0"
  by (simp add: f64_def)

lemma f64_minus: "f64 (- x) = - f64 x"
  by (simp add: f64_def Let_def)

lemma f64_pos:
  "0 \<le> x \<Longrightarrow> f64 x = of_int (rne (x * f64_units / 2 ^ f64_shift (x * f64_units)))
     * 2 ^ f64_shift (x * f64_units) / f64_units"
  by (cases "x = 0") (simp_all add: f64_def Let_def rne_def)

lemma f64_shift_le:
  assumes "y < 2 ^ (53 + k)"
  shows "f64_shift y \<le> k"
proof (cases "0 < \<lfloor>y\<rfloor>")
  case True
  have "of_int \<lfloor>y\<rfloor> \<le> y" by linarith
  then have "of_int \<lfloor>y\<rfloor> < (2 :: rat) ^ (53 + k)" using assms by (rule le_less_trans)
  then have "(of_int \<lfloor>y\<rfloor> :: rat) < of_int (2 ^ (53 + k))" by (simp only: of_int_power of_int_numeral)
  then have "\<lfloor>y\<rfloor> < 2 ^ (53 + k)" by (simp only: of_int_less_iff)
  then have "bitlen \<lfloor>y\<rfloor> \<le> int (53 + k)" by (simp only: bitlen_le_iff_power nat_int) simp
  then show ?thesis by (simp add: f64_shift_def)
next
  case False
  then show ?thesis by (simp add: f64_shift_def bitlen_def floorlog_def)
qed

lemma f64_shift_ge:
  assumes "2 ^ (52 + k) \<le> y"
  shows "k \<le> f64_shift y" and "2 ^ (52 + f64_shift y) \<le> y"
proof -
  have "of_int (2 ^ (52 + k)) \<le> y" using assms by simp
  then have fl: "2 ^ (52 + k) \<le> \<lfloor>y\<rfloor>" by (simp only: le_floor_iff)
  have pos: "0 < \<lfloor>y\<rfloor>" using fl by (rule less_le_trans [rotated]) simp
  have "\<not> bitlen \<lfloor>y\<rfloor> \<le> int (52 + k)"
    using fl by (simp only: bitlen_le_iff_power nat_int not_less) simp
  then have b: "int (52 + k) < bitlen \<lfloor>y\<rfloor>" by linarith
  then show "k \<le> f64_shift y" by (simp add: f64_shift_def)
  have "nat (bitlen \<lfloor>y\<rfloor> - 1) = 52 + f64_shift y" using b by (simp add: f64_shift_def)
  with bitlen_bounds [OF pos] have "2 ^ (52 + f64_shift y) \<le> \<lfloor>y\<rfloor>" by simp
  then have "of_int (2 ^ (52 + f64_shift y)) \<le> y" by (simp only: le_floor_iff)
  then show "2 ^ (52 + f64_shift y) \<le> y" by (simp only: of_int_power of_int_numeral)
qed

text \<open>Below \<open>2\<close> to the power \<open>53\<close> the grid contains every integer, so rounding does not pass one.\<close>

lemma units_split: "s \<le> 1074 \<Longrightarrow> f64_units = 2 ^ (1074 - s) * 2 ^ s"
  by (simp add: f64_units_def flip: power_add)

lemma f64_shifted:
  assumes "0 \<le> x" and "f64_shift (x * f64_units) \<le> 1074"
  shows "f64 x = of_int (rne (x * 2 ^ (1074 - f64_shift (x * f64_units)))) / 2 ^ (1074 - f64_shift (x * f64_units))"
proof -
  let ?s = "f64_shift (x * f64_units)"
  have u: "f64_units = 2 ^ (1074 - ?s) * 2 ^ ?s" by (rule units_split [OF assms(2)])
  have a: "x * f64_units / 2 ^ ?s = x * 2 ^ (1074 - ?s)"
    using u by (metis nonzero_mult_div_cancel_right mult.assoc power_not_zero zero_neq_numeral)
  have b: "c * 2 ^ ?s / f64_units = c / 2 ^ (1074 - ?s)" for c :: rat
    using u by (metis mult_divide_mult_cancel_right power_not_zero zero_neq_numeral)
  show ?thesis by (subst f64_pos [OF assms(1)]) (simp only: a b)
qed

lemma f64_grid:
  assumes "0 \<le> x" and "x < 2 ^ 53"
  obtains k where "f64 x = of_int (rne (x * 2 ^ k)) / 2 ^ k"
proof -
  have "x * 2 ^ 1074 < 2 ^ 53 * 2 ^ 1074" using assms(2) by (rule mult_strict_right_mono) simp
  also have "\<dots> = 2 ^ (53 + 1074)" by (simp only: power_add)
  finally have "f64_shift (x * f64_units) \<le> 1074" unfolding f64_units_def by (rule f64_shift_le)
  from f64_shifted [OF assms(1) this] that show thesis by blast
qed

lemma f64_ge:
  assumes "of_int n \<le> x" and "0 \<le> x" and "x < 2 ^ 53"
  shows "of_int n \<le> f64 x"
proof (rule f64_grid [OF assms(2,3)])
  fix k assume k: "f64 x = of_int (rne (x * 2 ^ k)) / 2 ^ k"
  have "n * 2 ^ k \<le> rne (x * 2 ^ k)" by (rule rne_ge) (use assms(1) in \<open>simp add: mult_right_mono\<close>)
  then have "(of_int (n * 2 ^ k) :: rat) \<le> of_int (rne (x * 2 ^ k))" by (simp only: of_int_le_iff)
  then show ?thesis by (simp add: k pos_le_divide_eq)
qed

lemma f64_le:
  assumes "x \<le> of_int n" and "0 \<le> x" and "x < 2 ^ 53"
  shows "f64 x \<le> of_int n"
proof (rule f64_grid [OF assms(2,3)])
  fix k assume k: "f64 x = of_int (rne (x * 2 ^ k)) / 2 ^ k"
  have "rne (x * 2 ^ k) \<le> n * 2 ^ k" by (rule rne_le) (use assms(1) in \<open>simp add: mult_right_mono\<close>)
  then have "of_int (rne (x * 2 ^ k)) \<le> (of_int (n * 2 ^ k) :: rat)" by (simp only: of_int_le_iff)
  then show ?thesis by (simp add: k pos_divide_le_eq)
qed

lemma f64_nonneg: "0 \<le> x \<Longrightarrow> x < 2 ^ 53 \<Longrightarrow> 0 \<le> f64 x"
  using f64_ge [of 0 x] by simp

lemma f64_of_int:
  assumes "0 \<le> n" and "n < 2 ^ 53"
  shows "f64 (of_int n) = of_int n"
proof -
  have "(of_int n :: rat) < of_int (2 ^ 53)" using assms(2) by (simp only: of_int_less_iff)
  then have "(of_int n :: rat) < 2 ^ 53" by simp
  with assms(1) show ?thesis by (intro antisym f64_le f64_ge) simp_all
qed

text \<open>Rounding changes a normal number by at most one part in \<open>2\<close> to the power \<open>53\<close>.\<close>

lemma f64_error:
  assumes "1 / 2 ^ 64 \<le> x"
  shows "x * (1 - 1 / 2 ^ 53) \<le> f64 x" and "f64 x \<le> x * (1 + 1 / 2 ^ 53)"
proof -
  let ?y = "x * f64_units" and ?s = "f64_shift (x * f64_units)"
  have x0: "0 \<le> x" using assms by (rule order_trans [rotated]) simp
  have "(2 ^ (52 + 0) :: rat) \<le> 1 / 2 ^ 64 * f64_units" unfolding f64_units_def by simp
  also have "\<dots> \<le> ?y" using assms by (rule mult_right_mono) (simp add: less_imp_le)
  finally have "2 ^ (52 + ?s) \<le> ?y" by (rule f64_shift_ge(2))
  then have g: "(2 ^ ?s :: rat) / 2 \<le> ?y / 2 ^ 53" by (simp add: power_add)
  have "(?y / 2 ^ ?s - 1 / 2) * 2 ^ ?s \<le> of_int (rne (?y / 2 ^ ?s)) * 2 ^ ?s"
    using rne_close(2) [of "?y / 2 ^ ?s"] by (intro mult_right_mono) (simp_all add: diff_le_eq)
  then have "?y - 2 ^ ?s / 2 \<le> of_int (rne (?y / 2 ^ ?s)) * 2 ^ ?s" by (simp add: left_diff_distrib)
  with g have l: "?y - ?y / 2 ^ 53 \<le> of_int (rne (?y / 2 ^ ?s)) * 2 ^ ?s" by linarith
  have "of_int (rne (?y / 2 ^ ?s)) * 2 ^ ?s \<le> (?y / 2 ^ ?s + 1 / 2) * 2 ^ ?s"
    by (rule mult_right_mono [OF rne_close(1)]) simp
  then have "of_int (rne (?y / 2 ^ ?s)) * 2 ^ ?s \<le> ?y + 2 ^ ?s / 2" by (simp add: distrib_right)
  with g have u: "of_int (rne (?y / 2 ^ ?s)) * 2 ^ ?s \<le> ?y + ?y / 2 ^ 53" by linarith
  show "x * (1 - 1 / 2 ^ 53) \<le> f64 x"
    using l x0 by (simp add: f64_pos pos_le_divide_eq algebra_simps)
  show "f64 x \<le> x * (1 + 1 / 2 ^ 53)"
    using u x0 by (simp add: f64_pos pos_divide_le_eq algebra_simps)
qed

lemma f64_half:
  assumes "1 / 2 ^ 64 \<le> x"
  shows "x / 2 \<le> f64 x"
proof -
  have "0 \<le> x" using assms by (rule order_trans [rotated]) simp
  then have "x / 2 \<le> x * (1 - 1 / 2 ^ 53)" by simp
  with f64_error(1) [OF assms] show ?thesis by linarith
qed

text \<open>The rounding within one binade, given its spacing.\<close>

lemma f64_binade:
  assumes s: "s \<le> 1074" and x: "2 ^ 52 \<le> x * 2 ^ (1074 - s)" "x * 2 ^ (1074 - s) < 2 ^ 53"
  shows "f64 x = of_int (rne (x * 2 ^ (1074 - s))) / 2 ^ (1074 - s)"
proof -
  have u: "x * f64_units = x * 2 ^ (1074 - s) * 2 ^ s" by (simp only: units_split [OF s] mult.assoc)
  have "(0 :: rat) < 2 ^ 52" by simp
  also note x(1)
  finally have x0: "0 \<le> x" by (simp add: zero_less_mult_iff)
  have "x * f64_units < 2 ^ 53 * 2 ^ s" unfolding u using x(2) by (rule mult_strict_right_mono) simp
  then have l: "x * f64_units < 2 ^ (53 + s)" by (simp only: power_add)
  have "2 ^ 52 * 2 ^ s \<le> x * f64_units" unfolding u using x(1) by (rule mult_right_mono) simp
  then have g: "2 ^ (52 + s) \<le> x * f64_units" by (simp only: power_add)
  have "f64_shift (x * f64_units) = s" using f64_shift_le [OF l] f64_shift_ge(1) [OF g] by simp
  with f64_shifted [OF x0] s show ?thesis by simp
qed


section \<open>Durations as numbers of hours and seconds\<close>

text \<open>
  \<open>Duration.Hours\<close> and \<open>Duration.Seconds\<close> add the whole units and the fraction; the conversion to
  an integer truncates towards zero. \<open>Time.Sub\<close> stays within 64 bits.
\<close>

definition time_sub :: "gotime \<Rightarrow> gotime \<Rightarrow> duration" where
  "time_sub t u = max (- (2 ^ 63)) (min (2 ^ 63 - 1) (t - u))"

definition duration_in :: "duration \<Rightarrow> duration \<Rightarrow> rat" where
  "duration_in unit d =
     (let whole = go_quot d unit; nsec = d - whole * unit
      in f64 (f64 (of_int whole) + f64 (f64 (of_int nsec) / of_int unit)))"

definition duration_hours :: "duration \<Rightarrow> rat" where
  "duration_hours d = duration_in go_Hour d"

definition duration_seconds :: "duration \<Rightarrow> rat" where
  "duration_seconds d = duration_in go_Second d"

definition float_to_int :: "rat \<Rightarrow> int" where
  "float_to_int x = (if 0 \<le> x then \<lfloor>x\<rfloor> else \<lceil>x\<rceil>)"

lemma go_quot_pos: "0 < b \<Longrightarrow> 0 \<le> a \<Longrightarrow> go_quot a b = a div b"
  by (cases "a = 0") (simp_all add: go_quot_def)

lemma go_quot_minus: "go_quot (- a) b = - go_quot a b"
  by (simp add: go_quot_def)

lemma duration_in_minus: "duration_in unit (- d) = - duration_in unit d"
proof -
  have a: "of_int (- go_quot d unit) = - (of_int (go_quot d unit) :: rat)" by simp
  have b: "of_int (- d - - go_quot d unit * unit) = - (of_int (d - go_quot d unit * unit) :: rat)" by simp
  show ?thesis
    unfolding duration_in_def Let_def go_quot_minus a b f64_minus minus_divide_left [symmetric]
    by (simp only: f64_minus flip: minus_add_distrib)
qed

text \<open>Hours of a duration that is not negative.\<close>

lemma hours_parts:
  assumes "0 \<le> d" and "d \<le> 2 ^ 63"
  defines "f \<equiv> f64 (of_int (d mod go_Hour) / 3600000000000)"
  shows "duration_hours d = f64 (of_int (d div go_Hour) + f)" and "0 \<le> f" and "f \<le> 1"
    and "d div go_Hour \<le> 2562047"
proof -
  have m: "0 \<le> d mod go_Hour" "d mod go_Hour < 2 ^ 53" "d mod go_Hour < go_Hour" by simp_all
  have "d div go_Hour \<le> 2 ^ 63 div go_Hour" by (rule zdiv_mono1) (use assms in simp_all)
  then show h: "d div go_Hour \<le> 2562047" by simp
  have q: "go_quot d go_Hour = d div go_Hour" using assms(1) by (simp add: go_quot_pos)
  have r: "d - d div go_Hour * go_Hour = d mod go_Hour" by (simp add: minus_div_mult_eq_mod)
  have "f64 (of_int (d div go_Hour)) = of_int (d div go_Hour)"
    by (rule f64_of_int) (use assms(1) h in \<open>simp_all add: pos_imp_zdiv_nonneg_iff\<close>)
  moreover have "f64 (of_int (d mod go_Hour)) = of_int (d mod go_Hour)" by (rule f64_of_int [OF m(1,2)])
  ultimately show "duration_hours d = f64 (of_int (d div go_Hour) + f)"
    unfolding duration_hours_def duration_in_def Let_def q r f_def by simp
  have z: "(0 :: rat) \<le> of_int (d mod go_Hour)" using m(1) by (simp only: of_int_0_le_iff)
  have o: "of_int (d mod go_Hour) < (3600000000000 :: rat)"
    using m(3) of_int_less_iff [of "d mod go_Hour" go_Hour, where 'a = rat] by simp
  show "0 \<le> f" unfolding f_def by (rule f64_nonneg) (use z o in simp_all)
  show "f \<le> 1" unfolding f_def using f64_le [of "of_int (d mod go_Hour) / 3600000000000" 1] z o by simp
qed

lemma hours_bounds:
  assumes "0 \<le> d" and "d \<le> 2 ^ 63"
  shows "of_int (d div go_Hour) \<le> duration_hours d" and "duration_hours d \<le> 2562048"
    and "duration_hours d \<le> of_int d / 3600000000000 * (1 + 1 / 2 ^ 53) ^ 2"
    and "d = 0 \<and> duration_hours d = 0 \<or> 1 / 2 ^ 50 \<le> duration_hours d"
proof -
  let ?q = "of_int (d div go_Hour) :: rat" and ?r = "of_int (d mod go_Hour) / 3600000000000 :: rat"
  let ?f = "f64 ?r"
  note h = hours_parts [OF assms]
  have q0: "0 \<le> ?q" using assms(1) by (simp add: pos_imp_zdiv_nonneg_iff)
  have "?q \<le> of_int 2562047" using h(4) by (simp only: of_int_le_iff)
  then have q1: "?q \<le> 2562047" by simp
  show "?q \<le> duration_hours d" unfolding h(1) by (rule f64_ge) (use h(2,3) q0 q1 in simp_all)
  show "duration_hours d \<le> 2562048"
    unfolding h(1) using f64_le [of "?q + ?f" 2562048] h(2,3) q0 q1 by simp
  have "of_int (d div go_Hour * go_Hour + d mod go_Hour) = (of_int d :: rat)" by (simp only: div_mult_mod_eq)
  then have "?q * 3600000000000 + of_int (d mod go_Hour) = of_int d" by (simp only: of_int_add of_int_mult of_int_numeral)
  then have d: "of_int d / 3600000000000 = ?q + ?r" by (simp add: field_simps)
  have r: "?r = 0 \<or> 1 / 2 ^ 42 \<le> ?r"
  proof (cases "d mod go_Hour = 0")
    case False
    then have "1 \<le> d mod go_Hour" by (metis int_one_le_iff_zero_less order_le_less pos_mod_sign zero_less_numeral)
    then have "(1 :: rat) \<le> of_int (d mod go_Hour)" by (simp only: of_int_1_le_iff)
    then show ?thesis by simp
  qed simp
  have "?f \<le> ?r * (1 + 1 / 2 ^ 53)"
    using r f64_error(2) [of ?r] by (cases "?r = 0") simp_all
  moreover have "?q \<le> ?q * (1 + 1 / 2 ^ 53)" using q0 by simp
  ultimately have s: "?q + ?f \<le> (?q + ?r) * (1 + 1 / 2 ^ 53)" by (simp only: distrib_right)
  have f: "?f = 0 \<and> ?r = 0 \<or> 1 / 2 ^ 43 \<le> ?f"
    using r f64_half [of ?r] by (cases "?r = 0") simp_all
  have q: "?q = 0 \<or> 1 \<le> ?q"
  proof (cases "d div go_Hour = 0")
    case False
    with assms(1) have "1 \<le> d div go_Hour" by (simp add: pos_imp_zdiv_nonneg_iff int_one_le_iff_zero_less order_less_le)
    then show ?thesis by (simp only: of_int_1_le_iff simp_thms)
  qed simp
  have t: "?q + ?f = 0 \<and> ?q + ?r = 0 \<or> 1 / 2 ^ 43 \<le> ?q + ?f"
    using f q q0 h(2) by auto
  have "f64 (?q + ?f) \<le> (?q + ?f) * (1 + 1 / 2 ^ 53)"
    using t f64_error(2) [of "?q + ?f"] by (cases "?q + ?f = 0") simp_all
  also have "\<dots> \<le> (?q + ?r) * (1 + 1 / 2 ^ 53) * (1 + 1 / 2 ^ 53)" by (rule mult_right_mono [OF s]) simp
  also have "\<dots> = (?q + ?r) * (1 + 1 / 2 ^ 53) ^ 2" by (simp only: power2_eq_square mult.assoc)
  finally show "duration_hours d \<le> of_int d / 3600000000000 * (1 + 1 / 2 ^ 53) ^ 2" unfolding h(1) d .
  show "d = 0 \<and> duration_hours d = 0 \<or> 1 / 2 ^ 50 \<le> duration_hours d"
  proof (cases "?q + ?f = 0")
    case True
    with t have "?q + ?r = 0" by auto
    with d have "d = 0" by simp
    moreover have "duration_hours d = 0" unfolding h(1) True by simp
    ultimately show ?thesis by blast
  next
    case False
    with t have "1 / 2 ^ 43 \<le> ?q + ?f" by auto
    with f64_half [of "?q + ?f"] show ?thesis unfolding h(1) by simp
  qed
qed

end
