(* ===== verification/Recorder.thy ===== *)
theory Recorder
  imports Checks Client Incident Go_Float
begin

text \<open>
  The observability facade (\<open>internal/metrics/recorder.go\<close>): every call updates the Prometheus
  instruments, pushes one telemetry event, and reports to the control plane client when there is one.
  A push into a buffer of capacity zero panics; \<open>rec_crashed\<close> records it. A \<open>float64\<close> of
  seconds made by \<open>Duration.Seconds\<close> is kept as the duration it came from. \<open>now i\<close> is the
  \<open>i\<close>-th reading of the clock in the call.
\<close>

record recorder =
  rec_m :: metrics
  rec_buffer :: ring_buffer
  rec_reporter :: "client option"
  rec_crashed :: bool

definition new_recorder :: "metrics \<Rightarrow> ring_buffer \<Rightarrow> recorder" where
  "new_recorder m b = \<lparr>rec_m = m, rec_buffer = b, rec_reporter = None, rec_crashed = False\<rparr>"

definition set_reporter :: "client \<Rightarrow> recorder \<Rightarrow> recorder" where
  "set_reporter c r = r\<lparr>rec_reporter := Some c\<rparr>"

definition rec_emit :: "gotime \<Rightarrow> string \<Rightarrow> string gmap \<Rightarrow> recorder \<Rightarrow> recorder" where
  "rec_emit t ty data r =
     (case ring_push \<lparr>te_Type = ty, te_Timestamp = t, te_Data = data\<rparr> (rec_buffer r) of
        None \<Rightarrow> r\<lparr>rec_crashed := True\<rparr>
      | Some b \<Rightarrow> r\<lparr>rec_buffer := b\<rparr>)"

text \<open>
  \<open>%f\<close> of a number of seconds, six decimals: the duration rounded to microseconds.
\<close>

definition show_seconds :: "duration \<Rightarrow> string" where
  "show_seconds d =
     (let us = (\<bar>d\<bar> + 500) div 1000
      in (if d < 0 then ''-'' else '''') @ show_int (us div 1000000) @ ''.''
         @ pad_left 6 (show_int (us mod 1000000)))"

definition with_reporter :: "(client \<Rightarrow> client) \<Rightarrow> recorder \<Rightarrow> recorder" where
  "with_reporter f r =
     (case rec_reporter r of None \<Rightarrow> r | Some c \<Rightarrow> r\<lparr>rec_reporter := Some (f c)\<rparr>)"

definition record_check_result ::
  "(nat \<Rightarrow> gotime) \<Rightarrow> 'err check_result \<Rightarrow> recorder \<Rightarrow> recorder" where
  "record_check_result now result r =
     (let m = (rec_m r)\<lparr>m_ChecksTotal := m_ChecksTotal (rec_m r) + 1\<rparr>;
          m' = (if cr_Status result = CheckFailed
                then m\<lparr>m_ChecksFailed := m_ChecksFailed m + 1\<rparr> else m)
      in rec_emit (now 0) ''check_result''
           [(''check'', cr_Name result), (''service'', cr_Service result),
            (''status'', check_status_string (cr_Status result)),
            (''duration'', show_seconds (cr_Duration result))]
           (r\<lparr>rec_m := m'\<rparr>))"

definition record_incident_opened ::
  "(nat \<Rightarrow> gotime) \<Rightarrow> incident \<Rightarrow> recorder \<Rightarrow> recorder" where
  "record_incident_opened now inc r =
     (let m = (rec_m r)\<lparr>m_IncidentsTotal := m_IncidentsTotal (rec_m r) + 1,
                        m_ActiveIncidents := m_ActiveIncidents (rec_m r) + 1\<rparr>;
          r1 = rec_emit (now 0) ''incident_created''
                 [(''id'', inc_ID inc), (''check'', inc_CheckName inc), (''service'', inc_Service inc)]
                 (r\<lparr>rec_m := m\<rparr>)
      in with_reporter
           (report_incident (inc_ID inc) (inc_CheckName inc) (inc_Service inc)
              (status_string (inc_Status inc)) (inc_FailureCount inc) (now 1)) r1)"

definition record_incident_resolved ::
  "(nat \<Rightarrow> gotime) \<Rightarrow> incident \<Rightarrow> duration \<Rightarrow> recorder \<Rightarrow> recorder" where
  "record_incident_resolved now inc secs r =
     (let m = (rec_m r)\<lparr>m_ActiveIncidents := m_ActiveIncidents (rec_m r) - 1,
                        m_IncidentResolution := m_IncidentResolution (rec_m r) @ [secs]\<rparr>;
          r1 = rec_emit (now 0) ''incident_resolved''
                 [(''id'', inc_ID inc), (''check'', inc_CheckName inc), (''service'', inc_Service inc),
                  (''resolution_seconds'', show_seconds secs)]
                 (r\<lparr>rec_m := m\<rparr>)
      in with_reporter
           (report_incident (inc_ID inc) (inc_CheckName inc) (inc_Service inc)
              (status_string (inc_Status inc)) (inc_FailureCount inc) (now 1)) r1)"

definition record_repair_started ::
  "(nat \<Rightarrow> gotime) \<Rightarrow> string \<Rightarrow> string \<Rightarrow> string \<Rightarrow> recorder \<Rightarrow> recorder" where
  "record_repair_started now incident rule recipe r =
     (let m = (rec_m r)\<lparr>m_RepairsAttempted := m_RepairsAttempted (rec_m r) + 1\<rparr>;
          r1 = rec_emit (now 0) ''repair_started''
                 [(''incident'', incident), (''rule'', rule), (''recipe'', recipe)]
                 (r\<lparr>rec_m := m\<rparr>)
      in with_reporter (report_repair incident rule recipe ''started'' (now 1) 0) r1)"

text \<open>
  \<open>time.Duration(durationSeconds)\<close> turns a number of seconds into as many nanoseconds.
\<close>

definition duration_of_seconds :: "duration \<Rightarrow> duration" where
  "duration_of_seconds secs = float_to_int (duration_seconds secs)"

definition record_repair_completed ::
  "(nat \<Rightarrow> gotime) \<Rightarrow> string \<Rightarrow> string \<Rightarrow> string \<Rightarrow> string \<Rightarrow> duration \<Rightarrow> recorder \<Rightarrow> recorder" where
  "record_repair_completed now incident rule recipe status secs r =
     (let m = (rec_m r)\<lparr>m_RepairDuration := m_RepairDuration (rec_m r) @ [secs]\<rparr>;
          m' = (if status = ''success'' then m\<lparr>m_RepairsSuccess := m_RepairsSuccess m + 1\<rparr> else m);
          r1 = rec_emit (now 0) ''repair_completed''
                 [(''incident'', incident), (''rule'', rule), (''recipe'', recipe),
                  (''status'', status), (''duration'', show_seconds secs)]
                 (r\<lparr>rec_m := m'\<rparr>)
      in with_reporter
           (report_repair incident rule recipe status (now 1) (duration_of_seconds secs)) r1)"

definition increment_uptime :: "recorder \<Rightarrow> recorder" where
  "increment_uptime r = r\<lparr>rec_m := (rec_m r)\<lparr>m_AgentUptime := m_AgentUptime (rec_m r) + 1\<rparr>\<rparr>"

section \<open>Invariant\<close>

text \<open>
  A well-formed recorder has a buffer of positive capacity, has not crashed, has a well-formed
  reporter, and never counts more failed checks than checks.
\<close>

definition recorder_ok :: "recorder \<Rightarrow> bool" where
  "recorder_ok r \<longleftrightarrow> ring_ok (rec_buffer r) \<and> \<not> rec_crashed r
     \<and> (\<forall>c. rec_reporter r = Some c \<longrightarrow> client_ok c)
     \<and> m_ChecksFailed (rec_m r) \<le> m_ChecksTotal (rec_m r)"

lemma rec_emit_frame [simp, frame_simps]:
  "rec_m (rec_emit t ty d r) = rec_m r" "rec_reporter (rec_emit t ty d r) = rec_reporter r"
  by (simp_all add: rec_emit_def split: option.splits)

lemma with_reporter_frame [simp, frame_simps]:
  "rec_m (with_reporter f r) = rec_m r" "rec_buffer (with_reporter f r) = rec_buffer r"
  "rec_crashed (with_reporter f r) = rec_crashed r"
  by (simp_all add: with_reporter_def split: option.splits)

lemma rec_emit_ok:
  assumes "ring_ok (rec_buffer r)"
  shows "ring_ok (rec_buffer (rec_emit t ty d r))" "rec_crashed (rec_emit t ty d r) = rec_crashed r"
    "ring_list (rec_buffer (rec_emit t ty d r)) =
       take_last (rb_cap (rec_buffer r))
         (ring_list (rec_buffer r) @ [\<lparr>te_Type = ty, te_Timestamp = t, te_Data = d\<rparr>])"
    "rb_cap (rec_buffer (rec_emit t ty d r)) = rb_cap (rec_buffer r)"
  using ring.push_ok [OF assms, of "\<lparr>te_Type = ty, te_Timestamp = t, te_Data = d\<rparr>"]
  by (auto simp: rec_emit_def)

lemma recorder_ok_emit [simp, inv_intros]: "recorder_ok r \<Longrightarrow> recorder_ok (rec_emit t ty d r)"
  by (simp add: recorder_ok_def rec_emit_ok)

lemma recorder_ok_with_reporter [simp, inv_intros]:
  "recorder_ok r \<Longrightarrow> (\<And>c. client_ok c \<Longrightarrow> client_ok (f c)) \<Longrightarrow> recorder_ok (with_reporter f r)"
  by (simp add: recorder_ok_def) (auto simp: with_reporter_def split: option.splits)

lemma recorder_ok_metrics [inv_intros]:
  "recorder_ok r \<Longrightarrow> m_ChecksFailed m \<le> m_ChecksTotal m \<Longrightarrow> recorder_ok (r\<lparr>rec_m := m\<rparr>)"
  by (simp add: recorder_ok_def)

lemma recorder_ok_counts: "recorder_ok r \<Longrightarrow> m_ChecksFailed (rec_m r) \<le> m_ChecksTotal (rec_m r)"
  by (simp add: recorder_ok_def)

lemma recorder_ok_check_result [simp, inv_intros]:
  "recorder_ok r \<Longrightarrow> recorder_ok (record_check_result now result r)"
  by (auto simp: record_check_result_def Let_def dest: recorder_ok_counts intro!: recorder_ok_emit recorder_ok_metrics)

lemma recorder_ok_opened [simp, inv_intros]:
  "recorder_ok r \<Longrightarrow> recorder_ok (record_incident_opened now inc r)"
  by (auto simp: record_incident_opened_def Let_def dest: recorder_ok_counts intro!: recorder_ok_with_reporter recorder_ok_emit recorder_ok_metrics)

lemma recorder_ok_resolved [simp, inv_intros]:
  "recorder_ok r \<Longrightarrow> recorder_ok (record_incident_resolved now inc d r)"
  by (auto simp: record_incident_resolved_def Let_def dest: recorder_ok_counts intro!: recorder_ok_with_reporter recorder_ok_emit recorder_ok_metrics)

lemma recorder_ok_repair_started [simp, inv_intros]:
  "recorder_ok r \<Longrightarrow> recorder_ok (record_repair_started now i rule recipe r)"
  by (auto simp: record_repair_started_def Let_def dest: recorder_ok_counts intro!: recorder_ok_with_reporter recorder_ok_emit recorder_ok_metrics)

lemma recorder_ok_repair_completed [simp, inv_intros]:
  "recorder_ok r \<Longrightarrow> recorder_ok (record_repair_completed now i rule recipe st d r)"
  by (auto simp: record_repair_completed_def Let_def dest: recorder_ok_counts intro!: recorder_ok_with_reporter recorder_ok_emit recorder_ok_metrics)

lemma recorder_ok_uptime [simp, inv_intros]: "recorder_ok r \<Longrightarrow> recorder_ok (increment_uptime r)"
  by (auto simp: increment_uptime_def dest: recorder_ok_counts intro!: recorder_ok_metrics)

text \<open>The gauge of active incidents moves with the two lifecycle calls and with nothing else.\<close>

lemma gauge_frames [simp, frame_simps]:
  "m_ActiveIncidents (rec_m (record_check_result now result r)) = m_ActiveIncidents (rec_m r)"
  "m_ActiveIncidents (rec_m (record_repair_started now i rule recipe r)) = m_ActiveIncidents (rec_m r)"
  "m_ActiveIncidents (rec_m (record_repair_completed now i rule recipe st d r)) =
     m_ActiveIncidents (rec_m r)"
  "m_ActiveIncidents (rec_m (increment_uptime r)) = m_ActiveIncidents (rec_m r)"
  "m_ActiveIncidents (rec_m (record_incident_opened now inc r)) = m_ActiveIncidents (rec_m r) + 1"
  "m_ActiveIncidents (rec_m (record_incident_resolved now inc d r)) = m_ActiveIncidents (rec_m r) - 1"
  by (simp_all add: record_check_result_def record_repair_started_def record_repair_completed_def
      increment_uptime_def record_incident_opened_def record_incident_resolved_def Let_def)

end
