(* ===== verification/Storage.thy ===== *)
theory Storage
  imports Incident
begin

text \<open>
  Local persistence (\<open>internal/storage/store.go\<close> and \<open>boltdb.go\<close>). The \<open>Store\<close>
  interface is a record of functions over a store state. BoltDB is not under src/: its transactions
  are the fields of \<open>bolt_api\<close>, a parameter, and \<open>bolt_laws\<close> states the documented behaviour
  the store relies on. The JSON text a record is stored as is kept as its syntax tree, with the
  field names, the \<open>omitempty\<close> rule and the range error of time values from the code. Strings are kept byte for byte: those the agent stores
  come from decoders of YAML and of the Kubernetes API and are valid UTF-8, which the encoder does not
  alter (bytes that are not UTF-8 it would replace).
\<close>

section \<open>The records and the interface\<close>

record storage_incident =
  si_ID :: string
  si_CheckName :: string
  si_Service :: string
  si_Status :: string
  si_FailureCount :: int
  si_CreatedAt :: gotime
  si_UpdatedAt :: gotime
  si_ResolvedAt :: "gotime option"

record repair_record =
  rec_ID :: string
  rec_IncidentID :: string
  rec_Rule :: string
  rec_Recipe :: string
  rec_Status :: string
  rec_StartedAt :: gotime
  rec_FinishedAt :: gotime
  rec_Error :: string

datatype store_error =
    MarshalError goerror
  | UnmarshalError goerror
  | IncidentNotFound string
  | ConfigKeyNotFound string
  | BackendError goerror

record 's store_ops =
  so_SaveIncident :: "storage_incident \<Rightarrow> 's \<Rightarrow> store_error option \<times> 's"
  so_GetIncident :: "string \<Rightarrow> 's \<Rightarrow> store_error + storage_incident"
  so_ListIncidents :: "'s \<Rightarrow> storage_incident list \<times> store_error option"
  so_DeleteIncident :: "string \<Rightarrow> 's \<Rightarrow> store_error option \<times> 's"
  so_SaveRepairRecord :: "repair_record \<Rightarrow> 's \<Rightarrow> store_error option \<times> 's"
  so_ListRepairRecords :: "'s \<Rightarrow> repair_record list \<times> store_error option"
  so_SaveConfigCache :: "string \<Rightarrow> string \<Rightarrow> 's \<Rightarrow> store_error option \<times> 's"
  so_GetConfigCache :: "string \<Rightarrow> 's \<Rightarrow> store_error + string"
  so_Close :: "'s \<Rightarrow> store_error option \<times> 's"

section \<open>JSON documents\<close>

datatype jvalue =
    JString string
  | JNumber int
  | JTime gotime
  | JObject "(string \<times> jvalue) list"

datatype stored = Doc jvalue | Raw string

text \<open>
  \<open>time.Time\<close> is written in RFC 3339 and refuses a year outside 0 to 9999; an absent field reads
  as Go's zero time, the first of January of year 1.
\<close>

definition time_writable :: "gotime \<Rightarrow> bool" where
  "time_writable t \<longleftrightarrow> - 62167219200 * go_Second \<le> t \<and> t < 253402300800 * go_Second"

definition zero_time :: gotime where
  "zero_time = - 62135596800 * go_Second"

definition marshal_incident :: "storage_incident \<Rightarrow> store_error + jvalue" where
  "marshal_incident i =
     (if \<not> time_writable (si_CreatedAt i) \<or> \<not> time_writable (si_UpdatedAt i)
         \<or> (\<exists>t. si_ResolvedAt i = Some t \<and> \<not> time_writable t)
      then Inl (MarshalError ''year outside of range [0,9999]'')
      else Inr (JObject
        ([(''id'', JString (si_ID i)), (''check_name'', JString (si_CheckName i)),
          (''service'', JString (si_Service i)), (''status'', JString (si_Status i)),
          (''failure_count'', JNumber (si_FailureCount i)),
          (''created_at'', JTime (si_CreatedAt i)), (''updated_at'', JTime (si_UpdatedAt i))]
         @ (case si_ResolvedAt i of None \<Rightarrow> [] | Some t \<Rightarrow> [(''resolved_at'', JTime t)]))))"

definition marshal_repair :: "repair_record \<Rightarrow> store_error + jvalue" where
  "marshal_repair r =
     (if \<not> time_writable (rec_StartedAt r) \<or> \<not> time_writable (rec_FinishedAt r)
      then Inl (MarshalError ''year outside of range [0,9999]'')
      else Inr (JObject
        ([(''id'', JString (rec_ID r)), (''incident_id'', JString (rec_IncidentID r)),
          (''rule'', JString (rec_Rule r)), (''recipe'', JString (rec_Recipe r)),
          (''status'', JString (rec_Status r)), (''started_at'', JTime (rec_StartedAt r)),
          (''finished_at'', JTime (rec_FinishedAt r))]
         @ (if rec_Error r = '''' then [] else [(''error'', JString (rec_Error r))]))))"

text \<open>Decoding a field: absent means the zero value, a value of another kind is an error.\<close>

definition field_string :: "string \<Rightarrow> (string \<times> jvalue) list \<Rightarrow> store_error + string" where
  "field_string k fs =
     (case map_of fs k of None \<Rightarrow> Inr '''' | Some (JString s) \<Rightarrow> Inr s | _ \<Rightarrow> Inl (UnmarshalError k))"

definition field_int :: "string \<Rightarrow> (string \<times> jvalue) list \<Rightarrow> store_error + int" where
  "field_int k fs =
     (case map_of fs k of None \<Rightarrow> Inr 0 | Some (JNumber n) \<Rightarrow> Inr n | _ \<Rightarrow> Inl (UnmarshalError k))"

definition field_time :: "string \<Rightarrow> (string \<times> jvalue) list \<Rightarrow> store_error + gotime" where
  "field_time k fs =
     (case map_of fs k of None \<Rightarrow> Inr zero_time | Some (JTime t) \<Rightarrow> Inr t
      | _ \<Rightarrow> Inl (UnmarshalError k))"

definition field_time_ptr :: "string \<Rightarrow> (string \<times> jvalue) list \<Rightarrow> store_error + gotime option" where
  "field_time_ptr k fs =
     (case map_of fs k of None \<Rightarrow> Inr None | Some (JTime t) \<Rightarrow> Inr (Some t)
      | _ \<Rightarrow> Inl (UnmarshalError k))"

definition bind_sum :: "'e + 'a \<Rightarrow> ('a \<Rightarrow> 'e + 'b) \<Rightarrow> 'e + 'b" where
  "bind_sum x f = (case x of Inl e \<Rightarrow> Inl e | Inr a \<Rightarrow> f a)"

lemma bind_sum_simps [simp]: "bind_sum (Inl e) f = Inl e" "bind_sum (Inr a) f = f a"
  by (simp_all add: bind_sum_def)

fun unmarshal_incident :: "stored \<Rightarrow> store_error + storage_incident" where
  "unmarshal_incident (Doc (JObject fs)) =
     bind_sum (field_string ''id'' fs) (\<lambda>i.
     bind_sum (field_string ''check_name'' fs) (\<lambda>cn.
     bind_sum (field_string ''service'' fs) (\<lambda>sv.
     bind_sum (field_string ''status'' fs) (\<lambda>st.
     bind_sum (field_int ''failure_count'' fs) (\<lambda>fc.
     bind_sum (field_time ''created_at'' fs) (\<lambda>ca.
     bind_sum (field_time ''updated_at'' fs) (\<lambda>ua.
     bind_sum (field_time_ptr ''resolved_at'' fs) (\<lambda>ra.
       Inr \<lparr>si_ID = i, si_CheckName = cn, si_Service = sv, si_Status = st, si_FailureCount = fc,
            si_CreatedAt = ca, si_UpdatedAt = ua, si_ResolvedAt = ra\<rparr>))))))))"
| "unmarshal_incident _ = Inl (UnmarshalError ''not an object'')"

fun unmarshal_repair :: "stored \<Rightarrow> store_error + repair_record" where
  "unmarshal_repair (Doc (JObject fs)) =
     bind_sum (field_string ''id'' fs) (\<lambda>i.
     bind_sum (field_string ''incident_id'' fs) (\<lambda>ii.
     bind_sum (field_string ''rule'' fs) (\<lambda>ru.
     bind_sum (field_string ''recipe'' fs) (\<lambda>re.
     bind_sum (field_string ''status'' fs) (\<lambda>st.
     bind_sum (field_time ''started_at'' fs) (\<lambda>sa.
     bind_sum (field_time ''finished_at'' fs) (\<lambda>fa.
     bind_sum (field_string ''error'' fs) (\<lambda>er.
       Inr \<lparr>rec_ID = i, rec_IncidentID = ii, rec_Rule = ru, rec_Recipe = re, rec_Status = st,
            rec_StartedAt = sa, rec_FinishedAt = fa, rec_Error = er\<rparr>))))))))"
| "unmarshal_repair _ = Inl (UnmarshalError ''not an object'')"

lemmas field_defs = field_string_def field_int_def field_time_def field_time_ptr_def

lemma unmarshal_marshal_incident:
  "marshal_incident i = Inr d \<Longrightarrow> unmarshal_incident (Doc d) = Inr i"
  by (cases i) (auto simp: marshal_incident_def field_defs split: if_splits option.splits)

lemma unmarshal_marshal_repair:
  "marshal_repair r = Inr d \<Longrightarrow> unmarshal_repair (Doc d) = Inr r"
  by (cases r) (auto simp: marshal_repair_def field_defs split: if_splits)

section \<open>BoltDB\<close>

text \<open>
  One read-write transaction that puts or deletes a key, read-only transactions that get a key or
  list a bucket in the order of its keys, opening and closing.
\<close>

record 'db bolt_api =
  ba_put :: "string \<Rightarrow> string \<Rightarrow> stored \<Rightarrow> 'db \<Rightarrow> goerror option \<times> 'db"
  ba_delete :: "string \<Rightarrow> string \<Rightarrow> 'db \<Rightarrow> goerror option \<times> 'db"
  ba_get :: "string \<Rightarrow> string \<Rightarrow> 'db \<Rightarrow> goerror + stored option"
  ba_list :: "string \<Rightarrow> 'db \<Rightarrow> goerror + (string \<times> stored) list"
  ba_create_bucket :: "string \<Rightarrow> 'db \<Rightarrow> goerror option \<times> 'db"
  ba_close :: "'db \<Rightarrow> goerror option \<times> 'db"

text \<open>
  The documented behaviour: a committed put changes one key of one bucket, a failed transaction
  changes nothing, a listing has every key of the bucket once with the value a get returns.
  \<open>b\<close> is what the database holds.
\<close>

definition bolt_laws ::
  "'db bolt_api \<Rightarrow> ('db \<Rightarrow> string \<Rightarrow> string \<Rightarrow> stored option) \<Rightarrow> bool" where
  "bolt_laws api b \<longleftrightarrow>
     (\<forall>bk k v db db'. ba_put api bk k v db = (None, db') \<longrightarrow>
        b db' = (b db)(bk := (b db bk)(k \<mapsto> v)))
     \<and> (\<forall>bk k v db db' e. ba_put api bk k v db = (Some e, db') \<longrightarrow> b db' = b db)
     \<and> (\<forall>bk k db db'. ba_delete api bk k db = (None, db') \<longrightarrow>
        b db' = (b db)(bk := (b db bk)(k := None)))
     \<and> (\<forall>bk k db db' e. ba_delete api bk k db = (Some e, db') \<longrightarrow> b db' = b db)
     \<and> (\<forall>bk k db r. ba_get api bk k db = Inr r \<longrightarrow> r = b db bk k)
     \<and> (\<forall>bk db kvs. ba_list api bk db = Inr kvs \<longrightarrow> distinct (map fst kvs) \<and> map_of kvs = b db bk)
     \<and> (\<forall>bk db db'. ba_create_bucket api bk db = (None, db') \<longrightarrow> b db' = b db)"

definition bucket_incidents :: string where "bucket_incidents = ''incidents''"
definition bucket_repairs :: string where "bucket_repairs = ''repairs''"
definition bucket_config_cache :: string where "bucket_config_cache = ''config_cache''"

record 'db bolt_store =
  bs_db :: 'db
  bs_closed_once :: bool

datatype open_error = MkdirError goerror | OpenError string goerror | CreateBucketError string goerror

fun create_buckets :: "'db bolt_api \<Rightarrow> string list \<Rightarrow> 'db \<Rightarrow> open_error option \<times> 'db" where
  "create_buckets api [] db = (None, db)"
| "create_buckets api (b # bs) db =
     (case ba_create_bucket api b db of
        (Some e, db') \<Rightarrow> (Some (CreateBucketError b e), db')
      | (None, db') \<Rightarrow> create_buckets api bs db')"

text \<open>\<open>mkdir\<close> and \<open>open\<close> are \<open>os.MkdirAll\<close> on the parent directory and \<open>bolt.Open\<close>.\<close>

definition new_bolt_store ::
  "'db bolt_api \<Rightarrow> (string \<Rightarrow> goerror option) \<Rightarrow> (string \<Rightarrow> goerror + 'db) \<Rightarrow> string
   \<Rightarrow> open_error + 'db bolt_store" where
  "new_bolt_store api mkdir open_db path =
     (case mkdir path of
        Some e \<Rightarrow> Inl (MkdirError e)
      | None \<Rightarrow>
          (case open_db path of
             Inl e \<Rightarrow> Inl (OpenError path e)
           | Inr db \<Rightarrow>
               (case create_buckets api [bucket_incidents, bucket_repairs, bucket_config_cache] db of
                  (Some e, db') \<Rightarrow> Inl e
                | (None, db') \<Rightarrow> Inr \<lparr>bs_db = db', bs_closed_once = False\<rparr>)))"

definition with_db ::
  "goerror option \<times> 'db \<Rightarrow> 'db bolt_store \<Rightarrow> store_error option \<times> 'db bolt_store" where
  "with_db r s = (map_option BackendError (fst r), s\<lparr>bs_db := snd r\<rparr>)"

definition bolt_save_incident ::
  "'db bolt_api \<Rightarrow> storage_incident \<Rightarrow> 'db bolt_store \<Rightarrow> store_error option \<times> 'db bolt_store" where
  "bolt_save_incident api i s =
     (case marshal_incident i of
        Inl e \<Rightarrow> (Some e, s)
      | Inr d \<Rightarrow> with_db (ba_put api bucket_incidents (si_ID i) (Doc d) (bs_db s)) s)"

definition bolt_get_incident ::
  "'db bolt_api \<Rightarrow> string \<Rightarrow> 'db bolt_store \<Rightarrow> store_error + storage_incident" where
  "bolt_get_incident api i s =
     (case ba_get api bucket_incidents i (bs_db s) of
        Inl e \<Rightarrow> Inl (BackendError e)
      | Inr None \<Rightarrow> Inl (IncidentNotFound i)
      | Inr (Some d) \<Rightarrow> unmarshal_incident d)"

text \<open>The \<open>ForEach\<close> loop stops at the first record that does not decode.\<close>

fun decode_all :: "(stored \<Rightarrow> store_error + 'a) \<Rightarrow> (string \<times> stored) list \<Rightarrow> 'a list \<times> store_error option" where
  "decode_all dec [] = ([], None)"
| "decode_all dec ((k, d) # kds) =
     (case dec d of
        Inl e \<Rightarrow> ([], Some e)
      | Inr x \<Rightarrow> (case decode_all dec kds of (xs, e) \<Rightarrow> (x # xs, e)))"

definition bolt_list_incidents ::
  "'db bolt_api \<Rightarrow> 'db bolt_store \<Rightarrow> storage_incident list \<times> store_error option" where
  "bolt_list_incidents api s =
     (case ba_list api bucket_incidents (bs_db s) of
        Inl e \<Rightarrow> ([], Some (BackendError e))
      | Inr kds \<Rightarrow> decode_all unmarshal_incident kds)"

definition bolt_delete_incident ::
  "'db bolt_api \<Rightarrow> string \<Rightarrow> 'db bolt_store \<Rightarrow> store_error option \<times> 'db bolt_store" where
  "bolt_delete_incident api i s = with_db (ba_delete api bucket_incidents i (bs_db s)) s"

definition bolt_save_repair_record ::
  "'db bolt_api \<Rightarrow> repair_record \<Rightarrow> 'db bolt_store \<Rightarrow> store_error option \<times> 'db bolt_store" where
  "bolt_save_repair_record api r s =
     (case marshal_repair r of
        Inl e \<Rightarrow> (Some e, s)
      | Inr d \<Rightarrow> with_db (ba_put api bucket_repairs (rec_ID r) (Doc d) (bs_db s)) s)"

definition bolt_list_repair_records ::
  "'db bolt_api \<Rightarrow> 'db bolt_store \<Rightarrow> repair_record list \<times> store_error option" where
  "bolt_list_repair_records api s =
     (case ba_list api bucket_repairs (bs_db s) of
        Inl e \<Rightarrow> ([], Some (BackendError e))
      | Inr kds \<Rightarrow> decode_all unmarshal_repair kds)"

definition bolt_save_config_cache ::
  "'db bolt_api \<Rightarrow> string \<Rightarrow> string \<Rightarrow> 'db bolt_store \<Rightarrow> store_error option \<times> 'db bolt_store" where
  "bolt_save_config_cache api k data s =
     with_db (ba_put api bucket_config_cache k (Raw data) (bs_db s)) s"

definition bolt_get_config_cache ::
  "'db bolt_api \<Rightarrow> string \<Rightarrow> 'db bolt_store \<Rightarrow> store_error + string" where
  "bolt_get_config_cache api k s =
     (case ba_get api bucket_config_cache k (bs_db s) of
        Inl e \<Rightarrow> Inl (BackendError e)
      | Inr None \<Rightarrow> Inl (ConfigKeyNotFound k)
      | Inr (Some (Raw data)) \<Rightarrow> Inr data
      | Inr (Some (Doc d)) \<Rightarrow> Inl (UnmarshalError k))"

definition bolt_close ::
  "'db bolt_api \<Rightarrow> 'db bolt_store \<Rightarrow> store_error option \<times> 'db bolt_store" where
  "bolt_close api s =
     (if bs_closed_once s then (None, s)
      else with_db (ba_close api (bs_db s)) (s\<lparr>bs_closed_once := True\<rparr>))"

definition bolt_store_ops :: "'db bolt_api \<Rightarrow> 'db bolt_store store_ops" where
  "bolt_store_ops api =
     \<lparr>so_SaveIncident = bolt_save_incident api, so_GetIncident = bolt_get_incident api,
      so_ListIncidents = bolt_list_incidents api, so_DeleteIncident = bolt_delete_incident api,
      so_SaveRepairRecord = bolt_save_repair_record api,
      so_ListRepairRecords = bolt_list_repair_records api,
      so_SaveConfigCache = bolt_save_config_cache api,
      so_GetConfigCache = bolt_get_config_cache api, so_Close = bolt_close api\<rparr>"

end
