(* ===== verification/Store_Interface.thy ===== *)
theory Store_Interface
  imports Storage
begin

text \<open>
  What the incident manager relies on when it persists incidents: a successful save makes the record
  the content of its ID and nothing else changes, a failed one changes nothing, and a listing without
  error is the content. \<open>BoltStore\<close> provides it from the laws of BoltDB, over databases whose
  incident records decode and are stored under their own ID.
\<close>

fun save_all ::
  "(storage_incident \<Rightarrow> 's \<Rightarrow> store_error option \<times> 's) \<Rightarrow> storage_incident list \<Rightarrow> 's
   \<Rightarrow> store_error option \<times> 's" where
  "save_all save [] s = (None, s)"
| "save_all save (i # is) s =
     (case save i s of (Some e, s') \<Rightarrow> (Some e, s') | (None, s') \<Rightarrow> save_all save is s')"

locale incident_store =
  fixes save :: "storage_incident \<Rightarrow> 's \<Rightarrow> store_error option \<times> 's"
    and get :: "string \<Rightarrow> 's \<Rightarrow> store_error + storage_incident"
    and list_all_inc :: "'s \<Rightarrow> storage_incident list \<times> store_error option"
    and remove_inc :: "string \<Rightarrow> 's \<Rightarrow> store_error option \<times> 's"
    and content :: "'s \<Rightarrow> string \<Rightarrow> storage_incident option"
    and sinv :: "'s \<Rightarrow> bool"
  assumes save_ok: "sinv s \<Longrightarrow> save i s = (None, s') \<Longrightarrow>
                      sinv s' \<and> content s' = (content s)(si_ID i \<mapsto> i)"
    and save_err: "sinv s \<Longrightarrow> save i s = (Some e, s') \<Longrightarrow> sinv s' \<and> content s' = content s"
    and remove_ok: "sinv s \<Longrightarrow> remove_inc n s = (None, s') \<Longrightarrow>
                      sinv s' \<and> content s' = (content s)(n := None)"
    and remove_err: "sinv s \<Longrightarrow> remove_inc n s = (Some e, s') \<Longrightarrow> sinv s' \<and> content s' = content s"
    and get_found: "sinv s \<Longrightarrow> get n s = Inr i \<Longrightarrow> content s n = Some i"
    and get_missing: "sinv s \<Longrightarrow> get n s = Inl (IncidentNotFound m) \<Longrightarrow> m = n \<and> content s n = None"
    and list_found: "sinv s \<Longrightarrow> list_all_inc s = (xs, None) \<Longrightarrow>
                       distinct (map si_ID xs) \<and> map_of (map (\<lambda>i. (si_ID i, i)) xs) = content s"
begin

lemma content_own_id:
  assumes "sinv s" and "list_all_inc s = (xs, None)" and "content s n = Some i"
  shows "si_ID i = n \<and> i \<in> set xs"
proof -
  have "map_of (map (\<lambda>i. (si_ID i, i)) xs) n = Some i"
    using list_found [OF assms(1,2)] assms(3) by simp
  then have "(n, i) \<in> set (map (\<lambda>i. (si_ID i, i)) xs)" by (rule map_of_SomeD)
  then show ?thesis by auto
qed

lemma list_members:
  assumes "sinv s" and "list_all_inc s = (xs, None)"
  shows "i \<in> set xs \<longleftrightarrow> content s (si_ID i) = Some i"
proof
  assume "i \<in> set xs"
  moreover have "distinct (map fst (map (\<lambda>i. (si_ID i, i)) xs))"
    using list_found [OF assms] by (simp add: comp_def)
  ultimately have "map_of (map (\<lambda>i. (si_ID i, i)) xs) (si_ID i) = Some i"
    by (intro map_of_is_SomeI) auto
  then show "content s (si_ID i) = Some i" using list_found [OF assms] by simp
next
  assume "content s (si_ID i) = Some i"
  then show "i \<in> set xs" using content_own_id [OF assms] by blast
qed

text \<open>Saving incidents one by one and reading the store back finds the last record of each ID.\<close>

lemma save_all_content:
  assumes "sinv s" and "save_all save is s = (None, s')"
  shows "sinv s' \<and> content s' = content s ++ map_of (rev (map (\<lambda>i. (si_ID i, i)) is))"
  using assms
proof (induction "is" arbitrary: s)
  case Nil
  then show ?case by simp
next
  case (Cons i "is")
  from Cons.prems(2) obtain s1 where s1: "save i s = (None, s1)" "save_all save is s1 = (None, s')"
    by (auto split: prod.splits option.splits)
  from save_ok [OF Cons.prems(1) s1(1)] Cons.IH [OF _ s1(2)] show ?case
    by (auto simp: map_add_def fun_eq_iff split: option.splits)
qed

end

section \<open>BoltStore provides it\<close>

definition bolt_content ::
  "('db \<Rightarrow> string \<Rightarrow> string \<Rightarrow> stored option) \<Rightarrow> 'db bolt_store \<Rightarrow> string
   \<Rightarrow> storage_incident option" where
  "bolt_content b s n =
     (case b (bs_db s) bucket_incidents n of
        None \<Rightarrow> None
      | Some d \<Rightarrow> (case unmarshal_incident d of Inl e \<Rightarrow> None | Inr i \<Rightarrow> Some i))"

definition bolt_inv ::
  "'db bolt_api \<Rightarrow> ('db \<Rightarrow> string \<Rightarrow> string \<Rightarrow> stored option) \<Rightarrow> 'db bolt_store \<Rightarrow> bool" where
  "bolt_inv api b s \<longleftrightarrow> bolt_laws api b
     \<and> (\<forall>n d. b (bs_db s) bucket_incidents n = Some d \<longrightarrow>
              (\<exists>i. unmarshal_incident d = Inr i \<and> si_ID i = n))"

lemma bolt_inv_laws: "bolt_inv api b s \<Longrightarrow> bolt_laws api b"
  by (simp add: bolt_inv_def)

lemma bolt_put_ok:
  "bolt_laws api b \<Longrightarrow> ba_put api bk k v db = (None, db') \<Longrightarrow> b db' = (b db)(bk := (b db bk)(k \<mapsto> v))"
  by (simp add: bolt_laws_def)

lemma bolt_put_err: "bolt_laws api b \<Longrightarrow> ba_put api bk k v db = (Some e, db') \<Longrightarrow> b db' = b db"
  unfolding bolt_laws_def by metis

lemma bolt_delete_ok:
  "bolt_laws api b \<Longrightarrow> ba_delete api bk k db = (None, db') \<Longrightarrow> b db' = (b db)(bk := (b db bk)(k := None))"
  by (simp add: bolt_laws_def)

lemma bolt_delete_err: "bolt_laws api b \<Longrightarrow> ba_delete api bk k db = (Some e, db') \<Longrightarrow> b db' = b db"
  unfolding bolt_laws_def by metis

lemma bolt_get_law: "bolt_laws api b \<Longrightarrow> ba_get api bk k db = Inr r \<Longrightarrow> b db bk k = r"
  by (simp add: bolt_laws_def)

lemma bolt_list_law:
  "bolt_laws api b \<Longrightarrow> ba_list api bk db = Inr kvs \<Longrightarrow> distinct (map fst kvs) \<and> map_of kvs = b db bk"
  by (simp add: bolt_laws_def)

lemma bolt_save_cases:
  assumes "bolt_save_incident api i s = (r, s')"
  obtains e where "r = Some e" and "s' = s" and "marshal_incident i = Inl e"
  | d db' where "marshal_incident i = Inr d" and "s' = s\<lparr>bs_db := db'\<rparr>" and "r = None"
    and "ba_put api bucket_incidents (si_ID i) (Doc d) (bs_db s) = (None, db')"
  | d db' e where "marshal_incident i = Inr d" and "s' = s\<lparr>bs_db := db'\<rparr>" and "r = Some (BackendError e)"
    and "ba_put api bucket_incidents (si_ID i) (Doc d) (bs_db s) = (Some e, db')"
  using assms
  by (cases "marshal_incident i")
    (auto simp: bolt_save_incident_def with_db_def, metis not_None_eq prod.collapse)

lemma decode_all_ok:
  "decode_all dec kds = (xs, None) \<longleftrightarrow> map (\<lambda>kd. dec (snd kd)) kds = map Inr xs"
proof (induction kds arbitrary: xs)
  case Nil
  then show ?case by auto
next
  case (Cons kd kds)
  obtain k d where kd: "kd = (k, d)" by (cases kd) auto
  show ?case
  proof (cases "dec d")
    case (Inl e)
    then show ?thesis by (cases xs) (auto simp: kd)
  next
    case (Inr x)
    then show ?thesis
      by (cases xs; cases "decode_all dec kds") (auto simp: kd Cons.IH [symmetric])
  qed
qed

lemma decode_own_ids:
  assumes "\<forall>(k, d) \<in> set kds. \<exists>i. unmarshal_incident d = Inr i \<and> si_ID i = k"
    and "map (\<lambda>kd. unmarshal_incident (snd kd)) kds = map Inr xs"
  shows "map si_ID xs = map fst kds
    \<and> map_of (map (\<lambda>i. (si_ID i, i)) xs) =
        (\<lambda>n. case map_of kds n of None \<Rightarrow> None
             | Some d \<Rightarrow> (case unmarshal_incident d of Inl e \<Rightarrow> None | Inr i \<Rightarrow> Some i))"
  using assms
proof (induction kds arbitrary: xs)
  case Nil
  then show ?case by auto
next
  case (Cons kd kds)
  obtain k d where kd: "kd = (k, d)" by (cases kd) auto
  with Cons.prems obtain x xs' where "xs = x # xs'" "unmarshal_incident d = Inr x" "si_ID x = k"
    "map (\<lambda>kd. unmarshal_incident (snd kd)) kds = map Inr xs'"
    by (cases xs) auto
  with Cons kd show ?case by (auto simp: fun_eq_iff)
qed

lemma bolt_inv_put:
  assumes inv: "bolt_inv api b s" and m: "marshal_incident i = Inr d"
    and put: "ba_put api bucket_incidents (si_ID i) (Doc d) (bs_db s) = (None, db')"
  shows "bolt_inv api b (s\<lparr>bs_db := db'\<rparr>)"
    and "bolt_content b (s\<lparr>bs_db := db'\<rparr>) = (bolt_content b s)(si_ID i \<mapsto> i)"
  using inv bolt_put_ok [OF bolt_inv_laws [OF inv] put] unmarshal_marshal_incident [OF m]
  by (auto simp: bolt_inv_def bolt_content_def fun_eq_iff)

lemma bolt_same_content:
  assumes "bolt_inv api b s" and "b db' = b (bs_db s)"
  shows "bolt_inv api b (s\<lparr>bs_db := db'\<rparr>)" and "bolt_content b (s\<lparr>bs_db := db'\<rparr>) = bolt_content b s"
  using assms by (auto simp: bolt_inv_def bolt_content_def fun_eq_iff)

lemma bolt_list_ok:
  assumes inv: "bolt_inv api b s" and l: "bolt_list_incidents api s = (xs, None)"
  shows "distinct (map si_ID xs) \<and> map_of (map (\<lambda>i. (si_ID i, i)) xs) = bolt_content b s"
proof -
  from l obtain kds where kds: "ba_list api bucket_incidents (bs_db s) = Inr kds"
    "decode_all unmarshal_incident kds = (xs, None)"
    by (auto simp: bolt_list_incidents_def split: sum.splits)
  note laws = bolt_list_law [OF bolt_inv_laws [OF inv] kds(1)]
  have own: "\<forall>(k, d) \<in> set kds. \<exists>i. unmarshal_incident d = Inr i \<and> si_ID i = k"
  proof clarify
    fix k d assume "(k, d) \<in> set kds"
    with laws have "b (bs_db s) bucket_incidents k = Some d"
      by (metis map_of_is_SomeI)
    with inv show "\<exists>i. unmarshal_incident d = Inr i \<and> si_ID i = k"
      by (auto simp: bolt_inv_def)
  qed
  from decode_own_ids [OF own] kds(2) laws show ?thesis
    by (simp add: decode_all_ok bolt_content_def fun_eq_iff)
qed

interpretation bolt_inc: incident_store "bolt_save_incident api" "bolt_get_incident api"
  "bolt_list_incidents api" "bolt_delete_incident api" "bolt_content b" "bolt_inv api b"
  for api :: "'db bolt_api" and b :: "'db \<Rightarrow> string \<Rightarrow> string \<Rightarrow> stored option"
proof
  fix s i s'
  assume "bolt_inv api b s" and "bolt_save_incident api i s = (None, s')"
  then show "bolt_inv api b s' \<and> bolt_content b s' = (bolt_content b s)(si_ID i \<mapsto> i)"
    by (elim bolt_save_cases) (auto dest: bolt_inv_put)
next
  fix s i s' e
  assume inv: "bolt_inv api b s" and "bolt_save_incident api i s = (Some e, s')"
  then show "bolt_inv api b s' \<and> bolt_content b s' = bolt_content b s"
    by (elim bolt_save_cases)
      (auto dest: bolt_same_content bolt_put_err [OF bolt_inv_laws [OF inv]])
next
  fix s n s'
  assume inv: "bolt_inv api b s" and "bolt_delete_incident api n s = (None, s')"
  then obtain db' where "ba_delete api bucket_incidents n (bs_db s) = (None, db')" "s' = s\<lparr>bs_db := db'\<rparr>"
    by (cases "ba_delete api bucket_incidents n (bs_db s)")
      (auto simp: bolt_delete_incident_def with_db_def)
  with bolt_delete_ok [OF bolt_inv_laws [OF inv]] inv
  show "bolt_inv api b s' \<and> bolt_content b s' = (bolt_content b s)(n := None)"
    by (auto simp: bolt_inv_def bolt_content_def fun_eq_iff)
next
  fix s n s' e
  assume inv: "bolt_inv api b s" and "bolt_delete_incident api n s = (Some e, s')"
  then obtain e' db' where "ba_delete api bucket_incidents n (bs_db s) = (Some e', db')" "s' = s\<lparr>bs_db := db'\<rparr>"
    by (cases "ba_delete api bucket_incidents n (bs_db s)")
      (auto simp: bolt_delete_incident_def with_db_def)
  with bolt_delete_err [OF bolt_inv_laws [OF inv]] bolt_same_content [OF inv]
  show "bolt_inv api b s' \<and> bolt_content b s' = bolt_content b s"
    by metis
next
  fix s n i
  assume inv: "bolt_inv api b s" and "bolt_get_incident api n s = Inr i"
  then show "bolt_content b s n = Some i"
    by (auto simp: bolt_get_incident_def bolt_content_def
          dest!: bolt_get_law [OF bolt_inv_laws [OF inv]] split: sum.splits option.splits)
next
  fix s n m
  assume inv: "bolt_inv api b s" and g: "bolt_get_incident api n s = Inl (IncidentNotFound m)"
  show "m = n \<and> bolt_content b s n = None"
  proof (cases "ba_get api bucket_incidents n (bs_db s)")
    case (Inl e)
    with g show ?thesis by (simp add: bolt_get_incident_def)
  next
    case (Inr r)
    with inv bolt_get_law [OF bolt_inv_laws [OF inv] Inr] g show ?thesis
      by (cases r) (fastforce simp: bolt_get_incident_def bolt_content_def bolt_inv_def)+
  qed
qed (rule bolt_list_ok)

end
