(* ===== verification/Manager.thy ===== *)
theory Manager
  imports Recorder Store_Interface
begin

text \<open>
  The incident manager (\<open>internal/incidents/manager.go\<close>): its state, one definition per method,
  and the invariants they keep. A method runs under the manager's lock, so each is one atomic
  operation; the events it returns are emitted right after. The store is an interface value
  \<open>ops\<close> over a state of its own; its errors are logged and otherwise ignored. \<open>now i\<close> is the
  \<open>i\<close>-th reading of the clock in a call, including those of the recorder it calls.
\<close>

section \<open>State and operations\<close>

record 'st manager =
  mg_store :: 'st
  mg_events :: "incident_event chan"
  mg_recorder :: recorder
  mg_active :: "incident gmap"
  mg_idCounter :: int

definition shift :: "nat \<Rightarrow> (nat \<Rightarrow> gotime) \<Rightarrow> nat \<Rightarrow> gotime" where
  "shift k now = (\<lambda>i. now (i + k))"

definition new_manager ::
  "(nat \<Rightarrow> gotime) \<Rightarrow> 'st \<Rightarrow> incident_event chan \<Rightarrow> recorder \<Rightarrow> 'st manager" where
  "new_manager now store events recorder =
     \<lparr>mg_store = store, mg_events = events, mg_recorder = recorder, mg_active = [],
      mg_idCounter = unix_milli (now 0)\<rparr>"

definition to_storage :: "incident \<Rightarrow> storage_incident" where
  "to_storage inc =
     \<lparr>si_ID = inc_ID inc, si_CheckName = inc_CheckName inc, si_Service = inc_Service inc,
      si_Status = status_string (inc_Status inc), si_FailureCount = inc_FailureCount inc,
      si_CreatedAt = inc_CreatedAt inc, si_UpdatedAt = inc_UpdatedAt inc,
      si_ResolvedAt = inc_ResolvedAt inc\<rparr>"

definition of_storage :: "storage_incident \<Rightarrow> incident" where
  "of_storage si =
     \<lparr>inc_ID = si_ID si, inc_CheckName = si_CheckName si, inc_Service = si_Service si,
      inc_Status = status_of_string (si_Status si), inc_FailureCount = si_FailureCount si,
      inc_CreatedAt = si_CreatedAt si, inc_UpdatedAt = si_UpdatedAt si,
      inc_ResolvedAt = si_ResolvedAt si\<rparr>"

fun rehydrate_incidents :: "storage_incident list \<Rightarrow> incident gmap \<Rightarrow> incident gmap" where
  "rehydrate_incidents [] act = act"
| "rehydrate_incidents (si # sis) act =
     (if si_Status si = status_string StatusResolved then rehydrate_incidents sis act
      else rehydrate_incidents sis (gset (inc_CheckName (of_storage si)) (of_storage si) act))"

definition rehydrate :: "'st store_ops \<Rightarrow> 'st manager \<Rightarrow> store_error option \<times> 'st manager" where
  "rehydrate ops m =
     (case so_ListIncidents ops (mg_store m) of
        (_, Some e) \<Rightarrow> (Some e, m)
      | (stored, None) \<Rightarrow> (None, m\<lparr>mg_active := rehydrate_incidents stored (mg_active m)\<rparr>))"

definition persist_incident :: "'st store_ops \<Rightarrow> incident \<Rightarrow> 'st manager \<Rightarrow> 'st manager" where
  "persist_incident ops inc m =
     m\<lparr>mg_store := snd (so_SaveIncident ops (to_storage inc) (mg_store m))\<rparr>"

definition create_incident ::
  "(nat \<Rightarrow> gotime) \<Rightarrow> 'err check_result \<Rightarrow> 'st manager \<Rightarrow> incident \<times> 'st manager" where
  "create_incident now result m =
     (let seq = mg_idCounter m + 1
      in (\<lparr>inc_ID = ''inc-'' @ show_int seq, inc_CheckName = cr_Name result,
           inc_Service = cr_Service result, inc_Status = StatusOpen, inc_FailureCount = 1,
           inc_CreatedAt = now 0, inc_UpdatedAt = now 0, inc_ResolvedAt = None\<rparr>,
          m\<lparr>mg_idCounter := seq\<rparr>))"

text \<open>
  The incident a resolution mutates is the one stored at \<open>key\<close>; it is then removed under its own
  check name.
\<close>

definition resolve_incident_locked ::
  "(nat \<Rightarrow> gotime) \<Rightarrow> 'st store_ops \<Rightarrow> string \<Rightarrow> incident \<Rightarrow> 'st manager
   \<Rightarrow> incident_event list \<times> 'st manager" where
  "resolve_incident_locked now ops key inc m =
     (let inc' = inc\<lparr>inc_Status := StatusResolved, inc_UpdatedAt := now 0,
                     inc_ResolvedAt := Some (now 0)\<rparr>;
          m1 = persist_incident ops inc' (m\<lparr>mg_active := gset key inc' (mg_active m)\<rparr>);
          m2 = m1\<lparr>mg_recorder := record_incident_resolved (shift 1 now) inc'
                     (now 0 - inc_CreatedAt inc') (mg_recorder m1)\<rparr>;
          m3 = m2\<lparr>mg_active := gdel (inc_CheckName inc') (mg_active m2)\<rparr>
      in ([\<lparr>ev_Incident = incident_copy inc', ev_Type = EventResolved\<rparr>], m3))"

definition emit :: "incident_event \<Rightarrow> 'st manager \<Rightarrow> 'st manager" where
  "emit ev m = m\<lparr>mg_events := snd (try_send ev (mg_events m))\<rparr>"

definition emit_all :: "incident_event list \<times> 'st manager \<Rightarrow> 'st manager" where
  "emit_all em = fold emit (fst em) (snd em)"

definition process_result_locked ::
  "(nat \<Rightarrow> gotime) \<Rightarrow> 'st store_ops \<Rightarrow> 'err check_result \<Rightarrow> 'st manager
   \<Rightarrow> incident_event list \<times> 'st manager" where
  "process_result_locked now ops result m =
     (case cr_Status result of
        CheckHealthy \<Rightarrow>
          (case gget (mg_active m) (cr_Name result) of
             Some existing \<Rightarrow>
               if inc_Status existing \<noteq> StatusResolved
               then resolve_incident_locked now ops (cr_Name result) existing m
               else ([], m)
           | None \<Rightarrow> ([], m))
      | _ \<Rightarrow>
          (case gget (mg_active m) (cr_Name result) of
             Some existing \<Rightarrow>
               (let inc = existing\<lparr>inc_FailureCount := inc_FailureCount existing + 1,
                                   inc_UpdatedAt := now 0\<rparr>;
                    m1 = persist_incident ops inc
                           (m\<lparr>mg_active := gset (cr_Name result) inc (mg_active m)\<rparr>)
                in ([\<lparr>ev_Incident = incident_copy inc, ev_Type = EventUpdated\<rparr>], m1))
           | None \<Rightarrow>
               (let (inc, m1) = create_incident now result m;
                    m2 = persist_incident ops inc
                           (m1\<lparr>mg_active := gset (cr_Name result) inc (mg_active m1)\<rparr>);
                    m3 = m2\<lparr>mg_recorder := record_incident_opened (shift 1 now) inc (mg_recorder m2)\<rparr>
                in ([\<lparr>ev_Incident = incident_copy inc, ev_Type = EventOpened\<rparr>], m3))))"

definition process_result ::
  "(nat \<Rightarrow> gotime) \<Rightarrow> 'st store_ops \<Rightarrow> 'err check_result \<Rightarrow> 'st manager \<Rightarrow> 'st manager" where
  "process_result now ops result m =
     emit_all (process_result_locked (shift 1 now) ops result
       (m\<lparr>mg_recorder := record_check_result now result (mg_recorder m)\<rparr>))"

definition set_status_locked ::
  "(nat \<Rightarrow> gotime) \<Rightarrow> 'st store_ops \<Rightarrow> string \<Rightarrow> status \<Rightarrow> 'st manager
   \<Rightarrow> incident_event list \<times> 'st manager" where
  "set_status_locked now ops checkName st m =
     (case gget (mg_active m) checkName of
        None \<Rightarrow> ([], m)
      | Some inc0 \<Rightarrow>
          (let inc = inc0\<lparr>inc_Status := st, inc_UpdatedAt := now 0\<rparr>;
               m1 = persist_incident ops inc (m\<lparr>mg_active := gset checkName inc (mg_active m)\<rparr>)
           in case st of
                StatusRepairing \<Rightarrow> ([\<lparr>ev_Incident = incident_copy inc, ev_Type = EventRepairing\<rparr>], m1)
              | StatusFailed \<Rightarrow> ([\<lparr>ev_Incident = incident_copy inc, ev_Type = EventFailed\<rparr>], m1)
              | StatusResolved \<Rightarrow> resolve_incident_locked (shift 1 now) ops checkName inc m1
              | _ \<Rightarrow> ([\<lparr>ev_Incident = incident_copy inc, ev_Type = EventUpdated\<rparr>], m1)))"

definition set_status ::
  "(nat \<Rightarrow> gotime) \<Rightarrow> 'st store_ops \<Rightarrow> string \<Rightarrow> status \<Rightarrow> 'st manager \<Rightarrow> 'st manager" where
  "set_status now ops checkName st m = emit_all (set_status_locked now ops checkName st m)"

definition get_active :: "'st manager \<Rightarrow> string \<Rightarrow> incident option" where
  "get_active m checkName = gget (mg_active m) checkName"

definition active_count :: "'st manager \<Rightarrow> nat" where
  "active_count m = glen (mg_active m)"

section \<open>Runs\<close>

text \<open>
  \<open>Run\<close> takes results one at a time and the repair engine sets statuses between them. An
  operation comes with the readings of the clock it sees.
\<close>

datatype 'err mgr_op = OpResult "'err check_result" | OpSetStatus string status

fun mgr_step :: "'st store_ops \<Rightarrow> (nat \<Rightarrow> gotime) \<times> 'err mgr_op \<Rightarrow> 'st manager \<Rightarrow> 'st manager" where
  "mgr_step ops (now, OpResult r) m = process_result now ops r m"
| "mgr_step ops (now, OpSetStatus c st) m = set_status now ops c st m"

fun mgr_run :: "'st store_ops \<Rightarrow> ((nat \<Rightarrow> gotime) \<times> 'err mgr_op) list \<Rightarrow> 'st manager \<Rightarrow> 'st manager" where
  "mgr_run ops [] m = m"
| "mgr_run ops (x # xs) m = mgr_run ops xs (mgr_step ops x m)"

lemma mgr_run_append: "mgr_run ops (xs @ ys) m = mgr_run ops ys (mgr_run ops xs m)"
  by (induction xs arbitrary: m) auto

section \<open>Frames\<close>

lemma persist_frame [simp, frame_simps]:
  "mg_active (persist_incident ops inc m) = mg_active m"
  "mg_events (persist_incident ops inc m) = mg_events m"
  "mg_recorder (persist_incident ops inc m) = mg_recorder m"
  "mg_idCounter (persist_incident ops inc m) = mg_idCounter m"
  by (simp_all add: persist_incident_def)

lemma emit_frame [simp, frame_simps]:
  "mg_active (emit ev m) = mg_active m" "mg_store (emit ev m) = mg_store m"
  "mg_recorder (emit ev m) = mg_recorder m" "mg_idCounter (emit ev m) = mg_idCounter m"
  by (simp_all add: emit_def)

lemma fold_emit_frame [simp, frame_simps]:
  "mg_active (fold emit evs m) = mg_active m" "mg_store (fold emit evs m) = mg_store m"
  "mg_recorder (fold emit evs m) = mg_recorder m" "mg_idCounter (fold emit evs m) = mg_idCounter m"
  by (induction evs arbitrary: m) simp_all

lemma emit_all_frame [simp, frame_simps]:
  "mg_active (emit_all em) = mg_active (snd em)" "mg_store (emit_all em) = mg_store (snd em)"
  "mg_recorder (emit_all em) = mg_recorder (snd em)"
  "mg_idCounter (emit_all em) = mg_idCounter (snd em)"
  by (simp_all add: emit_all_def)

lemma chan_ok_fold_emit [simp, inv_intros]:
  "chan_ok (mg_events m) \<Longrightarrow> chan_ok (mg_events (fold emit evs m))"
  by (induction evs arbitrary: m) (simp_all add: emit_def)

lemma status_storage_roundtrip: "known_status (inc_Status inc) \<Longrightarrow> of_storage (to_storage inc) = inc"
  by (simp add: of_storage_def to_storage_def known_status_def)

end
