(* ===== verification/Manager_Props.thy ===== *)
theory Manager_Props
  imports Manager
begin

text \<open>
  What the incident manager guarantees: its invariant, the abstract incident table it implements,
  fresh incident IDs, the agreement of the gauge with the table, and the lifecycle of one incident.
\<close>

section \<open>The invariant\<close>

text \<open>
  One active incident per check, stored under its check name and never in status resolved; the event
  channel within its capacity; a well-formed recorder.
\<close>

definition active_ok :: "incident gmap \<Rightarrow> bool" where
  "active_ok act \<longleftrightarrow> gwf act \<and>
     (\<forall>k inc. gget act k = Some inc \<longrightarrow> inc_CheckName inc = k \<and> inc_Status inc \<noteq> StatusResolved)"

definition manager_ok :: "'st manager \<Rightarrow> bool" where
  "manager_ok m \<longleftrightarrow> active_ok (mg_active m) \<and> chan_ok (mg_events m) \<and> recorder_ok (mg_recorder m)"

lemma active_ok_Nil [simp, inv_intros]: "active_ok []"
  by (simp add: active_ok_def)

lemma active_ok_gset [inv_intros]:
  "active_ok act \<Longrightarrow> inc_CheckName inc = k \<Longrightarrow> inc_Status inc \<noteq> StatusResolved \<Longrightarrow> active_ok (gset k inc act)"
  by (auto simp: active_ok_def)

lemma active_ok_gdel [inv_intros]: "active_ok act \<Longrightarrow> active_ok (gdel k act)"
  by (auto simp: active_ok_def)

lemma active_okD:
  assumes "active_ok act" and "gget act k = Some inc"
  shows "inc_CheckName inc = k" "inc_Status inc \<noteq> StatusResolved"
  using assms by (auto simp: active_ok_def)

text \<open>A resolution overwrites an entry and then deletes it, so the entries around it stay well-formed.\<close>

lemma active_ok_resolve [inv_intros]: "active_ok act \<Longrightarrow> active_ok (gdel k (gset k inc act))"
  by (auto simp: active_ok_def)

lemma resolve_effect:
  assumes "inc_CheckName inc = key"
  shows "mg_active (snd (resolve_incident_locked now ops key inc m)) =
           gdel key (gset key (inc\<lparr>inc_Status := StatusResolved, inc_UpdatedAt := now 0,
                                    inc_ResolvedAt := Some (now 0)\<rparr>) (mg_active m))"
    and "mg_events (snd (resolve_incident_locked now ops key inc m)) = mg_events m"
    and "mg_idCounter (snd (resolve_incident_locked now ops key inc m)) = mg_idCounter m"
    and "recorder_ok (mg_recorder m) \<Longrightarrow>
           recorder_ok (mg_recorder (snd (resolve_incident_locked now ops key inc m)))"
    and "m_ActiveIncidents (rec_m (mg_recorder (snd (resolve_incident_locked now ops key inc m)))) =
           m_ActiveIncidents (rec_m (mg_recorder m)) - 1"
  using assms by (simp_all add: resolve_incident_locked_def Let_def)

lemma emit_all_events_ok [simp, inv_intros]:
  "chan_ok (mg_events (snd em)) \<Longrightarrow> chan_ok (mg_events (emit_all em))"
  by (simp add: emit_all_def)

lemma manager_ok_emit_all [inv_intros]: "manager_ok (snd em) \<Longrightarrow> manager_ok (emit_all em)"
  by (simp add: manager_ok_def)

lemma manager_ok_persist [simp]: "manager_ok (persist_incident ops inc m) = manager_ok m"
  by (simp add: manager_ok_def)

lemma manager_ok_resolve [inv_intros]:
  assumes "manager_ok (m\<lparr>mg_active := act\<rparr>)" and "inc_CheckName inc = key"
    and "mg_active m = gset key inc' act \<or> mg_active m = act"
  shows "manager_ok (snd (resolve_incident_locked now ops key inc m))"
proof -
  have "active_ok (gdel key (gset key inc2 (mg_active m)))" for inc2
    using assms(1,3) by (auto simp: manager_ok_def active_ok_def)
  then show ?thesis
    using assms(1,2) by (simp add: manager_ok_def resolve_effect)
qed

lemma manager_ok_process_result [simp, inv_intros]:
  assumes "manager_ok m"
  shows "manager_ok (process_result now ops r m)"
proof -
  let ?m = "m\<lparr>mg_recorder := record_check_result now r (mg_recorder m)\<rparr>"
  from assms have ok: "manager_ok ?m" by (simp add: manager_ok_def)
  have act: "active_ok (mg_active m)" using assms by (simp add: manager_ok_def)
  have "manager_ok (snd (process_result_locked now' ops r ?m))" for now'
  proof (cases "gget (mg_active m) (cr_Name r)")
    case None
    with ok show ?thesis
      by (cases "cr_Status r")
        (auto simp: process_result_locked_def create_incident_def Let_def manager_ok_def
          intro!: active_ok_gset)
  next
    case (Some inc)
    have "manager_ok (snd (resolve_incident_locked now' ops (cr_Name r) inc ?m))"
      by (rule manager_ok_resolve [where act = "mg_active m"]) (use ok active_okD [OF act Some] in auto)
    with Some ok active_okD [OF act Some] show ?thesis
      by (cases "cr_Status r")
        (auto simp: process_result_locked_def Let_def manager_ok_def intro!: active_ok_gset)
  qed
  then show ?thesis
    unfolding process_result_def by (rule manager_ok_emit_all)
qed

lemma manager_ok_set_status [simp, inv_intros]:
  assumes "manager_ok m"
  shows "manager_ok (set_status now ops c st m)"
proof (cases "gget (mg_active m) c")
  case None
  with assms show ?thesis by (simp add: set_status_def set_status_locked_def emit_all_def)
next
  case (Some inc)
  have act: "active_ok (mg_active m)" using assms by (simp add: manager_ok_def)
  note d = active_okD [OF act Some]
  have res: "manager_ok (snd (resolve_incident_locked now' ops c (inc\<lparr>inc_Status := st, inc_UpdatedAt := t\<rparr>)
               (persist_incident ops i (m\<lparr>mg_active := gset c i2 (mg_active m)\<rparr>))))" for now' t i i2
    by (rule manager_ok_resolve [where act = "mg_active m"])
      (use assms d in \<open>auto simp: manager_ok_def\<close>)
  have "manager_ok (snd (set_status_locked now ops c st m))"
    using Some res d assms
    by (cases st) (auto simp: set_status_locked_def Let_def manager_ok_def intro!: active_ok_gset)
  then show ?thesis
    unfolding set_status_def by (rule manager_ok_emit_all)
qed

lemma manager_ok_step [simp, inv_intros]: "manager_ok m \<Longrightarrow> manager_ok (mgr_step ops x m)"
  by (cases x; cases "snd x") auto

lemma mgr_run_invariant:
  fixes xs :: "((nat \<Rightarrow> gotime) \<times> 'err mgr_op) list"
  assumes "P m" and "\<And>m (x :: (nat \<Rightarrow> gotime) \<times> 'err mgr_op). P m \<Longrightarrow> P (mgr_step ops x m)"
  shows "P (mgr_run ops xs m)"
  using assms(1) by (induction xs arbitrary: m) (simp_all add: assms(2))

lemma manager_ok_run [inv_intros]: "manager_ok m \<Longrightarrow> manager_ok (mgr_run ops xs m)"
  by (rule mgr_run_invariant) auto

lemma active_ok_rehydrate [inv_intros]:
  assumes "active_ok act"
  shows "active_ok (rehydrate_incidents sis act)"
  using assms
proof (induction sis arbitrary: act)
  case Nil
  then show ?case by simp
next
  case (Cons si sis)
  have "inc_Status (of_storage si) \<noteq> StatusResolved" if "si_Status si \<noteq> status_string StatusResolved"
    using that by (auto simp: of_storage_def status_of_string_def split: if_splits)
  with Cons show ?case by (auto intro!: Cons.IH active_ok_gset simp: of_storage_def)
qed

lemma manager_ok_rehydrate [simp, inv_intros]:
  "manager_ok m \<Longrightarrow> manager_ok (snd (rehydrate ops m))"
  by (auto simp: rehydrate_def manager_ok_def intro: active_ok_rehydrate split: prod.splits option.splits)

lemma manager_ok_new [inv_intros]:
  "chan_ok ch \<Longrightarrow> recorder_ok r \<Longrightarrow> manager_ok (new_manager now st ch r)"
  by (simp add: new_manager_def manager_ok_def)

section \<open>What a step does to one check's incident\<close>

lemma active_process_result:
  assumes "manager_ok m"
  shows "gget (mg_active (process_result now ops r m)) k =
    (if k \<noteq> cr_Name r then gget (mg_active m) k
     else case cr_Status r of
       CheckHealthy \<Rightarrow> None
     | _ \<Rightarrow>
         (case gget (mg_active m) k of
            None \<Rightarrow> Some (fst (create_incident (shift 1 now) r m))
          | Some inc \<Rightarrow> Some (inc\<lparr>inc_FailureCount := inc_FailureCount inc + 1,
                                 inc_UpdatedAt := now 1\<rparr>)))"
proof -
  have act: "active_ok (mg_active m)" using assms by (simp add: manager_ok_def)
  show ?thesis
  proof (cases "gget (mg_active m) (cr_Name r)")
    case None
    then show ?thesis
      by (cases "cr_Status r")
        (auto simp: process_result_def process_result_locked_def create_incident_def Let_def shift_def)
  next
    case (Some inc)
    with active_okD [OF act Some] show ?thesis
      by (cases "cr_Status r")
        (auto simp: process_result_def process_result_locked_def resolve_effect Let_def shift_def)
  qed
qed

lemma active_set_status:
  assumes "manager_ok m"
  shows "gget (mg_active (set_status now ops c st m)) k =
    (if k \<noteq> c then gget (mg_active m) k
     else case gget (mg_active m) k of
       None \<Rightarrow> None
     | Some inc \<Rightarrow>
         if st = StatusResolved then None
         else Some (inc\<lparr>inc_Status := st, inc_UpdatedAt := now 0\<rparr>))"
proof (cases "gget (mg_active m) c")
  case None
  then show ?thesis by (auto simp: set_status_def set_status_locked_def)
next
  case (Some inc)
  have "active_ok (mg_active m)" using assms by (simp add: manager_ok_def)
  from active_okD [OF this Some] Some show ?thesis
    by (cases st) (auto simp: set_status_def set_status_locked_def resolve_effect Let_def)
qed

section \<open>The abstract incident table\<close>

text \<open>
  What the manager is for: a table from check names to the status and failure count of the one
  active incident. A healthy result closes the entry, a failing one opens it or counts one more, and
  a status change applies to an open entry only.
\<close>

type_synonym incident_table = "string \<Rightarrow> (status \<times> int) option"

fun table_step :: "'err mgr_op \<Rightarrow> incident_table \<Rightarrow> incident_table" where
  "table_step (OpResult r) t =
     (case cr_Status r of
        CheckHealthy \<Rightarrow> t(cr_Name r := None)
      | _ \<Rightarrow> t(cr_Name r := Some (case t (cr_Name r) of
                                      None \<Rightarrow> (StatusOpen, 1) | Some (st, n) \<Rightarrow> (st, n + 1))))"
| "table_step (OpSetStatus c st) t =
     (case t c of
        None \<Rightarrow> t
      | Some (_, n) \<Rightarrow> if st = StatusResolved then t(c := None) else t(c := Some (st, n)))"

definition table_of :: "'st manager \<Rightarrow> incident_table" where
  "table_of m = (\<lambda>k. map_option (\<lambda>inc. (inc_Status inc, inc_FailureCount inc)) (gget (mg_active m) k))"

lemma table_of_step:
  assumes "manager_ok m"
  shows "table_of (mgr_step ops (now, op) m) = table_step op (table_of m)"
proof (cases op)
  case (OpResult r)
  show ?thesis
  proof
    fix k
    show "table_of (mgr_step ops (now, op) m) k = table_step op (table_of m) k"
      by (cases "gget (mg_active m) k"; cases "cr_Status r"; cases "k = cr_Name r")
        (simp_all add: OpResult table_of_def active_process_result [OF assms] create_incident_def Let_def)
  qed
next
  case (OpSetStatus c st)
  show ?thesis
  proof
    fix k
    show "table_of (mgr_step ops (now, op) m) k = table_step op (table_of m) k"
      by (cases "gget (mg_active m) c"; cases "k = c")
        (simp_all add: OpSetStatus table_of_def active_set_status [OF assms])
  qed
qed

lemma table_of_run:
  assumes "manager_ok m"
  shows "table_of (mgr_run ops xs m) = fold (\<lambda>x. table_step (snd x)) xs (table_of m)"
  using assms
proof (induction xs arbitrary: m)
  case Nil
  then show ?case by simp
next
  case (Cons x xs)
  obtain now op where "x = (now, op)" by (cases x)
  with Cons show ?case by (simp add: table_of_step)
qed

section \<open>Incident IDs\<close>

definition inc_id_of :: "int \<Rightarrow> string" where
  "inc_id_of n = ''inc-'' @ show_int n"

lemma inc_id_of_inject [simp]: "inc_id_of a = inc_id_of b \<longleftrightarrow> a = b"
  by (simp add: inc_id_of_def)

definition ids_ok :: "'st manager \<Rightarrow> bool" where
  "ids_ok m \<longleftrightarrow>
     (\<forall>k inc. gget (mg_active m) k = Some inc \<longrightarrow> (\<exists>n \<le> mg_idCounter m. inc_ID inc = inc_id_of n))
     \<and> (\<forall>k1 k2 i1 i2. gget (mg_active m) k1 = Some i1 \<longrightarrow> gget (mg_active m) k2 = Some i2 \<longrightarrow>
            inc_ID i1 = inc_ID i2 \<longrightarrow> k1 = k2)"

lemma create_incident_id [simp]:
  "inc_ID (fst (create_incident now r m)) = inc_id_of (mg_idCounter m + 1)"
  by (simp add: create_incident_def Let_def inc_id_of_def)

lemma counter_process_result:
  assumes "manager_ok m"
  shows "mg_idCounter (process_result now ops r m) =
    (if cr_Status r \<noteq> CheckHealthy \<and> gget (mg_active m) (cr_Name r) = None
     then mg_idCounter m + 1 else mg_idCounter m)"
proof -
  have act: "active_ok (mg_active m)" using assms by (simp add: manager_ok_def)
  show ?thesis
  proof (cases "gget (mg_active m) (cr_Name r)")
    case None
    then show ?thesis
      by (cases "cr_Status r")
        (auto simp: process_result_def process_result_locked_def create_incident_def Let_def)
  next
    case (Some inc)
    with active_okD [OF act Some] show ?thesis
      by (cases "cr_Status r")
        (auto simp: process_result_def process_result_locked_def resolve_effect Let_def)
  qed
qed

lemma counter_set_status:
  assumes "manager_ok m"
  shows "mg_idCounter (set_status now ops c st m) = mg_idCounter m"
proof (cases "gget (mg_active m) c")
  case None
  then show ?thesis by (simp add: set_status_def set_status_locked_def)
next
  case (Some inc)
  have "active_ok (mg_active m)" using assms by (simp add: manager_ok_def)
  from active_okD [OF this Some] Some show ?thesis
    by (cases st) (auto simp: set_status_def set_status_locked_def resolve_effect Let_def)
qed

lemma counter_step_mono:
  "manager_ok m \<Longrightarrow> mg_idCounter m \<le> mg_idCounter (mgr_step ops x m)"
  by (cases x; cases "snd x") (auto simp: counter_process_result counter_set_status)

lemma counter_run_mono:
  assumes "manager_ok m"
  shows "mg_idCounter m \<le> mg_idCounter (mgr_run ops xs m)"
proof -
  have "manager_ok (mgr_run ops xs m) \<and> mg_idCounter m \<le> mg_idCounter (mgr_run ops xs m)"
    by (rule mgr_run_invariant) (use assms in \<open>auto intro: order_trans counter_step_mono\<close>)
  then show ?thesis ..
qed

text \<open>An entry after a step is an entry before it with the same ID, or one opened by the step.\<close>

lemma step_entry:
  assumes ok: "manager_ok m" and g: "gget (mg_active (mgr_step ops x m)) k = Some inc'"
  shows "(\<exists>inc. gget (mg_active m) k = Some inc \<and> inc_ID inc' = inc_ID inc)
    \<or> (gget (mg_active m) k = None \<and> inc_ID inc' = inc_id_of (mg_idCounter (mgr_step ops x m))
        \<and> mg_idCounter (mgr_step ops x m) = mg_idCounter m + 1 \<and> inc_Status inc' = StatusOpen)"
proof -
  obtain now op where x: "x = (now, op)" by (cases x)
  show ?thesis
  proof (cases op)
    case (OpResult r)
    with x g show ?thesis
      by (cases "cr_Status r"; cases "gget (mg_active m) (cr_Name r)")
        (auto simp: active_process_result [OF ok] counter_process_result [OF ok]
          create_incident_def Let_def inc_id_of_def split: if_splits)
  next
    case (OpSetStatus c st)
    with x g show ?thesis
      by (auto simp: active_set_status [OF ok] split: if_splits option.splits)
  qed
qed

lemma ids_ok_step [inv_intros]:
  assumes ok: "manager_ok m" and ids: "ids_ok m"
  shows "ids_ok (mgr_step ops x m)"
  unfolding ids_ok_def
proof (intro conjI allI impI)
  let ?m' = "mgr_step ops x m"
  have le: "mg_idCounter m \<le> mg_idCounter ?m'" by (rule counter_step_mono [OF ok])
  {
    fix k inc assume "gget (mg_active ?m') k = Some inc"
    with step_entry [OF ok this] ids le show "\<exists>n \<le> mg_idCounter ?m'. inc_ID inc = inc_id_of n"
      unfolding ids_ok_def by (metis order.trans order.refl)
  }
  fix k1 k2 i1 i2
  assume g1: "gget (mg_active ?m') k1 = Some i1" and g2: "gget (mg_active ?m') k2 = Some i2"
    and eq: "inc_ID i1 = inc_ID i2"
  have old: "n \<le> mg_idCounter m" if "gget (mg_active m) k = Some i" "inc_ID i = inc_id_of n" for k i n
    using ids that unfolding ids_ok_def by (metis inc_id_of_inject)
  show "k1 = k2"
  proof (cases "gget (mg_active m) k1 = None \<or> gget (mg_active m) k2 = None")
    case False
    with step_entry [OF ok g1] step_entry [OF ok g2] eq ids show ?thesis
      unfolding ids_ok_def by (metis option.distinct(1))
  next
    case True
    show ?thesis
    proof (rule ccontr)
      assume "k1 \<noteq> k2"
      with True step_entry [OF ok g1] step_entry [OF ok g2] eq old
      have "gget (mg_active m) k1 = None \<and> gget (mg_active m) k2 = None"
        by (metis less_add_one linorder_not_less option.distinct(1))
      moreover obtain now op where "x = (now, op)" by (cases x)
      ultimately show False
        using g1 g2 \<open>k1 \<noteq> k2\<close>
        by (cases op) (auto simp: active_process_result [OF ok] active_set_status [OF ok] split: if_splits)
    qed
  qed
qed

lemma ids_ok_run [inv_intros]:
  assumes "manager_ok m" and "ids_ok m"
  shows "ids_ok (mgr_run ops xs m)"
proof -
  have "manager_ok (mgr_run ops xs m) \<and> ids_ok (mgr_run ops xs m)"
    by (rule mgr_run_invariant) (use assms in \<open>auto intro: ids_ok_step\<close>)
  then show ?thesis ..
qed

lemma ids_ok_new [inv_intros]: "ids_ok (new_manager now st ch r)"
  by (simp add: ids_ok_def new_manager_def)

section \<open>The gauge of active incidents\<close>

definition gauge :: "'st manager \<Rightarrow> int" where
  "gauge m = m_ActiveIncidents (rec_m (mg_recorder m))"

lemma gauge_process_result:
  assumes "manager_ok m"
  shows "gauge (process_result now ops r m) - int (active_count (process_result now ops r m)) =
         gauge m - int (active_count m)"
proof -
  have act: "active_ok (mg_active m)" using assms by (simp add: manager_ok_def)
  then have wf: "gwf (mg_active m)" by (simp add: active_ok_def)
  show ?thesis
  proof (cases "gget (mg_active m) (cr_Name r)")
    case None
    with wf show ?thesis
      by (cases "cr_Status r")
        (auto simp: process_result_def process_result_locked_def create_incident_def Let_def
          gauge_def active_count_def glen_gset)
  next
    case (Some inc)
    then have "0 < glen (mg_active m)"
      by (cases "mg_active m") (auto simp: glen_def)
    with Some wf active_okD [OF act Some] show ?thesis
      by (cases "cr_Status r")
        (auto simp: process_result_def process_result_locked_def resolve_effect Let_def
          gauge_def active_count_def glen_gset glen_gdel)
  qed
qed

lemma gauge_set_status:
  assumes "manager_ok m"
  shows "gauge (set_status now ops c st m) - int (active_count (set_status now ops c st m)) =
         gauge m - int (active_count m)"
proof (cases "gget (mg_active m) c")
  case None
  then show ?thesis by (simp add: set_status_def set_status_locked_def gauge_def active_count_def)
next
  case (Some inc)
  have act: "active_ok (mg_active m)" using assms by (simp add: manager_ok_def)
  then have wf: "gwf (mg_active m)" by (simp add: active_ok_def)
  from Some have "0 < glen (mg_active m)" by (cases "mg_active m") (auto simp: glen_def)
  with Some wf active_okD [OF act Some] show ?thesis
    by (cases st) (auto simp: set_status_def set_status_locked_def resolve_effect Let_def
        gauge_def active_count_def glen_gset glen_gdel)
qed

lemma gauge_step:
  "manager_ok m \<Longrightarrow>
     gauge (mgr_step ops x m) - int (active_count (mgr_step ops x m)) = gauge m - int (active_count m)"
  by (cases x; cases "snd x") (auto simp: gauge_process_result gauge_set_status)

lemma gauge_run:
  assumes "manager_ok m"
  shows "gauge (mgr_run ops xs m) - int (active_count (mgr_run ops xs m)) = gauge m - int (active_count m)"
proof -
  have "manager_ok (mgr_run ops xs m) \<and> gauge (mgr_run ops xs m) - int (active_count (mgr_run ops xs m))
          = gauge m - int (active_count m)"
    by (rule mgr_run_invariant) (use assms in \<open>auto simp: gauge_step\<close>)
  then show ?thesis ..
qed

section \<open>Events\<close>

text \<open>The events an operation hands to \<open>emit\<close>, whether or not the channel has room for them.\<close>

fun step_events ::
  "'st store_ops \<Rightarrow> (nat \<Rightarrow> gotime) \<times> 'err mgr_op \<Rightarrow> 'st manager \<Rightarrow> incident_event list" where
  "step_events ops (now, OpResult r) m =
     fst (process_result_locked (shift 1 now) ops r
       (m\<lparr>mg_recorder := record_check_result now r (mg_recorder m)\<rparr>))"
| "step_events ops (now, OpSetStatus c st) m = fst (set_status_locked now ops c st m)"

fun run_events ::
  "'st store_ops \<Rightarrow> ((nat \<Rightarrow> gotime) \<times> 'err mgr_op) list \<Rightarrow> 'st manager \<Rightarrow> incident_event list" where
  "run_events ops [] m = []"
| "run_events ops (x # xs) m = step_events ops x m @ run_events ops xs (mgr_step ops x m)"

text \<open>The lifecycle of one check's events: opened, then any number of changes, then resolved.\<close>

fun lifecycle :: "bool \<Rightarrow> event_type list \<Rightarrow> bool" where
  "lifecycle active [] \<longleftrightarrow> True"
| "lifecycle active (EventOpened # es) \<longleftrightarrow> \<not> active \<and> lifecycle True es"
| "lifecycle active (EventResolved # es) \<longleftrightarrow> active \<and> lifecycle False es"
| "lifecycle active (_ # es) \<longleftrightarrow> active \<and> lifecycle True es"

definition events_of :: "string \<Rightarrow> incident_event list \<Rightarrow> event_type list" where
  "events_of k evs = map ev_Type (filter (\<lambda>e. inc_CheckName (ev_Incident e) = k) evs)"

lemma events_of_append [simp]: "events_of k (a @ b) = events_of k a @ events_of k b"
  by (simp add: events_of_def)

lemma events_of_Nil [simp]: "events_of k [] = []"
  by (simp add: events_of_def)

lemma resolve_events:
  "fst (resolve_incident_locked now ops key inc m) =
     [\<lparr>ev_Incident = inc\<lparr>inc_Status := StatusResolved, inc_UpdatedAt := now 0,
         inc_ResolvedAt := Some (now 0)\<rparr>, ev_Type = EventResolved\<rparr>]"
  by (simp add: resolve_incident_locked_def Let_def)

lemma step_lifecycle:
  assumes "manager_ok m"
  shows "lifecycle (gget (mg_active m) k \<noteq> None) (events_of k (step_events ops x m) @ es) \<longleftrightarrow>
         lifecycle (gget (mg_active (mgr_step ops x m)) k \<noteq> None) es"
proof -
  obtain now op where x: "x = (now, op)" by (cases x)
  have act: "active_ok (mg_active m)" using assms by (simp add: manager_ok_def)
  show ?thesis
  proof (cases op)
    case (OpResult r)
    show ?thesis
    proof (cases "gget (mg_active m) (cr_Name r)")
      case None
      with x OpResult show ?thesis
        by (cases "cr_Status r")
          (auto simp: active_process_result [OF assms] process_result_locked_def create_incident_def
            Let_def events_of_def)
    next
      case (Some inc)
      with x OpResult active_okD [OF act Some] show ?thesis
        by (cases "cr_Status r")
          (auto simp: active_process_result [OF assms] process_result_locked_def resolve_events
            Let_def events_of_def)
    qed
  next
    case (OpSetStatus c st)
    show ?thesis
    proof (cases "gget (mg_active m) c")
      case None
      with x OpSetStatus show ?thesis
        by (auto simp: active_set_status [OF assms] set_status_locked_def events_of_def)
    next
      case (Some inc)
      with x OpSetStatus active_okD [OF act Some] show ?thesis
        by (cases st)
          (auto simp: active_set_status [OF assms] set_status_locked_def resolve_events
            Let_def events_of_def)
    qed
  qed
qed

lemma run_lifecycle:
  "manager_ok m \<Longrightarrow>
     lifecycle (gget (mg_active m) k \<noteq> None) (events_of k (run_events ops xs m))"
  by (induction xs arbitrary: m) (simp_all add: step_lifecycle del: not_None_eq)

text \<open>Every opened event of a run carries an ID of its own, above the counter at the start.\<close>

definition opened_ids :: "incident_event list \<Rightarrow> string list" where
  "opened_ids evs = map (\<lambda>e. inc_ID (ev_Incident e)) (filter (\<lambda>e. ev_Type e = EventOpened) evs)"

lemma opened_ids_append [simp]: "opened_ids (a @ b) = opened_ids a @ opened_ids b"
  by (simp add: opened_ids_def)

lemma step_opened_ids:
  assumes "manager_ok m"
  shows "opened_ids (step_events ops x m) =
    (if mg_idCounter (mgr_step ops x m) = mg_idCounter m then []
     else [inc_id_of (mg_idCounter m + 1)])"
    and "mg_idCounter (mgr_step ops x m) = mg_idCounter m
       \<or> mg_idCounter (mgr_step ops x m) = mg_idCounter m + 1"
proof -
  obtain now op where x: "x = (now, op)" by (cases x)
  show "opened_ids (step_events ops x m) =
    (if mg_idCounter (mgr_step ops x m) = mg_idCounter m then []
     else [inc_id_of (mg_idCounter m + 1)])"
  proof (cases op)
    case (OpResult r)
    with x show ?thesis
      by (cases "cr_Status r"; cases "gget (mg_active m) (cr_Name r)")
        (auto simp: counter_process_result [OF assms] process_result_locked_def create_incident_def
          Let_def opened_ids_def inc_id_of_def resolve_events)
  next
    case (OpSetStatus c st)
    with x show ?thesis
      by (cases st; cases "gget (mg_active m) c")
        (auto simp: counter_set_status [OF assms] set_status_locked_def Let_def opened_ids_def resolve_events)
  qed
  show "mg_idCounter (mgr_step ops x m) = mg_idCounter m
       \<or> mg_idCounter (mgr_step ops x m) = mg_idCounter m + 1"
    using x by (cases op) (auto simp: counter_process_result [OF assms] counter_set_status [OF assms])
qed

lemma run_opened_ids:
  assumes "manager_ok m"
  shows "opened_ids (run_events ops xs m) =
     map inc_id_of [mg_idCounter m + 1 .. mg_idCounter (mgr_run ops xs m)]"
  using assms
proof (induction xs arbitrary: m)
  case Nil
  then show ?case by (simp add: opened_ids_def)
next
  case (Cons x xs)
  let ?m = "mgr_step ops x m"
  have le: "mg_idCounter ?m \<le> mg_idCounter (mgr_run ops xs ?m)"
    by (rule counter_run_mono) (simp add: Cons.prems)
  from step_opened_ids(2) [OF Cons.prems, of ops x] show ?case
  proof
    assume "mg_idCounter ?m = mg_idCounter m"
    with Cons show ?thesis by (simp add: step_opened_ids)
  next
    assume "mg_idCounter ?m = mg_idCounter m + 1"
    with Cons le show ?thesis
      by (simp add: step_opened_ids upto_rec1 [of "mg_idCounter m + 1"])
  qed
qed

end
