(* ===== verification/Manager_Persistence.thy ===== *)
theory Manager_Persistence
  imports Manager_Props
begin

text \<open>
  Persistence of the incident manager: as long as no save fails, the store holds the active incidents
  as they are and every other incident as resolved, so a restarted manager that loads it without error
  has the same active incidents. Which saves fail is up to the database: BoltDB refuses blank and
  large keys and large values, and any write may fail, so success is a condition on the run.
\<close>

section \<open>What an operation saves\<close>

text \<open>The incidents an operation hands to \<open>persistIncident\<close>, in order.\<close>

fun saved_by :: "(nat \<Rightarrow> gotime) \<times> 'err mgr_op \<Rightarrow> 'st manager \<Rightarrow> incident list" where
  "saved_by (now, OpResult r) m =
     (case gget (mg_active m) (cr_Name r) of
        None \<Rightarrow> if cr_Status r = CheckHealthy then []
                else [fst (create_incident (shift 1 now) r m)]
      | Some inc \<Rightarrow>
          if cr_Status r = CheckHealthy
          then [inc\<lparr>inc_Status := StatusResolved, inc_UpdatedAt := now 1, inc_ResolvedAt := Some (now 1)\<rparr>]
          else [inc\<lparr>inc_FailureCount := inc_FailureCount inc + 1, inc_UpdatedAt := now 1\<rparr>])"
| "saved_by (now, OpSetStatus c st) m =
     (case gget (mg_active m) c of
        None \<Rightarrow> []
      | Some inc \<Rightarrow>
          inc\<lparr>inc_Status := st, inc_UpdatedAt := now 0\<rparr>
          # (if st = StatusResolved
             then [inc\<lparr>inc_Status := StatusResolved, inc_UpdatedAt := now 1, inc_ResolvedAt := Some (now 1)\<rparr>]
             else []))"

definition save_list :: "'st store_ops \<Rightarrow> incident list \<Rightarrow> 'st \<Rightarrow> 'st" where
  "save_list ops incs s = fold (\<lambda>i s. snd (so_SaveIncident ops (to_storage i) s)) incs s"

lemma save_list_simps [simp]:
  "save_list ops [] s = s"
  "save_list ops (i # is) s = save_list ops is (snd (so_SaveIncident ops (to_storage i) s))"
  by (simp_all add: save_list_def)

lemma persist_store [simp]:
  "mg_store (persist_incident ops inc m) = snd (so_SaveIncident ops (to_storage inc) (mg_store m))"
  by (simp add: persist_incident_def)

lemma resolve_store:
  "mg_store (snd (resolve_incident_locked now ops key inc m)) =
     snd (so_SaveIncident ops
       (to_storage (inc\<lparr>inc_Status := StatusResolved, inc_UpdatedAt := now 0,
                        inc_ResolvedAt := Some (now 0)\<rparr>)) (mg_store m))"
  by (simp add: resolve_incident_locked_def Let_def)

lemma step_store:
  assumes "manager_ok m"
  shows "mg_store (mgr_step ops x m) = save_list ops (saved_by x m) (mg_store m)"
proof -
  obtain now op where x: "x = (now, op)" by (cases x)
  have act: "active_ok (mg_active m)" using assms by (simp add: manager_ok_def)
  show ?thesis
  proof (cases op)
    case (OpResult r)
    show ?thesis
    proof (cases "gget (mg_active m) (cr_Name r)")
      case None
      with x OpResult show ?thesis
        by (cases "cr_Status r")
          (simp_all add: process_result_def process_result_locked_def create_incident_def Let_def)
    next
      case (Some inc)
      with x OpResult active_okD [OF act Some] show ?thesis
        by (cases "cr_Status r")
          (simp_all add: process_result_def process_result_locked_def resolve_store Let_def shift_def)
    qed
  next
    case (OpSetStatus c st)
    show ?thesis
    proof (cases "gget (mg_active m) c")
      case None
      with x OpSetStatus show ?thesis by (simp add: set_status_def set_status_locked_def)
    next
      case (Some inc)
      with x OpSetStatus show ?thesis
        by (cases st) (simp_all add: set_status_def set_status_locked_def resolve_store Let_def shift_def)
    qed
  qed
qed

text \<open>No save of an operation, of a run, reports an error.\<close>

fun saves_succeed :: "'st store_ops \<Rightarrow> incident list \<Rightarrow> 'st \<Rightarrow> bool" where
  "saves_succeed ops [] s \<longleftrightarrow> True"
| "saves_succeed ops (i # is) s \<longleftrightarrow>
     (case so_SaveIncident ops (to_storage i) s of
        (None, s') \<Rightarrow> saves_succeed ops is s' | (Some e, s') \<Rightarrow> False)"

fun run_saves_succeed :: "'st store_ops \<Rightarrow> ((nat \<Rightarrow> gotime) \<times> 'err mgr_op) list \<Rightarrow> 'st manager \<Rightarrow> bool" where
  "run_saves_succeed ops [] m \<longleftrightarrow> True"
| "run_saves_succeed ops (x # xs) m \<longleftrightarrow>
     saves_succeed ops (saved_by x m) (mg_store m) \<and> run_saves_succeed ops xs (mgr_step ops x m)"

section \<open>The store follows the table\<close>

text \<open>
  \<open>A\<close> is the table of active incidents, \<open>ctr\<close> the ID counter, \<open>C\<close> what the store holds.
\<close>

definition in_sync ::
  "(string \<Rightarrow> incident option) \<Rightarrow> int \<Rightarrow> (string \<Rightarrow> storage_incident option) \<Rightarrow> bool" where
  "in_sync A ctr C \<longleftrightarrow>
     (\<forall>k inc. A k = Some inc \<longrightarrow> known_status (inc_Status inc) \<and> C (inc_ID inc) = Some (to_storage inc))
     \<and> (\<forall>n si. C n = Some si \<longrightarrow> si_ID si = n \<and> (\<exists>j \<le> ctr. n = inc_id_of j)
          \<and> (si_Status si \<noteq> ''resolved'' \<longrightarrow> (\<exists>k inc. A k = Some inc \<and> inc_ID inc = n)))"

definition unique_ids :: "(string \<Rightarrow> incident option) \<Rightarrow> bool" where
  "unique_ids A \<longleftrightarrow> (\<forall>k1 k2 i1 i2. A k1 = Some i1 \<longrightarrow> A k2 = Some i2 \<longrightarrow> inc_ID i1 = inc_ID i2 \<longrightarrow> k1 = k2)"

lemma ids_ok_unique: "ids_ok m \<Longrightarrow> unique_ids (gget (mg_active m))"
  unfolding ids_ok_def unique_ids_def by blast

text \<open>The statuses the code names.\<close>

fun op_known :: "(nat \<Rightarrow> gotime) \<times> 'err mgr_op \<Rightarrow> bool" where
  "op_known (now, OpResult r) \<longleftrightarrow> True"
| "op_known (now, OpSetStatus c st) \<longleftrightarrow> known_status st"

lemma to_storage_simps [simp]:
  "si_ID (to_storage inc) = inc_ID inc" "si_Status (to_storage inc) = status_string (inc_Status inc)"
  by (simp_all add: to_storage_def)

lemma status_string_resolved: "known_status st \<Longrightarrow> status_string st = ''resolved'' \<longleftrightarrow> st = StatusResolved"
  by (cases st) (auto simp: known_status_def status_of_string_def)

lemma in_syncI:
  assumes "\<And>k inc. A k = Some inc \<Longrightarrow> known_status (inc_Status inc)"
    and "\<And>k inc. A k = Some inc \<Longrightarrow> C (inc_ID inc) = Some (to_storage inc)"
    and "\<And>n si. C n = Some si \<Longrightarrow> si_ID si = n"
    and "\<And>n si. C n = Some si \<Longrightarrow> \<exists>j \<le> ctr. n = inc_id_of j"
    and "\<And>n si. C n = Some si \<Longrightarrow> si_Status si \<noteq> ''resolved'' \<Longrightarrow> \<exists>k inc. A k = Some inc \<and> inc_ID inc = n"
  shows "in_sync A ctr C"
  using assms unfolding in_sync_def by simp

lemma in_syncD:
  assumes "in_sync A ctr C"
  shows "A k = Some inc \<Longrightarrow> known_status (inc_Status inc)"
    and "A k = Some inc \<Longrightarrow> C (inc_ID inc) = Some (to_storage inc)"
    and "C n = Some si \<Longrightarrow> si_ID si = n"
    and "C n = Some si \<Longrightarrow> \<exists>j \<le> ctr. n = inc_id_of j"
    and "C n = Some si \<Longrightarrow> si_Status si \<noteq> ''resolved'' \<Longrightarrow> \<exists>k inc. A k = Some inc \<and> inc_ID inc = n"
  using assms unfolding in_sync_def by simp_all

text \<open>
  The three ways an operation changes table and store together: an entry replaced under its own ID,
  an entry closed, an entry opened under the next ID.
\<close>

lemma unique_other:
  "unique_ids A \<Longrightarrow> A k = Some old \<Longrightarrow> A j = Some i \<Longrightarrow> j \<noteq> k \<Longrightarrow> inc_ID i \<noteq> inc_ID old"
  unfolding unique_ids_def by blast

lemma sync_change:
  assumes s: "in_sync A ctr C" and u: "unique_ids A" and k: "A k = Some old"
    and i: "inc_ID inc = inc_ID old" and st: "known_status (inc_Status inc)"
  shows "in_sync (A(k \<mapsto> inc)) ctr (C(inc_ID inc \<mapsto> to_storage inc))"
proof (rule in_syncI)
  fix j x assume "(A(k \<mapsto> inc)) j = Some x"
  then show "known_status (inc_Status x)"
    and "(C(inc_ID inc \<mapsto> to_storage inc)) (inc_ID x) = Some (to_storage x)"
    using in_syncD(1,2) [OF s, of j x] st unique_other [OF u k, of j x] i by (auto split: if_splits)
next
  fix n si assume n: "(C(inc_ID inc \<mapsto> to_storage inc)) n = Some si"
  have old: "\<exists>si. C (inc_ID inc) = Some si" using in_syncD(2) [OF s k] i by simp
  show "si_ID si = n" using n in_syncD(3) [OF s, of n si] by (auto split: if_splits)
  show "\<exists>j \<le> ctr. n = inc_id_of j" using n old in_syncD(4) [OF s] by (auto split: if_splits)
  assume "si_Status si \<noteq> ''resolved''"
  then show "\<exists>j x. (A(k \<mapsto> inc)) j = Some x \<and> inc_ID x = n"
  proof (cases "n = inc_ID inc")
    case False
    with n \<open>si_Status si \<noteq> ''resolved''\<close> in_syncD(5) [OF s, of n si]
    obtain j x where "A j = Some x" "inc_ID x = n" by auto
    with False k i show ?thesis by (intro exI [of _ j] exI [of _ x]) auto
  qed auto
qed

lemma sync_resolve:
  assumes s: "in_sync A ctr C" and u: "unique_ids A" and k: "A k = Some old"
    and i: "inc_ID inc = inc_ID old" and st: "inc_Status inc = StatusResolved"
  shows "in_sync (A(k := None)) ctr (C(inc_ID inc \<mapsto> to_storage inc))"
proof (rule in_syncI)
  fix j x assume "(A(k := None)) j = Some x"
  then show "known_status (inc_Status x)"
    and "(C(inc_ID inc \<mapsto> to_storage inc)) (inc_ID x) = Some (to_storage x)"
    using in_syncD(1,2) [OF s, of j x] unique_other [OF u k, of j x] i by (auto split: if_splits)
next
  fix n si assume n: "(C(inc_ID inc \<mapsto> to_storage inc)) n = Some si"
  have old: "\<exists>si. C (inc_ID inc) = Some si" using in_syncD(2) [OF s k] i by simp
  show "si_ID si = n" using n in_syncD(3) [OF s, of n si] by (auto split: if_splits)
  show "\<exists>j \<le> ctr. n = inc_id_of j" using n old in_syncD(4) [OF s] by (auto split: if_splits)
  assume r: "si_Status si \<noteq> ''resolved''"
  with n st have "n \<noteq> inc_ID inc" by auto
  with n r in_syncD(5) [OF s, of n si] obtain j x where "A j = Some x" "inc_ID x = n" by auto
  with \<open>n \<noteq> inc_ID inc\<close> k i show "\<exists>j x. (A(k := None)) j = Some x \<and> inc_ID x = n"
    by (intro exI [of _ j] exI [of _ x]) auto
qed

lemma sync_open:
  assumes s: "in_sync A ctr C" and k: "A k = None" and i: "inc_ID inc = inc_id_of (ctr + 1)"
    and st: "known_status (inc_Status inc)"
  shows "in_sync (A(k \<mapsto> inc)) (ctr + 1) (C(inc_ID inc \<mapsto> to_storage inc))"
proof (rule in_syncI)
  have fresh: "C (inc_id_of (ctr + 1)) = None"
    using in_syncD(4) [OF s, of "inc_id_of (ctr + 1)"] by fastforce
  fix j x assume "(A(k \<mapsto> inc)) j = Some x"
  then show "known_status (inc_Status x)"
    and "(C(inc_ID inc \<mapsto> to_storage inc)) (inc_ID x) = Some (to_storage x)"
    using in_syncD(1,2) [OF s, of j x] st i fresh by (auto split: if_splits)
next
  fix n si assume n: "(C(inc_ID inc \<mapsto> to_storage inc)) n = Some si"
  show "si_ID si = n" using n in_syncD(3) [OF s, of n si] by (auto split: if_splits)
  show "\<exists>j \<le> ctr + 1. n = inc_id_of j"
  proof (cases "n = inc_ID inc")
    case True
    with i show ?thesis by (intro exI [of _ "ctr + 1"]) simp
  next
    case False
    with n in_syncD(4) [OF s, of n si] obtain j where "j \<le> ctr" "n = inc_id_of j" by auto
    then show ?thesis by (intro exI [of _ j]) simp
  qed
  assume r: "si_Status si \<noteq> ''resolved''"
  show "\<exists>j x. (A(k \<mapsto> inc)) j = Some x \<and> inc_ID x = n"
  proof (cases "n = inc_ID inc")
    case False
    with n r in_syncD(5) [OF s, of n si] obtain j x where "A j = Some x" "inc_ID x = n" by auto
    with k show ?thesis by (intro exI [of _ j] exI [of _ x]) auto
  qed auto
qed

definition synced ::
  "('st \<Rightarrow> string \<Rightarrow> storage_incident option) \<Rightarrow> ('st \<Rightarrow> bool) \<Rightarrow> 'st manager \<Rightarrow> bool" where
  "synced content sinv m \<longleftrightarrow> manager_ok m \<and> ids_ok m \<and> sinv (mg_store m)
     \<and> in_sync (gget (mg_active m)) (mg_idCounter m) (content (mg_store m))"

text \<open>The table after a step, as an update of the table before it.\<close>

lemma active_result_table:
  assumes "manager_ok m"
  shows "gget (mg_active (process_result now ops r m)) =
    (if cr_Status r = CheckHealthy then (gget (mg_active m))(cr_Name r := None)
     else (gget (mg_active m))(cr_Name r \<mapsto>
       (case gget (mg_active m) (cr_Name r) of
          None \<Rightarrow> fst (create_incident (shift 1 now) r m)
        | Some inc \<Rightarrow> inc\<lparr>inc_FailureCount := inc_FailureCount inc + 1, inc_UpdatedAt := now 1\<rparr>)))"
  by (rule ext, cases "cr_Status r") (auto simp: active_process_result [OF assms] split: option.splits)

lemma active_status_table:
  assumes "manager_ok m" and "gget (mg_active m) c = Some inc"
  shows "gget (mg_active (set_status now ops c st m)) =
    (if st = StatusResolved then (gget (mg_active m))(c := None)
     else (gget (mg_active m))(c \<mapsto> inc\<lparr>inc_Status := st, inc_UpdatedAt := now 0\<rparr>))"
  by (rule ext) (auto simp: active_set_status [OF assms(1)] assms(2))

locale persisted_incidents =
  incident_store "so_SaveIncident ops" "so_GetIncident ops" "so_ListIncidents ops"
    "so_DeleteIncident ops" content sinv
  for ops :: "'s store_ops" and content :: "'s \<Rightarrow> string \<Rightarrow> storage_incident option"
    and sinv :: "'s \<Rightarrow> bool"
begin

text \<open>A save that succeeds, given the saves that follow it in the operation.\<close>

lemma saved:
  assumes "sinv s" and "saves_succeed ops (i # is) s"
  shows "sinv (snd (so_SaveIncident ops (to_storage i) s))"
    and "content (snd (so_SaveIncident ops (to_storage i) s)) = (content s)(inc_ID i \<mapsto> to_storage i)"
    and "saves_succeed ops is (snd (so_SaveIncident ops (to_storage i) s))"
proof -
  obtain s' where s': "so_SaveIncident ops (to_storage i) s = (None, s')" "saves_succeed ops is s'"
    using assms(2) by (auto split: prod.splits option.splits)
  with save_ok [OF assms(1) s'(1)] show "sinv (snd (so_SaveIncident ops (to_storage i) s))"
    "content (snd (so_SaveIncident ops (to_storage i) s)) = (content s)(inc_ID i \<mapsto> to_storage i)"
    "saves_succeed ops is (snd (so_SaveIncident ops (to_storage i) s))" by simp_all
qed

lemma synced_parts:
  assumes "manager_ok m" and "ids_ok m" and "sinv (save_list ops (saved_by x m) (mg_store m))"
    and "in_sync (gget (mg_active (mgr_step ops x m))) (mg_idCounter (mgr_step ops x m))
           (content (save_list ops (saved_by x m) (mg_store m)))"
  shows "synced content sinv (mgr_step ops x m)"
  using assms by (simp add: synced_def step_store ids_ok_step)

lemma synced_result:
  assumes sy: "synced content sinv m" and ok_saves: "saves_succeed ops (saved_by (now, OpResult r) m) (mg_store m)"
  shows "synced content sinv (mgr_step ops (now, OpResult r) m)"
proof -
  let ?A = "gget (mg_active m)" and ?k = "cr_Name r"
  from sy have ok: "manager_ok m" and ids: "ids_ok m" and inv: "sinv (mg_store m)"
    and isy: "in_sync ?A (mg_idCounter m) (content (mg_store m))"
    by (simp_all add: synced_def)
  note u = ids_ok_unique [OF ids] and sv = saved [OF inv]
  have ctr: "mg_idCounter (mgr_step ops (now, OpResult r) m) =
      (if cr_Status r \<noteq> CheckHealthy \<and> ?A ?k = None then mg_idCounter m + 1 else mg_idCounter m)"
    by (simp add: counter_process_result [OF ok])
  show ?thesis
  proof (cases "?A ?k")
    case None
    let ?new = "fst (create_incident (shift 1 now) r m)"
    have new: "known_status (inc_Status ?new)" by (simp add: create_incident_def Let_def)
    have A: "?A(?k := None) = ?A" using None by (simp add: fun_upd_idem)
    show ?thesis
    proof (cases "cr_Status r = CheckHealthy")
      case True
      then show ?thesis
        by (intro synced_parts ok ids) (use None inv isy A ctr in \<open>simp_all add: active_result_table [OF ok]\<close>)
    next
      case False
      then have "saves_succeed ops [?new] (mg_store m)" using ok_saves None by (simp del: saves_succeed.simps)
      note s = sv [OF this]
      from False show ?thesis
        by (intro synced_parts ok ids)
          (use None new ctr s(1,2) sync_open [OF isy None create_incident_id new] in
            \<open>simp_all add: active_result_table [OF ok]\<close>)
    qed
  next
    case (Some inc)
    have kn: "known_status (inc_Status inc)" using in_syncD(1) [OF isy Some] .
    let ?up = "inc\<lparr>inc_FailureCount := inc_FailureCount inc + 1, inc_UpdatedAt := now 1\<rparr>"
    let ?res = "inc\<lparr>inc_Status := StatusResolved, inc_UpdatedAt := now 1, inc_ResolvedAt := Some (now 1)\<rparr>"
    show ?thesis
    proof (cases "cr_Status r = CheckHealthy")
      case True
      then have "saves_succeed ops [?res] (mg_store m)" using ok_saves Some by (simp del: saves_succeed.simps)
      note s = sv [OF this]
      from True show ?thesis
        by (intro synced_parts ok ids)
          (use Some ctr s(1,2) sync_resolve [OF isy u Some, of ?res] in
            \<open>simp_all add: active_result_table [OF ok]\<close>)
    next
      case False
      then have "saves_succeed ops [?up] (mg_store m)" using ok_saves Some by (simp del: saves_succeed.simps)
      note s = sv [OF this]
      from False show ?thesis
        by (intro synced_parts ok ids)
          (use Some kn ctr s(1,2) sync_change [OF isy u Some, of ?up] in
            \<open>simp_all add: active_result_table [OF ok]\<close>)
    qed
  qed
qed

lemma synced_status:
  assumes sy: "synced content sinv m" and st: "known_status st"
    and ok_saves: "saves_succeed ops (saved_by (now, OpSetStatus c st) m) (mg_store m)"
  shows "synced content sinv (mgr_step ops (now, OpSetStatus c st) m)"
proof -
  let ?A = "gget (mg_active m)"
  from sy have ok: "manager_ok m" and ids: "ids_ok m" and inv: "sinv (mg_store m)"
    and isy: "in_sync ?A (mg_idCounter m) (content (mg_store m))"
    by (simp_all add: synced_def)
  note u = ids_ok_unique [OF ids] and sv = saved [OF inv]
  show ?thesis
  proof (cases "?A c")
    case None
    then have "set_status now ops c st m = emit_all ([], m)"
      by (simp add: set_status_def set_status_locked_def)
    with sy show ?thesis by (simp add: emit_all_def)
  next
    case (Some inc)
    let ?up = "inc\<lparr>inc_Status := st, inc_UpdatedAt := now 0\<rparr>"
    let ?res = "inc\<lparr>inc_Status := StatusResolved, inc_UpdatedAt := now 1, inc_ResolvedAt := Some (now 1)\<rparr>"
    show ?thesis
    proof (cases "st = StatusResolved")
      case True
      then have "saves_succeed ops [?up, ?res] (mg_store m)" using ok_saves Some by (simp del: saves_succeed.simps)
      note s = sv [OF this]
      note s2 = saved [OF s(1) s(3)]
      from True show ?thesis
        by (intro synced_parts ok ids)
          (use Some s(2) s2(1,2) sync_resolve [OF isy u Some, of ?res] in
            \<open>simp_all add: active_status_table [OF ok Some] counter_set_status [OF ok]\<close>)
    next
      case False
      then have "saves_succeed ops [?up] (mg_store m)" using ok_saves Some by (simp del: saves_succeed.simps)
      note s = sv [OF this]
      from False show ?thesis
        by (intro synced_parts ok ids)
          (use Some st s(1,2) sync_change [OF isy u Some, of ?up] in
            \<open>simp_all add: active_status_table [OF ok Some] counter_set_status [OF ok]\<close>)
    qed
  qed
qed

lemma synced_run:
  fixes xs :: "((nat \<Rightarrow> gotime) \<times> 'err mgr_op) list"
  assumes "synced content sinv m" and "\<forall>x \<in> set xs. op_known x" and "run_saves_succeed ops xs m"
  shows "synced content sinv (mgr_run ops xs m)"
  using assms
proof (induction xs arbitrary: m)
  case Nil
  then show ?case by simp
next
  case (Cons x xs)
  obtain now op where x: "x = (now, op)" by (cases x)
  have "synced content sinv (mgr_step ops x m)"
  proof (cases op)
    case (OpResult r)
    with Cons.prems x show ?thesis using synced_result [of m now r] by (auto simp del: saved_by.simps)
  next
    case (OpSetStatus c st)
    with Cons.prems x show ?thesis using synced_status [of m st now c] by (auto simp del: saved_by.simps)
  qed
  with Cons show ?case by simp
qed

lemma synced_new:
  assumes "sinv s" and "content s = Map.empty" and "chan_ok ch" and "recorder_ok rec"
  shows "synced content sinv (new_manager now s ch rec)"
proof -
  have "mg_active (new_manager now s ch rec) = []" "mg_store (new_manager now s ch rec) = s"
    by (simp_all add: new_manager_def)
  with assms show ?thesis
    by (simp add: synced_def manager_ok_new ids_ok_new in_sync_def)
qed

end

section \<open>Restart\<close>

lemma rehydrate_incidents_get:
  assumes "distinct (map si_CheckName (filter (\<lambda>si. si_Status si \<noteq> ''resolved'') sis))"
  shows "gget (rehydrate_incidents sis act) k =
    (case find (\<lambda>si. si_Status si \<noteq> ''resolved'' \<and> si_CheckName si = k) sis of
       None \<Rightarrow> gget act k | Some si \<Rightarrow> Some (of_storage si))"
  using assms
proof (induction sis arbitrary: act)
  case Nil
  then show ?case by simp
next
  case (Cons si sis)
  have none: "find (\<lambda>s. si_Status s \<noteq> ''resolved'' \<and> si_CheckName s = si_CheckName si) sis = None"
    if "si_Status si \<noteq> ''resolved''"
    using Cons.prems that by (auto simp: find_None_iff intro: rev_image_eqI)
  with Cons show ?case
    by (auto simp: of_storage_def split: option.splits if_splits)
qed

context persisted_incidents
begin

lemma unresolved_listed:
  assumes sy: "synced content sinv m" and l: "so_ListIncidents ops (mg_store m) = (xs, None)"
  shows "si \<in> set xs \<and> si_Status si \<noteq> ''resolved'' \<longleftrightarrow>
     (\<exists>inc. gget (mg_active m) (si_CheckName si) = Some inc \<and> si = to_storage inc)"
proof -
  from sy have ok: "active_ok (mg_active m)" and inv: "sinv (mg_store m)"
    and isy: "in_sync (gget (mg_active m)) (mg_idCounter m) (content (mg_store m))"
    by (simp_all add: synced_def manager_ok_def)
  note mem = list_members [OF inv l]
  show ?thesis
  proof
    assume a: "si \<in> set xs \<and> si_Status si \<noteq> ''resolved''"
    then have c: "content (mg_store m) (si_ID si) = Some si" by (simp add: mem)
    from in_syncD(5) [OF isy c] a obtain k inc where k: "gget (mg_active m) k = Some inc" "inc_ID inc = si_ID si"
      by blast
    have eq: "si = to_storage inc"
      using in_syncD(2) [OF isy k(1)] c k(2) by (metis option.inject)
    have "si_CheckName (to_storage inc) = k"
      using active_okD(1) [OF ok k(1)] by (simp add: to_storage_def)
    with k(1) show "\<exists>inc. gget (mg_active m) (si_CheckName si) = Some inc \<and> si = to_storage inc"
      unfolding eq by (intro exI [of _ inc]) simp
  next
    assume "\<exists>inc. gget (mg_active m) (si_CheckName si) = Some inc \<and> si = to_storage inc"
    then obtain inc where k: "gget (mg_active m) (si_CheckName si) = Some inc" "si = to_storage inc" by blast
    from in_syncD(2) [OF isy k(1)] k(2) have "content (mg_store m) (si_ID si) = Some si" by simp
    moreover have "si_Status si \<noteq> ''resolved''"
      using active_okD(2) [OF ok k(1)] in_syncD(1) [OF isy k(1)] k(2) status_string_resolved by simp
    ultimately show "si \<in> set xs \<and> si_Status si \<noteq> ''resolved''" by (simp add: mem)
  qed
qed

lemma restart_active:
  fixes now :: "nat \<Rightarrow> gotime" and ch and rec
  assumes sy: "synced content sinv m" and l: "so_ListIncidents ops (mg_store m) = (xs, None)"
  defines "m' \<equiv> rehydrate ops (new_manager now (mg_store m) ch rec)"
  shows "fst m' = None" and "gget (mg_active (snd m')) = gget (mg_active m)"
    and "mg_store (snd m') = mg_store m" and "mg_idCounter (snd m') = unix_milli (now 0)"
proof -
  from sy have ok: "active_ok (mg_active m)" and inv: "sinv (mg_store m)" and ids: "ids_ok m"
    and isy: "in_sync (gget (mg_active m)) (mg_idCounter m) (content (mg_store m))"
    by (simp_all add: synced_def manager_ok_def)
  have d: "distinct (map si_ID xs)" using list_found [OF inv l] ..
  note un = unresolved_listed [OF sy l]
  let ?P = "\<lambda>si. si_Status si \<noteq> ''resolved''"
  have "inj_on si_CheckName (set (filter ?P xs))"
  proof (rule inj_onI)
    fix a b
    assume "a \<in> set (filter ?P xs)" "b \<in> set (filter ?P xs)" "si_CheckName a = si_CheckName b"
    moreover from this un obtain i j where "gget (mg_active m) (si_CheckName a) = Some i"
      "a = to_storage i" "gget (mg_active m) (si_CheckName b) = Some j" "b = to_storage j"
      unfolding set_filter mem_Collect_eq by meson
    ultimately show "a = b" by (metis option.inject)
  qed
  moreover have "distinct (filter ?P xs)" using d by (simp add: distinct_map)
  ultimately have dn: "distinct (map si_CheckName (filter ?P xs))" by (simp add: distinct_map)
  have get: "gget (rehydrate_incidents xs []) k = gget (mg_active m) k" for k
  proof (cases "gget (mg_active m) k")
    case None
    then have "find (\<lambda>si. ?P si \<and> si_CheckName si = k) xs = None"
      using un unfolding find_None_iff by (metis option.distinct(1))
    with None show ?thesis by (simp add: rehydrate_incidents_get [OF dn])
  next
    case (Some inc)
    with active_okD(1) [OF ok Some] un [of "to_storage inc"]
    have "to_storage inc \<in> set xs \<and> ?P (to_storage inc) \<and> si_CheckName (to_storage inc) = k"
      by (auto simp: to_storage_def)
    then obtain si where si: "find (\<lambda>si. ?P si \<and> si_CheckName si = k) xs = Some si"
      by (cases "find (\<lambda>si. ?P si \<and> si_CheckName si = k) xs") (auto simp: find_None_iff)
    then have "si \<in> set xs \<and> ?P si \<and> si_CheckName si = k" by (auto simp: find_Some_iff)
    with un [of si] Some have "si = to_storage inc" by auto
    with si Some in_syncD(1) [OF isy Some] show ?thesis
      by (simp add: rehydrate_incidents_get [OF dn] status_storage_roundtrip)
  qed
  have eq: "m' = (None, (new_manager now (mg_store m) ch rec)\<lparr>mg_active := rehydrate_incidents xs []\<rparr>)"
    by (simp add: m'_def rehydrate_def new_manager_def l)
  show "fst m' = None" "gget (mg_active (snd m')) = gget (mg_active m)"
    "mg_store (snd m') = mg_store m" "mg_idCounter (snd m') = unix_milli (now 0)"
    by (simp_all add: eq new_manager_def get fun_eq_iff)
qed

lemma restart_synced:
  fixes now :: "nat \<Rightarrow> gotime"
  assumes sy: "synced content sinv m" and l: "so_ListIncidents ops (mg_store m) = (xs, None)"
    and "chan_ok ch" and "recorder_ok rec" and "mg_idCounter m \<le> unix_milli (now 0)"
  shows "synced content sinv (snd (rehydrate ops (new_manager now (mg_store m) ch rec)))"
proof -
  let ?m = "snd (rehydrate ops (new_manager now (mg_store m) ch rec))"
  note r = restart_active [OF sy l, of now ch rec]
  have "manager_ok ?m" using assms(3,4) by (intro manager_ok_rehydrate manager_ok_new)
  moreover have "in_sync (gget (mg_active m)) (unix_milli (now 0)) (content (mg_store m))"
    using sy assms(5) unfolding synced_def in_sync_def by (meson order_trans)
  moreover have "ids_ok ?m"
    using sy assms(5) unfolding synced_def ids_ok_def r by (meson order_trans)
  ultimately show ?thesis using sy by (simp add: synced_def r)
qed

end

section \<open>BoltStore\<close>

text \<open>Loading fails only when reading the database does.\<close>

lemma bolt_list_no_error:
  assumes inv: "bolt_inv api b s" and l: "ba_list api bucket_incidents (bs_db s) = Inr kds"
  shows "snd (bolt_list_incidents api s) = None"
proof -
  have "\<exists>i. unmarshal_incident d = Inr i" if "(k, d) \<in> set kds" for k d
    using that bolt_list_law [OF bolt_inv_laws [OF inv] l] inv
    unfolding bolt_inv_def by (metis map_of_is_SomeI)
  then have "snd (decode_all unmarshal_incident kds) = None"
    by (induction kds) (fastforce split: sum.splits prod.splits)+
  with l show ?thesis by (simp add: bolt_list_incidents_def)
qed

interpretation bolt_per: persisted_incidents "bolt_store_ops api" "bolt_content b" "bolt_inv api b"
  for api :: "'db bolt_api" and b :: "'db \<Rightarrow> string \<Rightarrow> string \<Rightarrow> stored option"
  by unfold_locales (auto simp: bolt_store_ops_def dest: bolt_inc.save_ok bolt_inc.save_err bolt_inc.remove_ok
    bolt_inc.remove_err bolt_inc.get_found bolt_inc.get_missing bolt_inc.list_found)

end
