(* ===== verification/Actions.thy ===== *)
theory Actions
  imports Registry_Interface
begin

text \<open>
  The action interface and its registry (\<open>internal/repair/action.go\<close>). An action is its name and
  its \<open>Execute\<close> method: the step's timeout when it has one, the parameters (the nil map is
  \<open>None\<close>) and the world, whose environment holds everything else the action reads or changes,
  the cancellation of the run's context included.
\<close>

record 'e action =
  a_Name :: string
  a_Execute :: "duration option \<Rightarrow> string gmap option \<Rightarrow> 'e world \<Rightarrow> goerror option \<times> 'e world"

type_synonym 'e action_registry = "'e action gmap"

definition new_action_registry :: "'e action_registry" where
  "new_action_registry = []"

definition action_register :: "'e action \<Rightarrow> 'e action_registry \<Rightarrow> registry_error + 'e action_registry" where
  "action_register a r =
     (case gget r (a_Name a) of
        Some _ \<Rightarrow> Inl (AlreadyRegistered (a_Name a))
      | None \<Rightarrow> Inr (gset (a_Name a) a r))"

definition action_get :: "'e action_registry \<Rightarrow> string \<Rightarrow> 'e action option" where
  "action_get r n = gget r n"

definition action_names :: "'e action_registry \<Rightarrow> string list" where
  "action_names r = gkeys r"

definition action_registry_ok :: "'e action_registry \<Rightarrow> bool" where
  "action_registry_ok r \<longleftrightarrow> gwf r \<and> (\<forall>n a. gget r n = Some a \<longrightarrow> a_Name a = n)"

interpretation action_reg: named_registry a_Name new_action_registry action_register action_get
  action_names action_registry_ok
proof
  fix r :: "'e action_registry" and a :: "'e action"
  assume "action_registry_ok r" and "action_get r (a_Name a) = None"
  then show "\<exists>r'. action_register a r = Inr r' \<and> action_registry_ok r' \<and>
               action_get r' = (action_get r)(a_Name a \<mapsto> a)"
    by (auto simp: action_register_def action_get_def action_registry_ok_def)
next
  fix r :: "'e action_registry"
  assume "action_registry_ok r"
  then show "set (action_names r) = dom (action_get r)"
    by (simp add: action_names_def action_get_def gkeys_dom dom_def)
qed (auto simp: new_action_registry_def action_register_def action_get_def action_names_def
      action_registry_ok_def gkeys_def gwf_def)

text \<open>
  An action keeps the clock: it may take readings but cannot turn the clock back or replace it.
  Every modelled action does; the engine's timing properties rest on it.
\<close>

definition keeps_clock :: "'e world \<Rightarrow> 'e world \<Rightarrow> bool" where
  "keeps_clock w w' \<longleftrightarrow> w_clock w' = w_clock w \<and> w_reads w \<le> w_reads w'"

lemma keeps_clock_refl [simp, inv_intros]: "keeps_clock w w"
  by (simp add: keeps_clock_def)

lemma keeps_clock_trans [trans]: "keeps_clock a b \<Longrightarrow> keeps_clock b c \<Longrightarrow> keeps_clock a c"
  by (simp add: keeps_clock_def)

lemma keeps_clock_time_now [simp, inv_intros]: "keeps_clock w (snd (time_now w))"
  by (simp add: keeps_clock_def)

definition clocked_action :: "'e action \<Rightarrow> bool" where
  "clocked_action a \<longleftrightarrow> (\<forall>t p w. keeps_clock w (snd (a_Execute a t p w)))"

end
