(* ===== verification/Check_Interface.thy ===== *)
theory Check_Interface
  imports Manager_Props Actions
begin

text \<open>
  The contract every built-in checker keeps (\<open>Check\<close> in \<open>internal/checks/check.go\<close> and what the
  incident manager expects of its results): a result carries the name and the service of the check,
  it has an error exactly when it is not healthy, and a run keeps the clock. The client of the
  contract is the incident manager: the error of a result decides whether an incident of that check
  is open.
\<close>

locale checker =
  fixes run :: "'e world \<Rightarrow> 'err check_result \<times> 'e world"
    and name :: string
    and service :: string
  assumes run_name: "cr_Name (fst (run w)) = name"
    and run_service: "cr_Service (fst (run w)) = service"
    and run_error: "cr_Error (fst (run w)) = None \<longleftrightarrow> cr_Status (fst (run w)) = CheckHealthy"
    and run_clock: "keeps_clock w (snd (run w))"
begin

lemma run_unhealthy: "cr_Status (fst (run w)) \<noteq> CheckHealthy \<Longrightarrow> \<exists>e. cr_Error (fst (run w)) = Some e"
  using run_error [of w] by auto

lemma run_opens:
  assumes "manager_ok m"
  shows "get_active (process_result now ops (fst (run w)) m) name \<noteq> None \<longleftrightarrow>
     cr_Error (fst (run w)) \<noteq> None"
  using run_name [of w] run_error [of w]
  by (cases "cr_Status (fst (run w))")
    (auto simp: get_active_def active_process_result [OF assms] split: option.splits)

lemma run_other_checks:
  assumes "manager_ok m" and "k \<noteq> name"
  shows "get_active (process_result now ops (fst (run w)) m) k = get_active m k"
  using run_name [of w] assms(2) by (simp add: get_active_def active_process_result [OF assms(1)])

end

end
