(* ===== verification/Go_Strings.thy ===== *)
theory Go_Strings
  imports Prelude "HOL-Library.Sublist"
begin

text \<open>
  The functions of Go's \<open>strings\<close> and \<open>os\<close> packages the agent calls, over byte strings.
  Case conversion and trimming treat the ASCII bytes; the agent applies them to names, sizes and
  command output.
\<close>

definition has_prefix :: "string \<Rightarrow> string \<Rightarrow> bool" where
  "has_prefix s p \<longleftrightarrow> prefix p s"

definition has_suffix :: "string \<Rightarrow> string \<Rightarrow> bool" where
  "has_suffix s p \<longleftrightarrow> suffix p s"

definition trim_suffix :: "string \<Rightarrow> string \<Rightarrow> string" where
  "trim_suffix s p = (if has_suffix s p then take (length s - length p) s else s)"

fun contains :: "string \<Rightarrow> string \<Rightarrow> bool" where
  "contains [] p \<longleftrightarrow> p = []"
| "contains (c # cs) p \<longleftrightarrow> prefix p (c # cs) \<or> contains cs p"

lemma contains_sublist: "contains s p \<longleftrightarrow> sublist p s"
  by (induction s) (auto simp: sublist_Cons_right)

definition is_space :: "char \<Rightarrow> bool" where
  "is_space c \<longleftrightarrow> c = CHR '' '' \<or> (9 \<le> (of_char c :: nat) \<and> (of_char c :: nat) \<le> 13)"

definition trim_space :: "string \<Rightarrow> string" where
  "trim_space s = rev (dropWhile is_space (rev (dropWhile is_space s)))"

definition ascii_upper :: "char \<Rightarrow> char" where
  "ascii_upper c = (let n = of_char c :: nat in if 97 \<le> n \<and> n \<le> 122 then char_of (n - 32) else c)"

definition ascii_lower :: "char \<Rightarrow> char" where
  "ascii_lower c = (let n = of_char c :: nat in if 65 \<le> n \<and> n \<le> 90 then char_of (n + 32) else c)"

definition to_upper :: "string \<Rightarrow> string" where
  "to_upper s = map ascii_upper s"

definition to_lower :: "string \<Rightarrow> string" where
  "to_lower s = map ascii_lower s"

section \<open>Environment variables in the configuration text\<close>

text \<open>
  \<open>os.Expand\<close> and its helper \<open>getShellName\<close>: after a dollar sign, the name of the variable
  and how many bytes it takes. An empty name with a width is bad syntax, whose bytes are eaten; an
  empty name without one leaves the dollar sign.
\<close>

definition is_shell_special :: "char \<Rightarrow> bool" where
  "is_shell_special c \<longleftrightarrow> c \<in> set ''*#$@!?-'' \<or> is_digit c"

definition is_alpha_num :: "char \<Rightarrow> bool" where
  "is_alpha_num c \<longleftrightarrow> c = CHR ''_'' \<or> is_digit c
     \<or> (let n = of_char c :: nat in (97 \<le> n \<and> n \<le> 122) \<or> (65 \<le> n \<and> n \<le> 90))"

definition shell_name :: "string \<Rightarrow> string \<times> nat" where
  "shell_name s =
     (case s of
        [] \<Rightarrow> ([], 0)
      | c # cs \<Rightarrow>
          if c = CHR ''{'' then
            (if 2 < length s \<and> is_shell_special (s ! 1) \<and> s ! 2 = CHR ''}'' then ([s ! 1], 3)
             else (let name = takeWhile (\<lambda>x. x \<noteq> CHR ''}'') cs
                   in if length name = length cs then ([], 1)
                      else if name = [] then ([], 2)
                      else (name, length name + 2)))
          else if is_shell_special c then ([c], 1)
          else (let name = takeWhile is_alpha_num s in (name, length name)))"

function expand :: "(string \<Rightarrow> string) \<Rightarrow> string \<Rightarrow> string" where
  "expand env s =
     (case s of
        [] \<Rightarrow> []
      | c # cs \<Rightarrow>
          if c = CHR ''$'' \<and> cs \<noteq> [] then
            (let (name, w) = shell_name cs;
                 out = (if name = [] \<and> 0 < w then [] else if name = [] then [c] else env name)
             in out @ expand env (drop w cs))
          else c # expand env cs)"
  by pat_completeness auto
termination
  by (relation "measure (\<lambda>(env, s). length s)") auto

declare expand.simps [simp del]

lemma expand_Nil [simp]: "expand env [] = []"
  by (simp add: expand.simps)

lemma expand_no_dollar: "CHR ''$'' \<notin> set s \<Longrightarrow> expand env s = s"
proof (induction s)
  case Nil
  then show ?case by simp
next
  case (Cons c cs)
  then have "c \<noteq> CHR ''$''" "expand env cs = cs" by auto
  then show ?case by (simp add: expand.simps [of env "c # cs"])
qed

lemma expand_prefix_no_dollar:
  "CHR ''$'' \<notin> set s \<Longrightarrow> expand env (s @ t) = s @ expand env t"
proof (induction s)
  case Nil
  then show ?case by simp
next
  case (Cons c cs)
  then have "c \<noteq> CHR ''$''" "expand env (cs @ t) = cs @ expand env t" by auto
  then show ?case by (simp add: expand.simps [of env "c # cs @ t"])
qed

text \<open>A braced variable is replaced by its value and the text after it is expanded in turn.\<close>

lemma expand_braced:
  assumes "name \<noteq> []" and "CHR ''}'' \<notin> set name"
  shows "expand env (''${'' @ name @ ''}'' @ t) = env name @ expand env t"
proof -
  let ?s = "CHR ''{'' # name @ CHR ''}'' # t"
  have tw: "takeWhile (\<lambda>x. x \<noteq> CHR ''}'') (name @ CHR ''}'' # t) = name"
    using assms(2) by (induction name) auto
  have "shell_name ?s = (name, length name + 2)"
  proof (cases "2 < length ?s \<and> is_shell_special (?s ! 1) \<and> ?s ! 2 = CHR ''}''")
    case True
    from assms(1) obtain n ns where ns: "name = n # ns" by (cases name) auto
    with True assms(2) have "ns = []" by (cases ns) auto
    with ns True show ?thesis by (simp add: shell_name_def)
  next
    case False
    with assms(1) tw show ?thesis by (auto simp: shell_name_def Let_def)
  qed
  then show ?thesis
    using assms(1) by (simp add: expand.simps [of env "CHR ''$'' # ?s"])
qed

section \<open>Quoting\<close>

text \<open>
  \<open>%q\<close>: the text in double quotes, with Go's escapes for the quote, the backslash and the
  control characters. Bytes above 127 are kept, as \<open>strconv.Quote\<close> does for printable UTF-8.
\<close>

definition hex_digit :: "nat \<Rightarrow> char" where
  "hex_digit d = ''0123456789abcdef'' ! d"

definition quote_char :: "char \<Rightarrow> string" where
  "quote_char c =
     (let n = of_char c :: nat
      in if c = CHR 0x22 \<or> c = CHR 0x5C then [CHR 0x5C, c]
         else if 7 \<le> n \<and> n \<le> 13 then [CHR 0x5C, ''abtnvfr'' ! (n - 7)]
         else if n < 32 \<or> n = 127
         then [CHR 0x5C, CHR ''x'', hex_digit (n div 16), hex_digit (n mod 16)]
         else [c])"

text \<open>\<open>%q\<close> of a rune puts it in single quotes, with the single quote escaped instead.\<close>

definition quote_rune :: "char \<Rightarrow> string" where
  "quote_rune c =
     (let q = CHR 0x27
      in if c = q then [q, CHR 0x5C, q, q]
         else if c = CHR 0x22 then [q, c, q]
         else q # quote_char c @ [q])"

definition go_quote :: "string \<Rightarrow> string" where
  "go_quote s = CHR 0x22 # concat (map quote_char s) @ [CHR 0x22]"

end
