(* ===== verification/Config.thy ===== *)
theory Config
  imports Complex_Main Go_Strings
begin

text \<open>
  The configuration (\<open>internal/config/config.go\<close> and \<open>defaults.go\<close>): its types field by
  field, the defaults, \<open>Validate\<close> in its order of checks, and loading. Reading the file and YAML
  decoding are parameters of \<open>load_from_file\<close>; \<open>yaml text cfg\<close> is \<open>yaml.Unmarshal\<close>
  into \<open>cfg\<close>. A \<open>float64\<close> is a rational or one of IEEE's special values, since the only
  operations on one are comparisons and printing.
\<close>

section \<open>Types\<close>

datatype gofloat = Fin rat | PInf | NInf | NaN

fun float_gt :: "gofloat \<Rightarrow> gofloat \<Rightarrow> bool" where
  "float_gt NaN _ \<longleftrightarrow> False"
| "float_gt _ NaN \<longleftrightarrow> False"
| "float_gt PInf y \<longleftrightarrow> y \<noteq> PInf"
| "float_gt NInf _ \<longleftrightarrow> False"
| "float_gt (Fin _) PInf \<longleftrightarrow> False"
| "float_gt (Fin _) NInf \<longleftrightarrow> True"
| "float_gt (Fin x) (Fin y) \<longleftrightarrow> y < x"

fun float_le :: "gofloat \<Rightarrow> gofloat \<Rightarrow> bool" where
  "float_le NaN _ \<longleftrightarrow> False"
| "float_le _ NaN \<longleftrightarrow> False"
| "float_le NInf _ \<longleftrightarrow> True"
| "float_le PInf y \<longleftrightarrow> y = PInf"
| "float_le (Fin _) PInf \<longleftrightarrow> True"
| "float_le (Fin _) NInf \<longleftrightarrow> False"
| "float_le (Fin x) (Fin y) \<longleftrightarrow> x \<le> y"

record agent_config =
  ac_Name :: string
  ac_WorkerPoolSize :: int

record check_config =
  cc_Name :: string
  cc_Type :: string
  cc_Service :: string
  cc_URL :: string
  cc_Method :: string
  cc_ExpectedStatus :: int
  cc_Address :: string
  cc_Headers :: "string gmap"
  cc_Interval :: duration
  cc_Timeout :: duration
  cc_Threshold :: gofloat
  cc_Path :: string
  cc_ProcessName :: string
  cc_ServiceName :: string
  cc_CertURL :: string
  cc_CertPath :: string
  cc_DaysBeforeExpiry :: int
  cc_ContainerName :: string

record repair_rule_config =
  rr_Rule :: string
  rr_Check :: string
  rr_Recipe :: string
  rr_MaxRepairsPerHour :: int

text \<open>\<open>Params\<close> may be the nil map, which the repair engine tells apart: \<open>None\<close>.\<close>

record recipe_step_config =
  sc_Action :: string
  sc_Retries :: int
  sc_Timeout :: duration
  sc_OnFailureOnly :: bool
  sc_Params :: "string gmap option"
  sc_Duration :: duration
  sc_Check :: string

record recipe_config =
  rc_Name :: string
  rc_Steps :: "recipe_step_config list"

record telemetry_config =
  tc_Enabled :: bool
  tc_MetricsPort :: int
  tc_BufferSize :: int

record storage_config =
  stc_Path :: string

type_synonym kubernetes_enabled = string

definition KubeAuto :: kubernetes_enabled where "KubeAuto = ''auto''"
definition KubeEnabled :: kubernetes_enabled where "KubeEnabled = ''true''"
definition KubeDisabled :: kubernetes_enabled where "KubeDisabled = ''false''"

record kubernetes_config =
  kc_Enabled :: kubernetes_enabled
  kc_Namespace :: string

record control_plane_config =
  cp_Endpoint :: string
  cp_AgentUUID :: string
  cp_APIKey :: string
  cp_UseTLS :: "bool option"

record logging_config =
  lc_Level :: string
  lc_Format :: string

record config =
  c_Agent :: agent_config
  c_Checks :: "check_config list"
  c_Repairs :: "repair_rule_config list"
  c_Recipes :: "recipe_config list"
  c_Telemetry :: telemetry_config
  c_Storage :: storage_config
  c_Kubernetes :: kubernetes_config
  c_ControlPlane :: control_plane_config
  c_Logging :: logging_config

section \<open>Control plane settings\<close>

definition cp_enabled :: "control_plane_config \<Rightarrow> bool" where
  "cp_enabled cp \<longleftrightarrow> cp_AgentUUID cp \<noteq> '''' \<and> cp_APIKey cp \<noteq> ''''"

definition tls_enabled :: "control_plane_config \<Rightarrow> bool" where
  "tls_enabled cp =
     (case cp_UseTLS cp of
        Some b \<Rightarrow> b
      | None \<Rightarrow>
          if has_suffix (cp_Endpoint cp) '':443'' \<or> \<not> contains (cp_Endpoint cp) '':'' then True
          else False)"

section \<open>Defaults\<close>

definition default_config :: config where
  "default_config =
     \<lparr>c_Agent = \<lparr>ac_Name = ''uptimy-agent'', ac_WorkerPoolSize = 4\<rparr>,
      c_Checks = [], c_Repairs = [], c_Recipes = [],
      c_Telemetry = \<lparr>tc_Enabled = True, tc_MetricsPort = 9090, tc_BufferSize = 10000\<rparr>,
      c_Storage = \<lparr>stc_Path = ''./data/state.db''\<rparr>,
      c_Kubernetes = \<lparr>kc_Enabled = KubeAuto, kc_Namespace = ''''\<rparr>,
      c_ControlPlane = \<lparr>cp_Endpoint = ''grpc.coordinator.upti.my:443'', cp_AgentUUID = '''',
                        cp_APIKey = '''', cp_UseTLS = None\<rparr>,
      c_Logging = \<lparr>lc_Level = ''info'', lc_Format = ''json''\<rparr>\<rparr>"

definition default_check_timeout :: duration where
  "default_check_timeout = 10 * go_Second"

definition default_check_interval :: duration where
  "default_check_interval = 30 * go_Second"

section \<open>Validation\<close>

datatype config_error =
    AgentNameEmpty
  | WorkerPoolTooSmall
  | StoragePathEmpty
  | CheckNameEmpty
  | DuplicateCheckName string
  | CheckTypeEmpty string
  | CheckIntervalNotPositive string
  | CheckTimeoutNegative string
  | RecipeNameEmpty
  | DuplicateRecipeName string
  | StepActionEmpty string nat
  | RuleNameEmpty
  | RuleCheckEmpty string
  | RuleRecipeEmpty string
  | RuleUnknownCheck string string
  | RuleUnknownRecipe string string
  | MetricsPortInvalid
  | KubernetesEnabledInvalid string
  | EndpointEmpty

text \<open>The loop over the checks; it returns the index of their names.\<close>

fun validate_checks :: "check_config list \<Rightarrow> bool gmap \<Rightarrow> config_error + bool gmap" where
  "validate_checks [] names = Inr names"
| "validate_checks (ch # chs) names =
     (if cc_Name ch = '''' then Inl CheckNameEmpty
      else if gget_or False names (cc_Name ch) then Inl (DuplicateCheckName (cc_Name ch))
      else if cc_Type ch = '''' then Inl (CheckTypeEmpty (cc_Name ch))
      else if cc_Interval ch \<le> 0 then Inl (CheckIntervalNotPositive (cc_Name ch))
      else if cc_Timeout ch < 0 then Inl (CheckTimeoutNegative (cc_Name ch))
      else validate_checks chs (gset (cc_Name ch) True names))"

fun validate_steps :: "string \<Rightarrow> nat \<Rightarrow> recipe_step_config list \<Rightarrow> config_error option" where
  "validate_steps r i [] = None"
| "validate_steps r i (s # ss) =
     (if sc_Action s = '''' then Some (StepActionEmpty r i) else validate_steps r (Suc i) ss)"

fun validate_recipes :: "recipe_config list \<Rightarrow> bool gmap \<Rightarrow> config_error + bool gmap" where
  "validate_recipes [] names = Inr names"
| "validate_recipes (r # rs) names =
     (if rc_Name r = '''' then Inl RecipeNameEmpty
      else if gget_or False names (rc_Name r) then Inl (DuplicateRecipeName (rc_Name r))
      else case validate_steps (rc_Name r) 0 (rc_Steps r) of
        Some e \<Rightarrow> Inl e
      | None \<Rightarrow> validate_recipes rs (gset (rc_Name r) True names))"

fun validate_repairs ::
  "config \<Rightarrow> bool gmap \<Rightarrow> bool gmap \<Rightarrow> repair_rule_config list \<Rightarrow> config_error option" where
  "validate_repairs c cnames rnames [] = None"
| "validate_repairs c cnames rnames (r # rs) =
     (if rr_Rule r = '''' then Some RuleNameEmpty
      else if rr_Check r = '''' then Some (RuleCheckEmpty (rr_Rule r))
      else if rr_Recipe r = '''' then Some (RuleRecipeEmpty (rr_Rule r))
      else if 0 < length (c_Checks c) \<and> \<not> gget_or False cnames (rr_Check r)
        then Some (RuleUnknownCheck (rr_Rule r) (rr_Check r))
      else if 0 < length (c_Recipes c) \<and> \<not> gget_or False rnames (rr_Recipe r)
        then Some (RuleUnknownRecipe (rr_Rule r) (rr_Recipe r))
      else validate_repairs c cnames rnames rs)"

text \<open>
  \<open>Validate\<close> returns its error and the configuration, since it replaces a buffer size below
  one by 1000 on the way, before the last two checks.
\<close>

definition validate :: "config \<Rightarrow> config_error option \<times> config" where
  "validate c =
     (if ac_Name (c_Agent c) = '''' then (Some AgentNameEmpty, c)
      else if ac_WorkerPoolSize (c_Agent c) < 1 then (Some WorkerPoolTooSmall, c)
      else if stc_Path (c_Storage c) = '''' then (Some StoragePathEmpty, c)
      else case validate_checks (c_Checks c) [] of
        Inl e \<Rightarrow> (Some e, c)
      | Inr cnames \<Rightarrow>
          (case validate_recipes (c_Recipes c) [] of
             Inl e \<Rightarrow> (Some e, c)
           | Inr rnames \<Rightarrow>
               (case validate_repairs c cnames rnames (c_Repairs c) of
                  Some e \<Rightarrow> (Some e, c)
                | None \<Rightarrow>
                    if tc_Enabled (c_Telemetry c) \<and> tc_MetricsPort (c_Telemetry c) < 1
                    then (Some MetricsPortInvalid, c)
                    else
                      (let c' = (if tc_BufferSize (c_Telemetry c) < 1
                                 then c\<lparr>c_Telemetry := (c_Telemetry c)\<lparr>tc_BufferSize := 1000\<rparr>\<rparr>
                                 else c)
                       in if kc_Enabled (c_Kubernetes c') \<notin> {KubeAuto, KubeEnabled, KubeDisabled}
                          then (Some (KubernetesEnabledInvalid (kc_Enabled (c_Kubernetes c'))), c')
                          else if cp_enabled (c_ControlPlane c')
                                  \<and> cp_Endpoint (c_ControlPlane c') = ''''
                          then (Some EndpointEmpty, c')
                          else (None, c')))))"

datatype load_error = ReadError goerror | ParseError goerror | InvalidConfig config_error

definition load_from_file ::
  "(string \<Rightarrow> goerror + string) \<Rightarrow> (string \<Rightarrow> string)
   \<Rightarrow> (string \<Rightarrow> config \<Rightarrow> goerror + config) \<Rightarrow> string \<Rightarrow> load_error + config" where
  "load_from_file read_file getenv yaml path =
     (case read_file path of
        Inl e \<Rightarrow> Inl (ReadError e)
      | Inr data \<Rightarrow>
          (case yaml (expand getenv data) default_config of
             Inl e \<Rightarrow> Inl (ParseError e)
           | Inr cfg \<Rightarrow>
               (case validate cfg of
                  (Some e, _) \<Rightarrow> Inl (InvalidConfig e)
                | (None, cfg') \<Rightarrow> Inr cfg')))"

section \<open>What a validated configuration satisfies\<close>

text \<open>
  The specification of \<open>Validate\<close>: every name is present and unique, intervals are positive,
  rules refer to existing checks and recipes, and the optional parts are complete when switched on.
\<close>

definition check_config_ok :: "check_config \<Rightarrow> bool" where
  "check_config_ok ch \<longleftrightarrow> cc_Name ch \<noteq> '''' \<and> cc_Type ch \<noteq> '''' \<and> 0 < cc_Interval ch
     \<and> 0 \<le> cc_Timeout ch"

definition recipe_config_ok :: "recipe_config \<Rightarrow> bool" where
  "recipe_config_ok r \<longleftrightarrow> rc_Name r \<noteq> '''' \<and> (\<forall>s \<in> set (rc_Steps r). sc_Action s \<noteq> '''')"

definition rule_config_ok :: "config \<Rightarrow> repair_rule_config \<Rightarrow> bool" where
  "rule_config_ok c r \<longleftrightarrow> rr_Rule r \<noteq> '''' \<and> rr_Check r \<noteq> '''' \<and> rr_Recipe r \<noteq> ''''
     \<and> (c_Checks c \<noteq> [] \<longrightarrow> rr_Check r \<in> cc_Name ` set (c_Checks c))
     \<and> (c_Recipes c \<noteq> [] \<longrightarrow> rr_Recipe r \<in> rc_Name ` set (c_Recipes c))"

definition valid_config :: "config \<Rightarrow> bool" where
  "valid_config c \<longleftrightarrow>
     ac_Name (c_Agent c) \<noteq> '''' \<and> 1 \<le> ac_WorkerPoolSize (c_Agent c)
     \<and> stc_Path (c_Storage c) \<noteq> ''''
     \<and> (\<forall>ch \<in> set (c_Checks c). check_config_ok ch) \<and> distinct (map cc_Name (c_Checks c))
     \<and> (\<forall>r \<in> set (c_Recipes c). recipe_config_ok r) \<and> distinct (map rc_Name (c_Recipes c))
     \<and> (\<forall>r \<in> set (c_Repairs c). rule_config_ok c r)
     \<and> (tc_Enabled (c_Telemetry c) \<longrightarrow> 1 \<le> tc_MetricsPort (c_Telemetry c))
     \<and> kc_Enabled (c_Kubernetes c) \<in> {KubeAuto, KubeEnabled, KubeDisabled}
     \<and> (cp_enabled (c_ControlPlane c) \<longrightarrow> cp_Endpoint (c_ControlPlane c) \<noteq> '''')"

definition with_buffer_size :: "config \<Rightarrow> config" where
  "with_buffer_size c =
     (if tc_BufferSize (c_Telemetry c) < 1
      then c\<lparr>c_Telemetry := (c_Telemetry c)\<lparr>tc_BufferSize := 1000\<rparr>\<rparr> else c)"

lemma validate_checks_names:
  "validate_checks chs names = Inr names' \<Longrightarrow>
     gget_or False names' k \<longleftrightarrow> gget_or False names k \<or> k \<in> cc_Name ` set chs"
  by (induction chs arbitrary: names) (auto split: if_splits)

lemma validate_checks_iff:
  "(\<exists>names'. validate_checks chs names = Inr names') \<longleftrightarrow>
     (\<forall>ch \<in> set chs. check_config_ok ch \<and> \<not> gget_or False names (cc_Name ch))
     \<and> distinct (map cc_Name chs)"
  by (induction chs arbitrary: names) (auto simp: check_config_ok_def intro: rev_image_eqI)

lemma validate_steps_iff:
  "validate_steps r i ss = None \<longleftrightarrow> (\<forall>s \<in> set ss. sc_Action s \<noteq> '''')"
  by (induction ss arbitrary: i) auto

lemma validate_recipes_names:
  "validate_recipes rs names = Inr names' \<Longrightarrow>
     gget_or False names' k \<longleftrightarrow> gget_or False names k \<or> k \<in> rc_Name ` set rs"
  by (induction rs arbitrary: names) (auto split: if_splits option.splits)

lemma validate_recipes_iff:
  "(\<exists>names'. validate_recipes rs names = Inr names') \<longleftrightarrow>
     (\<forall>r \<in> set rs. recipe_config_ok r \<and> \<not> gget_or False names (rc_Name r))
     \<and> distinct (map rc_Name rs)"
proof (induction rs arbitrary: names)
  case Nil
  then show ?case by simp
next
  case (Cons r rs)
  have "validate_steps (rc_Name r) 0 (rc_Steps r) = None \<longleftrightarrow> (\<forall>s \<in> set (rc_Steps r). sc_Action s \<noteq> '''')"
    by (rule validate_steps_iff)
  then show ?case
    by (cases "validate_steps (rc_Name r) 0 (rc_Steps r)") (auto simp: Cons.IH recipe_config_ok_def intro: rev_image_eqI)
qed

lemma validate_repairs_iff:
  assumes "\<And>k. gget_or False cnames k \<longleftrightarrow> k \<in> cc_Name ` set (c_Checks c)"
    and "\<And>k. gget_or False rnames k \<longleftrightarrow> k \<in> rc_Name ` set (c_Recipes c)"
  shows "validate_repairs c cnames rnames rs = None \<longleftrightarrow> (\<forall>r \<in> set rs. rule_config_ok c r)"
  by (induction rs) (auto simp: rule_config_ok_def assms)

lemma validate_checks_Inr:
  assumes "validate_checks chs [] = Inr names"
  shows "gget_or False names k \<longleftrightarrow> k \<in> cc_Name ` set chs"
  using validate_checks_names [OF assms] by simp

lemma validate_recipes_Inr:
  assumes "validate_recipes rs [] = Inr names"
  shows "gget_or False names k \<longleftrightarrow> k \<in> rc_Name ` set rs"
  using validate_recipes_names [OF assms] by simp

text \<open>The loops together: they pass exactly when the three lists satisfy their specification.\<close>

definition validate_lists :: "config \<Rightarrow> config_error option" where
  "validate_lists c =
     (case validate_checks (c_Checks c) [] of
        Inl e \<Rightarrow> Some e
      | Inr cnames \<Rightarrow>
          (case validate_recipes (c_Recipes c) [] of
             Inl e \<Rightarrow> Some e
           | Inr rnames \<Rightarrow> validate_repairs c cnames rnames (c_Repairs c)))"

lemma validate_lists_iff:
  "validate_lists c = None \<longleftrightarrow>
     (\<forall>ch \<in> set (c_Checks c). check_config_ok ch) \<and> distinct (map cc_Name (c_Checks c))
     \<and> (\<forall>r \<in> set (c_Recipes c). recipe_config_ok r) \<and> distinct (map rc_Name (c_Recipes c))
     \<and> (\<forall>r \<in> set (c_Repairs c). rule_config_ok c r)"
proof (cases "validate_checks (c_Checks c) []")
  case (Inl e)
  with validate_checks_iff [of "c_Checks c" "[]"] show ?thesis
    by (auto simp: validate_lists_def)
next
  case chk: (Inr cnames)
  with validate_checks_iff [of "c_Checks c" "[]"]
  have C: "(\<forall>ch \<in> set (c_Checks c). check_config_ok ch) \<and> distinct (map cc_Name (c_Checks c))"
    by auto
  show ?thesis
  proof (cases "validate_recipes (c_Recipes c) []")
    case (Inl e)
    with chk validate_recipes_iff [of "c_Recipes c" "[]"] show ?thesis
      by (auto simp: validate_lists_def)
  next
    case rec: (Inr rnames)
    with validate_recipes_iff [of "c_Recipes c" "[]"]
    have "(\<forall>r \<in> set (c_Recipes c). recipe_config_ok r) \<and> distinct (map rc_Name (c_Recipes c))"
      by auto
    with C chk rec show ?thesis
      using validate_repairs_iff [OF validate_checks_Inr [OF chk] validate_recipes_Inr [OF rec]]
      by (simp add: validate_lists_def)
  qed
qed

lemma validate_via_lists:
  "validate c =
     (if ac_Name (c_Agent c) = '''' then (Some AgentNameEmpty, c)
      else if ac_WorkerPoolSize (c_Agent c) < 1 then (Some WorkerPoolTooSmall, c)
      else if stc_Path (c_Storage c) = '''' then (Some StoragePathEmpty, c)
      else case validate_lists c of
        Some e \<Rightarrow> (Some e, c)
      | None \<Rightarrow>
          if tc_Enabled (c_Telemetry c) \<and> tc_MetricsPort (c_Telemetry c) < 1
          then (Some MetricsPortInvalid, c)
          else if kc_Enabled (c_Kubernetes c) \<notin> {KubeAuto, KubeEnabled, KubeDisabled}
          then (Some (KubernetesEnabledInvalid (kc_Enabled (c_Kubernetes c))), with_buffer_size c)
          else if cp_enabled (c_ControlPlane c) \<and> cp_Endpoint (c_ControlPlane c) = ''''
          then (Some EndpointEmpty, with_buffer_size c)
          else (None, with_buffer_size c))"
  by (auto simp: validate_def validate_lists_def with_buffer_size_def Let_def
        split: sum.splits option.splits)

lemma valid_config_via_lists:
  "valid_config c \<longleftrightarrow>
     ac_Name (c_Agent c) \<noteq> '''' \<and> \<not> ac_WorkerPoolSize (c_Agent c) < 1
     \<and> stc_Path (c_Storage c) \<noteq> '''' \<and> validate_lists c = None
     \<and> \<not> (tc_Enabled (c_Telemetry c) \<and> tc_MetricsPort (c_Telemetry c) < 1)
     \<and> kc_Enabled (c_Kubernetes c) \<in> {KubeAuto, KubeEnabled, KubeDisabled}
     \<and> \<not> (cp_enabled (c_ControlPlane c) \<and> cp_Endpoint (c_ControlPlane c) = '''')"
  unfolding valid_config_def validate_lists_iff by (simp add: not_less)

lemma validate_None: "fst (validate c) = None \<longleftrightarrow> valid_config c"
  unfolding validate_via_lists valid_config_via_lists by (cases "validate_lists c") simp_all

lemma validate_Some_config: "validate c = (None, c') \<Longrightarrow> c' = with_buffer_size c"
  by (auto simp: validate_via_lists split: if_splits option.splits)

lemma with_buffer_size_frame [simp, frame_simps]:
  "c_Agent (with_buffer_size c) = c_Agent c" "c_Checks (with_buffer_size c) = c_Checks c"
  "c_Repairs (with_buffer_size c) = c_Repairs c" "c_Recipes (with_buffer_size c) = c_Recipes c"
  "c_Storage (with_buffer_size c) = c_Storage c" "c_Kubernetes (with_buffer_size c) = c_Kubernetes c"
  "c_ControlPlane (with_buffer_size c) = c_ControlPlane c"
  "c_Logging (with_buffer_size c) = c_Logging c"
  "tc_Enabled (c_Telemetry (with_buffer_size c)) = tc_Enabled (c_Telemetry c)"
  "tc_MetricsPort (c_Telemetry (with_buffer_size c)) = tc_MetricsPort (c_Telemetry c)"
  by (simp_all add: with_buffer_size_def)

lemma rule_config_ok_with_buffer_size [simp]:
  "rule_config_ok (with_buffer_size c) = rule_config_ok c"
  by (simp add: rule_config_ok_def [abs_def])

lemma valid_config_with_buffer_size [simp]: "valid_config (with_buffer_size c) = valid_config c"
  by (simp add: valid_config_def)

lemma with_buffer_size_pos: "1 \<le> tc_BufferSize (c_Telemetry (with_buffer_size c))"
  by (simp add: with_buffer_size_def)

lemma with_buffer_size_idem [simp]: "with_buffer_size (with_buffer_size c) = with_buffer_size c"
  using with_buffer_size_pos [of c] by (simp add: with_buffer_size_def [of "with_buffer_size c"])

end
