(* ===== verification/Checkers.thy ===== *)
theory Checkers
  imports Check_Interface Config Go_Float
begin

text \<open>
  The built-in checkers (\<open>internal/plugins/checkers\<close>). What they probe is not under src/ and is a
  parameter, \<open>probes\<close>: HTTP, TCP and TLS, gopsutil, systemctl, files and the Docker API, each a
  function on the environment that takes the check's timeout. A run reads the clock where the code
  does. Arithmetic on \<open>float64\<close> rounds as in \<open>Go_Float\<close>.
\<close>

text \<open>
  Each checker is its record of fields, its constructor (\<open>New...Check\<close>), its \<open>Run\<close>, and
  its value as the interface \<open>Check\<close>, named \<open>..._iface\<close>, which adds \<open>Name\<close>.
\<close>

section \<open>Probes\<close>

record mem_stat =
  ms_UsedPercent :: gofloat
  ms_Total :: int
  ms_Used :: int
  ms_Available :: int

record disk_stat =
  ds_UsedPercent :: gofloat
  ds_Total :: int
  ds_Used :: int
  ds_Free :: int

record process_info =
  pi_Pid :: int
  pi_Name :: "goerror + string"

record certificate =
  ct_NotAfter :: gotime
  ct_Subject :: string
  ct_Issuer :: string

record container_health =
  ch_Status :: string
  ch_FailingStreak :: int

record container_state =
  cs_Status :: string
  cs_StartedAt :: string
  cs_Health :: "container_health option"

record container_info =
  ci_State :: "container_state option"
  ci_Image :: string
  ci_RestartCount :: int

record swarm_info =
  sw_LocalNodeState :: string
  sw_NodeID :: string
  sw_NodeAddr :: string
  sw_ControlAvailable :: bool
  sw_Error :: string
  sw_RemoteManagers :: nat
  sw_Nodes :: int
  sw_Managers :: int

record 'e probes =
  pb_new_request :: "string \<Rightarrow> string \<Rightarrow> goerror option"
  pb_http_do :: "duration \<Rightarrow> string \<Rightarrow> string \<Rightarrow> string gmap \<Rightarrow> 'e \<Rightarrow> (goerror + int) \<times> 'e"
  pb_tcp_dial :: "duration \<Rightarrow> string \<Rightarrow> 'e \<Rightarrow> goerror option \<times> 'e"
  pb_cpu_percent :: "duration \<Rightarrow> 'e \<Rightarrow> (gofloat list \<times> goerror option) \<times> 'e"
  pb_memory :: "duration \<Rightarrow> 'e \<Rightarrow> (goerror + mem_stat) \<times> 'e"
  pb_disk :: "duration \<Rightarrow> string \<Rightarrow> 'e \<Rightarrow> (goerror + disk_stat) \<times> 'e"
  pb_is_active :: "duration \<Rightarrow> string \<Rightarrow> 'e \<Rightarrow> (string \<times> goerror option) \<times> 'e"
  pb_processes :: "duration \<Rightarrow> 'e \<Rightarrow> (goerror + process_info list) \<times> 'e"
  pb_split_host :: "string \<Rightarrow> string option"
  pb_tls_dial :: "duration \<Rightarrow> string \<Rightarrow> string \<Rightarrow> 'e \<Rightarrow> (goerror + certificate list option) \<times> 'e"
  pb_read_file :: "string \<Rightarrow> 'e \<Rightarrow> (goerror + string) \<times> 'e"
  pb_pem_decode :: "string \<Rightarrow> string option"
  pb_parse_cert :: "string \<Rightarrow> goerror + certificate"
  pb_rfc3339 :: "gotime \<Rightarrow> string"
  pb_docker_client :: "'e \<Rightarrow> goerror option \<times> 'e"
  pb_inspect :: "duration \<Rightarrow> string \<Rightarrow> 'e \<Rightarrow> (goerror + container_info) \<times> 'e"
  pb_docker_info :: "duration \<Rightarrow> 'e \<Rightarrow> (goerror + swarm_info) \<times> 'e"

definition on_env :: "('e \<Rightarrow> 'a \<times> 'e) \<Rightarrow> 'e world \<Rightarrow> 'a \<times> 'e world" where
  "on_env f w = (fst (f (w_env w)), w\<lparr>w_env := snd (f (w_env w))\<rparr>)"

section \<open>Errors and printing\<close>

datatype service_name_error = InvalidServiceChar char string | InvalidServiceName string

datatype cert_error =
    CertConnect string goerror
  | CertNotTLS
  | CertNone string
  | CertReadFile goerror
  | CertPEM string
  | CertParse goerror

datatype check_error =
    RequestError goerror
  | ExecuteError goerror
  | UnexpectedStatus int int
  | DialError goerror
  | CpuStatsError "goerror option"
  | CpuOver gofloat gofloat
  | MemStatsError goerror
  | MemOver gofloat gofloat
  | DiskUsageError string goerror
  | DiskOver gofloat gofloat string
  | ProcessUnspecified
  | BadServiceName service_name_error
  | ServiceNotActive string string
  | ServiceIs string string
  | ProcessListError goerror
  | ProcessNotFound string
  | CertUnspecified
  | CertError cert_error
  | CertExpires int int
  | DockerClientError goerror
  | ContainerUnavailable string goerror
  | ContainerNoState string
  | ContainerUnhealthy string
  | ContainerIs string string
  | DockerInfoError goerror
  | SwarmReports string
  | SwarmManagersLost nat int
  | SwarmPending
  | SwarmErrorState string
  | SwarmNotActive string
  | KubernetesEvent string string

text \<open>\<open>%.2f\<close>: the exact value rounded to two decimals, half to even.\<close>

definition show_fixed2 :: "gofloat \<Rightarrow> string" where
  "show_fixed2 x =
     (case x of
        NaN \<Rightarrow> ''NaN'' | PInf \<Rightarrow> ''+Inf'' | NInf \<Rightarrow> ''-Inf''
      | Fin r \<Rightarrow>
          (let q = \<lfloor>\<bar>r\<bar> * 100\<rfloor>; f = \<bar>r\<bar> * 100 - of_int q;
               n = (if f > 1 / 2 \<or> (f = 1 / 2 \<and> odd q) then q + 1 else q)
           in (if r < 0 then ''-'' else '''') @ show_int (n div 100) @ ''.''
              @ pad_left 2 (show_int (n mod 100))))"

fun service_name_error_string :: "service_name_error \<Rightarrow> string" where
  "service_name_error_string (InvalidServiceChar r s) =
     ''invalid character '' @ quote_rune r @ '' in service name''"
| "service_name_error_string (InvalidServiceName s) = ''invalid service name '' @ go_quote s"

fun cert_error_string :: "cert_error \<Rightarrow> string" where
  "cert_error_string (CertConnect url e) = ''failed to connect to '' @ url @ '': '' @ e"
| "cert_error_string CertNotTLS = ''connection is not TLS''"
| "cert_error_string (CertNone url) = ''no certificates returned from '' @ url"
| "cert_error_string (CertReadFile e) = ''failed to read certificate file: '' @ e"
| "cert_error_string (CertPEM p) = ''failed to decode PEM block from '' @ p"
| "cert_error_string (CertParse e) = ''failed to parse certificate: '' @ e"

text \<open>A nil error wrapped with \<open>%w\<close> prints as the formatting error Go inserts.\<close>

definition wrapped :: "goerror option \<Rightarrow> string" where
  "wrapped e = (case e of None \<Rightarrow> ''%!w(<nil>)'' | Some m \<Rightarrow> m)"

fun check_error_string :: "check_error \<Rightarrow> string" where
  "check_error_string (RequestError e) = ''creating request: '' @ e"
| "check_error_string (ExecuteError e) = ''executing request: '' @ e"
| "check_error_string (UnexpectedStatus a b) =
     ''unexpected status '' @ show_int a @ '', expected '' @ show_int b"
| "check_error_string (DialError e) = ''tcp dial failed: '' @ e"
| "check_error_string (CpuStatsError e) = ''failed to get CPU stats: '' @ wrapped e"
| "check_error_string (CpuOver u t) =
     ''CPU usage '' @ show_fixed2 u @ ''% exceeds threshold '' @ show_fixed2 t @ ''%''"
| "check_error_string (MemStatsError e) = ''failed to get memory stats: '' @ e"
| "check_error_string (MemOver u t) =
     ''memory usage '' @ show_fixed2 u @ ''% exceeds threshold '' @ show_fixed2 t @ ''%''"
| "check_error_string (DiskUsageError p e) = ''failed to get disk usage for '' @ p @ '': '' @ e"
| "check_error_string (DiskOver u t p) =
     ''disk usage '' @ show_fixed2 u @ ''% exceeds threshold '' @ show_fixed2 t @ ''% for path '' @ p"
| "check_error_string ProcessUnspecified = ''either processName or serviceName must be specified''"
| "check_error_string (BadServiceName e) = ''invalid service name: '' @ service_name_error_string e"
| "check_error_string (ServiceNotActive n st) = ''service '' @ n @ '' is not active: '' @ st"
| "check_error_string (ServiceIs n st) = ''service '' @ n @ '' is '' @ st"
| "check_error_string (ProcessListError e) = ''failed to list processes: '' @ e"
| "check_error_string (ProcessNotFound n) = ''process '' @ n @ '' not found''"
| "check_error_string CertUnspecified = ''either certPath or certURL must be specified''"
| "check_error_string (CertError e) = ''failed to get certificate: '' @ cert_error_string e"
| "check_error_string (CertExpires d t) =
     ''certificate expires in '' @ show_int d @ '' days (threshold: '' @ show_int t @ '' days)''"
| "check_error_string (DockerClientError e) = ''failed to create docker client: '' @ e"
| "check_error_string (ContainerUnavailable n e) =
     ''container '' @ n @ '' not found or docker unavailable: '' @ e"
| "check_error_string (ContainerNoState n) = ''container '' @ n @ '' has no state''"
| "check_error_string (ContainerUnhealthy n) =
     ''container '' @ n @ '' is running but healthcheck is unhealthy''"
| "check_error_string (ContainerIs n st) = ''container '' @ n @ '' is '' @ st"
| "check_error_string (DockerInfoError e) = ''failed to query docker info: '' @ e"
| "check_error_string (SwarmReports e) = ''swarm active but reports error: '' @ e"
| "check_error_string (SwarmManagersLost r m) =
     ''swarm active but only '' @ show_nat r @ ''/'' @ show_int m @ '' managers reachable''"
| "check_error_string SwarmPending = ''swarm node is pending, not yet active''"
| "check_error_string (SwarmErrorState e) = ''swarm is in error state: '' @ e"
| "check_error_string (SwarmNotActive st) = ''swarm is not active, state: '' @ st"
| "check_error_string (KubernetesEvent r m) = ''kubernetes event: '' @ r @ '' - '' @ m"

definition show_bool :: "bool \<Rightarrow> string" where
  "show_bool b = (if b then ''true'' else ''false'')"

section \<open>Results\<close>

text \<open>
  The two ways the code builds a result: the duration read with the result, after its timestamp, or
  read before.
\<close>

definition result_since ::
  "string \<Rightarrow> string \<Rightarrow> check_status \<Rightarrow> check_error option \<Rightarrow> string gmap \<Rightarrow> gotime \<Rightarrow> 'e world
   \<Rightarrow> check_error check_result \<times> 'e world" where
  "result_since name service st err md start w =
     (let (ts, w1) = time_now w; (now, w2) = time_now w1
      in (\<lparr>cr_Name = name, cr_Service = service, cr_Status = st, cr_Error = err, cr_Timestamp = ts,
           cr_Duration = now - start, cr_Metadata = md\<rparr>, w2))"

definition result_after ::
  "string \<Rightarrow> string \<Rightarrow> check_status \<Rightarrow> check_error option \<Rightarrow> string gmap \<Rightarrow> duration \<Rightarrow> 'e world
   \<Rightarrow> check_error check_result \<times> 'e world" where
  "result_after name service st err md dur w =
     (let (ts, w1) = time_now w
      in (\<lparr>cr_Name = name, cr_Service = service, cr_Status = st, cr_Error = err, cr_Timestamp = ts,
           cr_Duration = dur, cr_Metadata = md\<rparr>, w1))"

section \<open>HTTP and TCP\<close>

record http_check =
  hc_name :: string
  hc_service :: string
  hc_url :: string
  hc_method :: string
  hc_expectedStatus :: int
  hc_timeout :: duration
  hc_headers :: "string gmap"

definition new_http_check ::
  "string \<Rightarrow> string \<Rightarrow> string \<Rightarrow> string \<Rightarrow> int \<Rightarrow> duration \<Rightarrow> string gmap \<Rightarrow> http_check" where
  "new_http_check name service url method expected timeout headers =
     \<lparr>hc_name = name, hc_service = service, hc_url = url, hc_method = method,
      hc_expectedStatus = expected, hc_timeout = timeout, hc_headers = headers\<rparr>"

definition http_run ::
  "'e probes \<Rightarrow> http_check \<Rightarrow> 'e world \<Rightarrow> check_error check_result \<times> 'e world" where
  "http_run pb c w =
     (let (start, w1) = time_now w
      in case pb_new_request pb (hc_method c) (hc_url c) of
           Some e \<Rightarrow>
             result_since (hc_name c) (hc_service c) CheckFailed (Some (RequestError e)) [] start w1
         | None \<Rightarrow>
             (let (r, w2) = on_env (pb_http_do pb (hc_timeout c) (hc_method c) (hc_url c) (hc_headers c)) w1
              in case r of
                   Inl e \<Rightarrow>
                     result_since (hc_name c) (hc_service c) CheckFailed (Some (ExecuteError e)) [] start w2
                 | Inr code \<Rightarrow>
                     (let (now, w3) = time_now w2;
                          md = [(''status_code'', show_int code), (''url'', hc_url c)]
                      in if code \<noteq> hc_expectedStatus c
                         then result_after (hc_name c) (hc_service c) CheckFailed
                                (Some (UnexpectedStatus code (hc_expectedStatus c))) md (now - start) w3
                         else result_after (hc_name c) (hc_service c) CheckHealthy None md (now - start) w3)))"

definition http_iface :: "'e probes \<Rightarrow> http_check \<Rightarrow> (check_error, 'e) check" where
  "http_iface pb c = \<lparr>ck_Name = hc_name c, ck_Run = http_run pb c\<rparr>"

record tcp_check =
  tcp_name :: string
  tcp_service :: string
  tcp_address :: string
  tcp_timeout :: duration

definition new_tcp_check ::
  "string \<Rightarrow> string \<Rightarrow> string \<Rightarrow> duration \<Rightarrow> tcp_check" where
  "new_tcp_check name service address timeout =
     \<lparr>tcp_name = name, tcp_service = service, tcp_address = address,
      tcp_timeout = timeout\<rparr>"

definition tcp_run ::
  "'e probes \<Rightarrow> tcp_check \<Rightarrow> 'e world \<Rightarrow> check_error check_result \<times> 'e world" where
  "tcp_run pb c w =
     (let (start, w1) = time_now w;
          (err, w2) = on_env (pb_tcp_dial pb (tcp_timeout c) (tcp_address c)) w1;
          (now, w3) = time_now w2;
          md = [(''address'', tcp_address c)]
      in case err of
           Some e \<Rightarrow> result_after (tcp_name c) (tcp_service c) CheckFailed (Some (DialError e)) md (now - start) w3
         | None \<Rightarrow> result_after (tcp_name c) (tcp_service c) CheckHealthy None md (now - start) w3)"

definition tcp_iface :: "'e probes \<Rightarrow> tcp_check \<Rightarrow> (check_error, 'e) check" where
  "tcp_iface pb c = \<lparr>ck_Name = tcp_name c, ck_Run = tcp_run pb c\<rparr>"

section \<open>CPU, memory and disk\<close>

record cpu_check =
  cpu_name :: string
  cpu_service :: string
  cpu_threshold :: gofloat
  cpu_timeout :: duration

definition new_cpu_check ::
  "string \<Rightarrow> string \<Rightarrow> gofloat \<Rightarrow> duration \<Rightarrow> cpu_check" where
  "new_cpu_check name service threshold timeout =
     \<lparr>cpu_name = name, cpu_service = service, cpu_threshold = threshold,
      cpu_timeout = timeout\<rparr>"

definition cpu_run ::
  "'e probes \<Rightarrow> cpu_check \<Rightarrow> 'e world \<Rightarrow> check_error check_result \<times> 'e world" where
  "cpu_run pb c w =
     (let (start, w1) = time_now w;
          (r, w2) = on_env (pb_cpu_percent pb (cpu_timeout c)) w1;
          (now, w3) = time_now w2
      in case r of
           (xs, err) \<Rightarrow>
             if err \<noteq> None \<or> length xs = 0
             then result_after (cpu_name c) (cpu_service c) CheckFailed (Some (CpuStatsError err)) []
                    (now - start) w3
             else
               (let usage = hd xs;
                    md = [(''usage_percent'', show_fixed2 usage),
                          (''threshold'', show_fixed2 (cpu_threshold c))]
                in if float_gt usage (cpu_threshold c)
                   then result_after (cpu_name c) (cpu_service c) CheckFailed
                          (Some (CpuOver usage (cpu_threshold c))) md (now - start) w3
                   else result_after (cpu_name c) (cpu_service c) CheckHealthy None md (now - start) w3))"

definition cpu_iface :: "'e probes \<Rightarrow> cpu_check \<Rightarrow> (check_error, 'e) check" where
  "cpu_iface pb c = \<lparr>ck_Name = cpu_name c, ck_Run = cpu_run pb c\<rparr>"

record memory_check =
  mem_name :: string
  mem_service :: string
  mem_threshold :: gofloat
  mem_timeout :: duration

definition new_memory_check ::
  "string \<Rightarrow> string \<Rightarrow> gofloat \<Rightarrow> duration \<Rightarrow> memory_check" where
  "new_memory_check name service threshold timeout =
     \<lparr>mem_name = name, mem_service = service, mem_threshold = threshold,
      mem_timeout = timeout\<rparr>"

definition memory_run ::
  "'e probes \<Rightarrow> memory_check \<Rightarrow> 'e world \<Rightarrow> check_error check_result \<times> 'e world" where
  "memory_run pb c w =
     (let (start, w1) = time_now w;
          (r, w2) = on_env (pb_memory pb (mem_timeout c)) w1;
          (now, w3) = time_now w2
      in case r of
           Inl e \<Rightarrow>
             result_after (mem_name c) (mem_service c) CheckFailed (Some (MemStatsError e)) [] (now - start) w3
         | Inr st \<Rightarrow>
             (let usage = ms_UsedPercent st;
                  md = [(''usage_percent'', show_fixed2 usage),
                        (''threshold'', show_fixed2 (mem_threshold c)),
                        (''total_mb'', show_int (ms_Total st div 1024 div 1024)),
                        (''used_mb'', show_int (ms_Used st div 1024 div 1024)),
                        (''available_mb'', show_int (ms_Available st div 1024 div 1024))]
              in if float_gt usage (mem_threshold c)
                 then result_after (mem_name c) (mem_service c) CheckFailed
                        (Some (MemOver usage (mem_threshold c))) md (now - start) w3
                 else result_after (mem_name c) (mem_service c) CheckHealthy None md (now - start) w3))"

definition memory_iface :: "'e probes \<Rightarrow> memory_check \<Rightarrow> (check_error, 'e) check" where
  "memory_iface pb c = \<lparr>ck_Name = mem_name c, ck_Run = memory_run pb c\<rparr>"

record disk_check =
  dk_name :: string
  dk_service :: string
  dk_path :: string
  dk_threshold :: gofloat
  dk_timeout :: duration

definition new_disk_check ::
  "string \<Rightarrow> string \<Rightarrow> string \<Rightarrow> gofloat \<Rightarrow> duration \<Rightarrow> disk_check" where
  "new_disk_check name service path threshold timeout =
     \<lparr>dk_name = name, dk_service = service, dk_path = path, dk_threshold = threshold,
      dk_timeout = timeout\<rparr>"

definition gigabytes :: "int \<Rightarrow> gofloat" where
  "gigabytes n = Fin (f64 (f64 (f64 (f64 (of_int n) / 1024) / 1024) / 1024))"

definition disk_run ::
  "'e probes \<Rightarrow> disk_check \<Rightarrow> 'e world \<Rightarrow> check_error check_result \<times> 'e world" where
  "disk_run pb c w =
     (let (start, w1) = time_now w;
          (r, w2) = on_env (pb_disk pb (dk_timeout c) (dk_path c)) w1;
          (now, w3) = time_now w2
      in case r of
           Inl e \<Rightarrow>
             result_after (dk_name c) (dk_service c) CheckFailed (Some (DiskUsageError (dk_path c) e))
               [(''path'', dk_path c)] (now - start) w3
         | Inr st \<Rightarrow>
             (let usage = ds_UsedPercent st;
                  md = [(''path'', dk_path c), (''usage_percent'', show_fixed2 usage),
                        (''threshold'', show_fixed2 (dk_threshold c)),
                        (''total_gb'', show_fixed2 (gigabytes (ds_Total st))),
                        (''used_gb'', show_fixed2 (gigabytes (ds_Used st))),
                        (''free_gb'', show_fixed2 (gigabytes (ds_Free st)))]
              in if float_gt usage (dk_threshold c)
                 then result_after (dk_name c) (dk_service c) CheckFailed
                        (Some (DiskOver usage (dk_threshold c) (dk_path c))) md (now - start) w3
                 else result_after (dk_name c) (dk_service c) CheckHealthy None md (now - start) w3))"

definition disk_iface :: "'e probes \<Rightarrow> disk_check \<Rightarrow> (check_error, 'e) check" where
  "disk_iface pb c = \<lparr>ck_Name = dk_name c, ck_Run = disk_run pb c\<rparr>"

section \<open>Processes and systemd services\<close>

definition is_valid_service_rune :: "char \<Rightarrow> bool" where
  "is_valid_service_rune r \<longleftrightarrow>
     (let n = of_char r :: nat
      in (97 \<le> n \<and> n \<le> 122) \<or> (65 \<le> n \<and> n \<le> 90) \<or> (48 \<le> n \<and> n \<le> 57)
         \<or> r = CHR ''_'' \<or> r = CHR ''-'' \<or> r = CHR ''.'' \<or> r = CHR '':'' \<or> r = CHR ''@'')"

fun first_bad_rune :: "string \<Rightarrow> char option" where
  "first_bad_rune [] = None"
| "first_bad_rune (r # rs) = (if is_valid_service_rune r then first_bad_rune rs else Some r)"

definition validate_service_name :: "string \<Rightarrow> service_name_error option" where
  "validate_service_name name =
     (case first_bad_rune name of
        Some r \<Rightarrow> Some (InvalidServiceChar r name)
      | None \<Rightarrow>
          if name = '''' \<or> name = ''.'' \<or> name = ''..'' then Some (InvalidServiceName name) else None)"

record process_check =
  pc_name :: string
  pc_service :: string
  pc_processName :: string
  pc_serviceName :: string
  pc_timeout :: duration

definition new_process_check ::
  "string \<Rightarrow> string \<Rightarrow> string \<Rightarrow> string \<Rightarrow> duration \<Rightarrow> process_check" where
  "new_process_check name service process unit timeout =
     \<lparr>pc_name = name, pc_service = service, pc_processName = process,
      pc_serviceName = unit, pc_timeout = timeout\<rparr>"

definition check_systemd_service ::
  "'e probes \<Rightarrow> process_check \<Rightarrow> 'e world
   \<Rightarrow> (check_status \<times> string gmap \<times> check_error option) \<times> 'e world" where
  "check_systemd_service pb c w =
     (let md = [(''service_name'', pc_serviceName c)]
      in case validate_service_name (pc_serviceName c) of
           Some e \<Rightarrow> ((CheckFailed, md, Some (BadServiceName e)), w)
         | None \<Rightarrow>
             (let (r, w1) = on_env (pb_is_active pb (pc_timeout c) (pc_serviceName c)) w;
                  status = trim_space (fst r);
                  md1 = gset ''systemctl_status'' status md
              in if snd r \<noteq> None
                 then ((CheckFailed, md1, Some (ServiceNotActive (pc_serviceName c) status)), w1)
                 else if status = ''active'' then ((CheckHealthy, md1, None), w1)
                 else ((CheckFailed, md1, Some (ServiceIs (pc_serviceName c) status)), w1)))"

text \<open>The loop over the process list; a process whose name cannot be read is passed over.\<close>

fun find_process :: "string \<Rightarrow> process_info list \<Rightarrow> int option" where
  "find_process name [] = None"
| "find_process name (p # ps) =
     (case pi_Name p of
        Inl e \<Rightarrow> find_process name ps
      | Inr n \<Rightarrow>
          if contains (to_lower n) (to_lower name) then Some (pi_Pid p) else find_process name ps)"

definition check_process_by_name ::
  "'e probes \<Rightarrow> process_check \<Rightarrow> 'e world
   \<Rightarrow> (check_status \<times> string gmap \<times> check_error option) \<times> 'e world" where
  "check_process_by_name pb c w =
     (let md = [(''process_name'', pc_processName c)];
          (r, w1) = on_env (pb_processes pb (pc_timeout c)) w
      in case r of
           Inl e \<Rightarrow> ((CheckFailed, md, Some (ProcessListError e)), w1)
         | Inr procs \<Rightarrow>
             (case find_process (pc_processName c) procs of
                Some pid \<Rightarrow> ((CheckHealthy, gset ''pid'' (show_int pid) md, None), w1)
              | None \<Rightarrow> ((CheckFailed, md, Some (ProcessNotFound (pc_processName c))), w1)))"

definition process_run ::
  "'e probes \<Rightarrow> process_check \<Rightarrow> 'e world \<Rightarrow> check_error check_result \<times> 'e world" where
  "process_run pb c w =
     (let (start, w1) = time_now w
      in if pc_serviceName c \<noteq> '''' then
           (let ((st, md, err), w2) = check_systemd_service pb c w1
            in result_since (pc_name c) (pc_service c) st err md start w2)
         else if pc_processName c \<noteq> '''' then
           (let ((st, md, err), w2) = check_process_by_name pb c w1
            in result_since (pc_name c) (pc_service c) st err md start w2)
         else result_since (pc_name c) (pc_service c) CheckFailed (Some ProcessUnspecified) [] start w1)"

definition process_iface :: "'e probes \<Rightarrow> process_check \<Rightarrow> (check_error, 'e) check" where
  "process_iface pb c = \<lparr>ck_Name = pc_name c, ck_Run = process_run pb c\<rparr>"

section \<open>Certificates\<close>

record cert_check =
  crt_name :: string
  crt_service :: string
  crt_certPath :: string
  crt_certURL :: string
  crt_daysBeforeExpiry :: int
  crt_timeout :: duration

definition new_certificate_check ::
  "string \<Rightarrow> string \<Rightarrow> string \<Rightarrow> string \<Rightarrow> int \<Rightarrow> duration \<Rightarrow> cert_check" where
  "new_certificate_check name service path url days timeout =
     \<lparr>crt_name = name, crt_service = service, crt_certPath = path, crt_certURL = url,
      crt_daysBeforeExpiry = (if days \<le> 0 then 30 else days), crt_timeout = timeout\<rparr>"

definition get_cert_from_url ::
  "'e probes \<Rightarrow> cert_check \<Rightarrow> 'e world \<Rightarrow> (cert_error + certificate) \<times> 'e world" where
  "get_cert_from_url pb c w =
     (let host = (case pb_split_host pb (crt_certURL c) of Some h \<Rightarrow> h | None \<Rightarrow> crt_certURL c);
          (r, w1) = on_env (pb_tls_dial pb (crt_timeout c) host (crt_certURL c)) w
      in (case r of
            Inl e \<Rightarrow> Inl (CertConnect (crt_certURL c) e)
          | Inr None \<Rightarrow> Inl CertNotTLS
          | Inr (Some certs) \<Rightarrow>
              if length certs = 0 then Inl (CertNone (crt_certURL c)) else Inr (hd certs), w1))"

definition get_cert_from_file ::
  "'e probes \<Rightarrow> cert_check \<Rightarrow> 'e world \<Rightarrow> (cert_error + certificate) \<times> 'e world" where
  "get_cert_from_file pb c w =
     (let (r, w1) = on_env (pb_read_file pb (crt_certPath c)) w
      in (case r of
            Inl e \<Rightarrow> Inl (CertReadFile e)
          | Inr data \<Rightarrow>
              (case pb_pem_decode pb data of
                 None \<Rightarrow> Inl (CertPEM (crt_certPath c))
               | Some der \<Rightarrow>
                   (case pb_parse_cert pb der of
                      Inl e \<Rightarrow> Inl (CertParse e)
                    | Inr cert \<Rightarrow> Inr cert)), w1))"

text \<open>Whole days until the expiry, computed from the hours in \<open>float64\<close> and truncated towards zero.\<close>

definition days_until :: "gotime \<Rightarrow> gotime \<Rightarrow> int" where
  "days_until now notAfter = float_to_int (f64 (duration_hours (time_sub notAfter now) / 24))"

definition cert_verdict :: "int \<Rightarrow> int \<Rightarrow> check_status \<times> check_error option" where
  "cert_verdict days threshold =
     (if days < threshold
      then (if 0 < days then CheckDegraded else CheckFailed, Some (CertExpires days threshold))
      else (CheckHealthy, None))"

definition certificate_run ::
  "'e probes \<Rightarrow> cert_check \<Rightarrow> 'e world \<Rightarrow> check_error check_result \<times> 'e world" where
  "certificate_run pb c w =
     (let (start, w1) = time_now w
      in if crt_certURL c = '''' \<and> crt_certPath c = ''''
         then result_since (crt_name c) (crt_service c) CheckFailed (Some CertUnspecified) [] start w1
         else
           (let ((cert, w2), md) =
                  (if crt_certURL c \<noteq> '''' then (get_cert_from_url pb c w1, [(''url'', crt_certURL c)])
                   else (get_cert_from_file pb c w1, [(''path'', crt_certPath c)]))
            in case cert of
                 Inl e \<Rightarrow>
                   result_since (crt_name c) (crt_service c) CheckFailed (Some (CertError e)) md start w2
               | Inr ct \<Rightarrow>
                   (let (now, w3) = time_now w2;
                        days = days_until now (ct_NotAfter ct);
                        md1 = md @ [(''subject'', ct_Subject ct), (''issuer'', ct_Issuer ct),
                          (''expires_at'', pb_rfc3339 pb (ct_NotAfter ct)),
                          (''days_until_expiry'', show_int days),
                          (''threshold_days'', show_int (crt_daysBeforeExpiry c))];
                        (st, err) = cert_verdict days (crt_daysBeforeExpiry c)
                    in result_since (crt_name c) (crt_service c) st err md1 start w3)))"

definition certificate_iface :: "'e probes \<Rightarrow> cert_check \<Rightarrow> (check_error, 'e) check" where
  "certificate_iface pb c = \<lparr>ck_Name = crt_name c, ck_Run = certificate_run pb c\<rparr>"

section \<open>Docker\<close>

record docker_container_check =
  dc_name :: string
  dc_service :: string
  dc_containerName :: string
  dc_timeout :: duration

definition new_docker_container_check ::
  "string \<Rightarrow> string \<Rightarrow> string \<Rightarrow> duration \<Rightarrow> docker_container_check" where
  "new_docker_container_check name service container timeout =
     \<lparr>dc_name = name, dc_service = service, dc_containerName = container,
      dc_timeout = timeout\<rparr>"

text \<open>The API's response always has its base part, so its absence is not modelled.\<close>

definition populate_metadata :: "container_info \<Rightarrow> string gmap \<Rightarrow> string gmap" where
  "populate_metadata info md =
     (let md1 = (case ci_State info of
                   None \<Rightarrow> md
                 | Some st \<Rightarrow>
                     (let m = gset ''started_at'' (cs_StartedAt st)
                                (gset ''container_status'' (cs_Status st) md)
                      in case cs_Health st of
                           None \<Rightarrow> m
                         | Some h \<Rightarrow>
                             gset ''health_failing_streak'' (show_int (ch_FailingStreak h))
                               (gset ''health_status'' (ch_Status h) m)))
      in gset ''restart_count'' (show_int (ci_RestartCount info)) (gset ''image'' (ci_Image info) md1))"

definition evaluate_state ::
  "string \<Rightarrow> container_state option \<Rightarrow> check_status \<times> check_error option" where
  "evaluate_state name state =
     (case state of
        None \<Rightarrow> (CheckFailed, Some (ContainerNoState name))
      | Some st \<Rightarrow>
          if cs_Status st = ''running'' then
            (case cs_Health st of
               Some h \<Rightarrow> if ch_Status h = ''unhealthy'' then (CheckDegraded, Some (ContainerUnhealthy name))
                         else (CheckHealthy, None)
             | None \<Rightarrow> (CheckHealthy, None))
          else if cs_Status st = ''paused'' \<or> cs_Status st = ''restarting'' \<or> cs_Status st = ''created''
          then (CheckDegraded, Some (ContainerIs name (cs_Status st)))
          else (CheckFailed, Some (ContainerIs name (cs_Status st))))"

definition docker_container_run ::
  "'e probes \<Rightarrow> docker_container_check \<Rightarrow> 'e world \<Rightarrow> check_error check_result \<times> 'e world" where
  "docker_container_run pb c w =
     (let (start, w1) = time_now w;
          md = [(''container_name'', dc_containerName c)];
          (cli, w2) = on_env (pb_docker_client pb) w1
      in case cli of
           Some e \<Rightarrow>
             result_since (dc_name c) (dc_service c) CheckFailed (Some (DockerClientError e)) md start w2
         | None \<Rightarrow>
             (let (r, w3) = on_env (pb_inspect pb (dc_timeout c) (dc_containerName c)) w2
              in case r of
                   Inl e \<Rightarrow>
                     result_since (dc_name c) (dc_service c) CheckFailed
                       (Some (ContainerUnavailable (dc_containerName c) e)) md start w3
                 | Inr info \<Rightarrow>
                     (let (st, err) = evaluate_state (dc_containerName c) (ci_State info)
                      in result_since (dc_name c) (dc_service c) st err (populate_metadata info md) start w3)))"

definition docker_container_iface :: "'e probes \<Rightarrow> docker_container_check \<Rightarrow> (check_error, 'e) check" where
  "docker_container_iface pb c = \<lparr>ck_Name = dc_name c, ck_Run = docker_container_run pb c\<rparr>"

record docker_swarm_check =
  dsw_name :: string
  dsw_service :: string
  dsw_timeout :: duration

definition new_docker_swarm_check ::
  "string \<Rightarrow> string \<Rightarrow> duration \<Rightarrow> docker_swarm_check" where
  "new_docker_swarm_check name service timeout =
     \<lparr>dsw_name = name, dsw_service = service, dsw_timeout = timeout\<rparr>"

definition evaluate_swarm :: "swarm_info \<Rightarrow> check_status \<times> check_error option" where
  "evaluate_swarm si =
     (if sw_LocalNodeState si = ''active'' then
        (if sw_Error si \<noteq> '''' then (CheckDegraded, Some (SwarmReports (sw_Error si)))
         else if 0 < sw_Managers si \<and> int (sw_RemoteManagers si) < go_quot (sw_Managers si + 1) 2
         then (CheckDegraded, Some (SwarmManagersLost (sw_RemoteManagers si) (sw_Managers si)))
         else (CheckHealthy, None))
      else if sw_LocalNodeState si = ''pending'' then (CheckDegraded, Some SwarmPending)
      else if sw_LocalNodeState si = ''error'' then (CheckFailed, Some (SwarmErrorState (sw_Error si)))
      else (CheckFailed, Some (SwarmNotActive (sw_LocalNodeState si))))"

definition docker_swarm_run ::
  "'e probes \<Rightarrow> docker_swarm_check \<Rightarrow> 'e world \<Rightarrow> check_error check_result \<times> 'e world" where
  "docker_swarm_run pb c w =
     (let (start, w1) = time_now w;
          (cli, w2) = on_env (pb_docker_client pb) w1
      in case cli of
           Some e \<Rightarrow>
             result_since (dsw_name c) (dsw_service c) CheckFailed (Some (DockerClientError e)) [] start w2
         | None \<Rightarrow>
             (let (r, w3) = on_env (pb_docker_info pb (dsw_timeout c)) w2
              in case r of
                   Inl e \<Rightarrow>
                     result_since (dsw_name c) (dsw_service c) CheckFailed (Some (DockerInfoError e)) [] start w3
                 | Inr si \<Rightarrow>
                     (let md = [(''local_node_state'', sw_LocalNodeState si), (''node_id'', sw_NodeID si),
                            (''node_addr'', sw_NodeAddr si),
                            (''control_available'', show_bool (sw_ControlAvailable si)),
                            (''managers'', show_int (sw_Managers si)), (''nodes'', show_int (sw_Nodes si)),
                            (''reachable_managers'', show_int (int (sw_RemoteManagers si)))];
                          (st, err) = evaluate_swarm si
                      in result_since (dsw_name c) (dsw_service c) st err md start w3)))"

definition docker_swarm_iface :: "'e probes \<Rightarrow> docker_swarm_check \<Rightarrow> (check_error, 'e) check" where
  "docker_swarm_iface pb c = \<lparr>ck_Name = dsw_name c, ck_Run = docker_swarm_run pb c\<rparr>"

lemmas constructor_defs =
  new_http_check_def new_tcp_check_def new_cpu_check_def new_memory_check_def new_disk_check_def
  new_process_check_def new_certificate_check_def new_docker_container_check_def
  new_docker_swarm_check_def

lemmas iface_defs =
  http_iface_def tcp_iface_def cpu_iface_def memory_iface_def disk_iface_def process_iface_def
  certificate_iface_def docker_container_iface_def docker_swarm_iface_def

end
