(* ===== verification/Checkers_Props.thy ===== *)
theory Checkers_Props
  imports Checkers
begin

text \<open>
  Every built-in checker keeps the contract of \<open>Check_Interface\<close>, and what each verdict means.
\<close>

section \<open>The contract\<close>

definition reports ::
  "string \<Rightarrow> string \<Rightarrow> 'e world \<Rightarrow> check_error check_result \<times> 'e world \<Rightarrow> bool" where
  "reports name service w rw \<longleftrightarrow> cr_Name (fst rw) = name \<and> cr_Service (fst rw) = service
     \<and> (cr_Error (fst rw) = None \<longleftrightarrow> cr_Status (fst rw) = CheckHealthy) \<and> keeps_clock w (snd rw)"

lemma keeps_clock_on_env [simp, inv_intros]: "keeps_clock w (snd (on_env f w))"
  by (simp add: on_env_def keeps_clock_def)

lemma keeps_clock_time [inv_intros]: "keeps_clock a w \<Longrightarrow> keeps_clock a (snd (time_now w))"
  by (erule keeps_clock_trans) simp

lemma keeps_clock_env [inv_intros]: "keeps_clock a w \<Longrightarrow> keeps_clock a (snd (on_env f w))"
  by (erule keeps_clock_trans) simp

lemma reports_since [inv_intros]:
  "(err = None \<longleftrightarrow> st = CheckHealthy) \<Longrightarrow> keeps_clock w w1 \<Longrightarrow>
     reports n s w (result_since n s st err md start w1)"
  by (auto simp: reports_def result_since_def Let_def case_prod_beta intro: keeps_clock_time)

lemma reports_after [inv_intros]:
  "(err = None \<longleftrightarrow> st = CheckHealthy) \<Longrightarrow> keeps_clock w w1 \<Longrightarrow>
     reports n s w (result_after n s st err md dur w1)"
  by (auto simp: reports_def result_after_def Let_def case_prod_beta intro: keeps_clock_time)

lemmas report_intros = reports_since reports_after keeps_clock_time keeps_clock_env keeps_clock_refl

lemma checker_reports:
  assumes "\<And>w. reports n s w (run w)"
  shows "checker run n s"
  using assms by (unfold_locales) (simp_all add: reports_def)

lemma http_reports: "reports (hc_name c) (hc_service c) w (http_run pb c w)"
  by (auto simp: http_run_def Let_def case_prod_beta intro!: report_intros split: option.splits sum.splits)

lemma tcp_reports: "reports (tcp_name c) (tcp_service c) w (tcp_run pb c w)"
  by (auto simp: tcp_run_def Let_def case_prod_beta intro!: report_intros split: option.splits)

lemma cpu_reports: "reports (cpu_name c) (cpu_service c) w (cpu_run pb c w)"
  by (auto simp: cpu_run_def Let_def case_prod_beta intro!: report_intros)

lemma memory_reports: "reports (mem_name c) (mem_service c) w (memory_run pb c w)"
  by (auto simp: memory_run_def Let_def case_prod_beta intro!: report_intros split: sum.splits)

lemma disk_reports: "reports (dk_name c) (dk_service c) w (disk_run pb c w)"
  by (auto simp: disk_run_def Let_def case_prod_beta intro!: report_intros split: sum.splits)

lemma systemd_verdict:
  "(snd (snd (fst (check_systemd_service pb c w))) = None \<longleftrightarrow>
      fst (fst (check_systemd_service pb c w)) = CheckHealthy)
   \<and> keeps_clock w (snd (check_systemd_service pb c w))"
  by (auto simp: check_systemd_service_def Let_def case_prod_beta split: option.splits)

lemma process_verdict:
  "(snd (snd (fst (check_process_by_name pb c w))) = None \<longleftrightarrow>
      fst (fst (check_process_by_name pb c w)) = CheckHealthy)
   \<and> keeps_clock w (snd (check_process_by_name pb c w))"
  by (auto simp: check_process_by_name_def Let_def case_prod_beta split: option.splits sum.splits)

lemma process_reports: "reports (pc_name c) (pc_service c) w (process_run pb c w)"
proof -
  let ?w1 = "snd (time_now w)"
  note sv = systemd_verdict [of pb c ?w1] and pv = process_verdict [of pb c ?w1]
  have "keeps_clock w (snd (check_systemd_service pb c ?w1))"
    "keeps_clock w (snd (check_process_by_name pb c ?w1))"
    by (rule keeps_clock_trans [OF keeps_clock_time_now conjunct2 [OF sv]],
        rule keeps_clock_trans [OF keeps_clock_time_now conjunct2 [OF pv]])
  with sv pv show ?thesis
    by (simp add: process_run_def Let_def case_prod_beta reports_since)
qed

lemma cert_verdict_error: "snd (cert_verdict d t) = None \<longleftrightarrow> fst (cert_verdict d t) = CheckHealthy"
  by (simp add: cert_verdict_def)

lemma get_cert_clock:
  "keeps_clock w (snd (get_cert_from_url pb c w))" "keeps_clock w (snd (get_cert_from_file pb c w))"
  by (simp_all add: get_cert_from_url_def get_cert_from_file_def Let_def case_prod_beta)

lemma certificate_reports: "reports (crt_name c) (crt_service c) w (certificate_run pb c w)"
proof -
  let ?w1 = "snd (time_now w)"
  have "keeps_clock w (snd (get_cert_from_url pb c ?w1))" "keeps_clock w (snd (get_cert_from_file pb c ?w1))"
    by (rule keeps_clock_trans [OF keeps_clock_time_now get_cert_clock(1)],
        rule keeps_clock_trans [OF keeps_clock_time_now get_cert_clock(2)])
  then show ?thesis
    by (auto simp: certificate_run_def Let_def case_prod_beta cert_verdict_error
        intro!: reports_since keeps_clock_time keeps_clock_refl split: sum.splits)
qed

lemma evaluate_state_error: "snd (evaluate_state n st) = None \<longleftrightarrow> fst (evaluate_state n st) = CheckHealthy"
  by (auto simp: evaluate_state_def split: option.splits)

lemma docker_container_reports:
  "reports (dc_name c) (dc_service c) w (docker_container_run pb c w)"
  by (auto simp: docker_container_run_def Let_def case_prod_beta evaluate_state_error
      intro!: report_intros split: option.splits sum.splits)

lemma evaluate_swarm_error: "snd (evaluate_swarm si) = None \<longleftrightarrow> fst (evaluate_swarm si) = CheckHealthy"
  by (simp add: evaluate_swarm_def)

lemma docker_swarm_reports: "reports (dsw_name c) (dsw_service c) w (docker_swarm_run pb c w)"
  by (auto simp: docker_swarm_run_def Let_def case_prod_beta evaluate_swarm_error
      intro!: report_intros split: option.splits sum.splits)

interpretation http_ck: checker "http_run pb c" "hc_name c" "hc_service c"
  for pb :: "'e probes" and c
  by (rule checker_reports) (rule http_reports)

interpretation tcp_ck: checker "tcp_run pb c" "tcp_name c" "tcp_service c"
  for pb :: "'e probes" and c
  by (rule checker_reports) (rule tcp_reports)

interpretation cpu_ck: checker "cpu_run pb c" "cpu_name c" "cpu_service c"
  for pb :: "'e probes" and c
  by (rule checker_reports) (rule cpu_reports)

interpretation memory_ck: checker "memory_run pb c" "mem_name c" "mem_service c"
  for pb :: "'e probes" and c
  by (rule checker_reports) (rule memory_reports)

interpretation disk_ck: checker "disk_run pb c" "dk_name c" "dk_service c"
  for pb :: "'e probes" and c
  by (rule checker_reports) (rule disk_reports)

interpretation process_ck: checker "process_run pb c" "pc_name c" "pc_service c"
  for pb :: "'e probes" and c
  by (rule checker_reports) (rule process_reports)

interpretation cert_ck: checker "certificate_run pb c" "crt_name c" "crt_service c"
  for pb :: "'e probes" and c
  by (rule checker_reports) (rule certificate_reports)

interpretation container_ck: checker "docker_container_run pb c" "dc_name c" "dc_service c"
  for pb :: "'e probes" and c
  by (rule checker_reports) (rule docker_container_reports)

interpretation swarm_ck: checker "docker_swarm_run pb c" "dsw_name c" "dsw_service c"
  for pb :: "'e probes" and c
  by (rule checker_reports) (rule docker_swarm_reports)

section \<open>Verdicts\<close>

text \<open>
  A service name that passes is made of systemd's characters and is not a directory; it may start
  with a dash.
\<close>

lemma first_bad_rune_None: "first_bad_rune s = None \<longleftrightarrow> (\<forall>r \<in> set s. is_valid_service_rune r)"
  by (induction s) auto

lemma validate_service_name_None:
  "validate_service_name s = None \<longleftrightarrow>
     (\<forall>r \<in> set s. is_valid_service_rune r) \<and> s \<noteq> '''' \<and> s \<noteq> ''.'' \<and> s \<noteq> ''..''"
  by (auto simp: validate_service_name_def first_bad_rune_None [symmetric] split: option.splits)

lemma find_process_Some:
  "(\<exists>pid. find_process name ps = Some pid) \<longleftrightarrow>
     (\<exists>p \<in> set ps. \<exists>n. pi_Name p = Inr n \<and> contains (to_lower n) (to_lower name))"
  by (induction ps) (auto split: sum.splits)

text \<open>
  The days until the expiry: never fewer than the whole days left, and not more than them unless the
  time left is within a \<open>2^-51\<close> part below a whole number of days. Days of \<open>float64\<close> hours are thus
  exact up to 26, and the last nanoseconds of the day before are lost by and by after that.
\<close>

lemma days_until_le:
  assumes d: "d = time_sub t now" and n: "0 < n" "n * (24 * go_Hour) \<le> d"
  shows "n \<le> days_until now t"
proof -
  have d0: "0 \<le> d" "d \<le> 2 ^ 63" using n by (auto simp: d time_sub_def)
  have "24 * n \<le> d div go_Hour" using n(2) by (subst int_le_div_iff) simp_all
  then have "(of_int (24 * n) :: rat) \<le> of_int (d div go_Hour)" by (simp only: of_int_le_iff)
  with hours_bounds(1) [OF d0] have "of_int n \<le> duration_hours d / 24" by simp
  moreover have "0 \<le> duration_hours d" using hours_bounds(4) [OF d0] by (auto intro: order_trans [rotated])
  ultimately have "of_int n \<le> f64 (duration_hours d / 24)"
    using hours_bounds(2) [OF d0] by (intro f64_ge) simp_all
  then have "n \<le> \<lfloor>f64 (duration_hours d / 24)\<rfloor>" by (simp only: le_floor_iff)
  with n(1) show ?thesis by (simp add: days_until_def float_to_int_def flip: d) linarith
qed

lemma days_until_less:
  assumes d: "d = time_sub t now" and n: "0 < n" "n * (24 * go_Hour) < 2 ^ 51 * (n * (24 * go_Hour) - d)"
  shows "days_until now t < n"
proof (cases "0 \<le> d")
  case True
  have d0: "0 \<le> d" "d \<le> 2 ^ 63" using True by (auto simp: d time_sub_def)
  let ?h = "duration_hours d" and ?D = "of_int d / 86400000000000 :: rat"
  have h0: "0 \<le> ?h" using hours_bounds(4) [OF d0] by (auto intro: order_trans [rotated])
  have "?h / 24 \<le> ?D * (1 + 1 / 2 ^ 53) ^ 2" using hours_bounds(3) [OF d0] by simp
  moreover have "f64 (?h / 24) \<le> ?h / 24 * (1 + 1 / 2 ^ 53)"
    using hours_bounds(4) [OF d0] f64_error(2) [of "?h / 24"] by auto
  ultimately have "f64 (?h / 24) \<le> ?D * (1 + 1 / 2 ^ 53) ^ 2 * (1 + 1 / 2 ^ 53)"
    by (meson mult_right_mono order_trans zero_le_divide_1_iff zero_le_power add_nonneg_nonneg
        zero_le_one zero_le_numeral)
  also have "\<dots> = ?D * ((1 + 1 / 2 ^ 53) ^ 2 * (1 + 1 / 2 ^ 53))" by (simp only: mult.assoc)
  also have "\<dots> \<le> ?D * (1 + 1 / 2 ^ 51)"
    using True by (intro mult_left_mono) (simp_all add: power2_eq_square)
  finally have up: "f64 (?h / 24) \<le> ?D * (1 + 1 / 2 ^ 51)" .
  have "2 ^ 51 * d < (2 ^ 51 - 1) * (n * (24 * go_Hour))" using n(2) by simp
  then have "(of_int (2 ^ 51 * d) :: rat) < of_int ((2 ^ 51 - 1) * (n * (24 * go_Hour)))"
    by (simp only: of_int_less_iff)
  then have "?D < of_int n * (1 - 1 / 2 ^ 51)" by simp
  then have "?D * (1 + 1 / 2 ^ 51) < of_int n * (1 - 1 / 2 ^ 51) * (1 + 1 / 2 ^ 51)"
    by (rule mult_strict_right_mono) simp
  also have "\<dots> \<le> of_int n" using n(1) by simp
  finally have "f64 (?h / 24) < of_int n" using up by (rule le_less_trans [rotated])
  moreover have "0 \<le> f64 (?h / 24)" using hours_bounds(2) [OF d0] h0 by (intro f64_nonneg) simp_all
  ultimately show ?thesis by (simp add: days_until_def float_to_int_def floor_less_iff flip: d)
next
  case False
  have d0: "0 \<le> - d" "- d \<le> 2 ^ 63" using False by (auto simp: d time_sub_def)
  let ?h = "duration_hours (- d)"
  have h0: "0 \<le> ?h" using hours_bounds(4) [OF d0] by (auto intro: order_trans [rotated])
  have "duration_hours d = - ?h" by (simp add: duration_hours_def duration_in_minus)
  moreover have "0 \<le> f64 (?h / 24)" using hours_bounds(2) [OF d0] h0 by (intro f64_nonneg) simp_all
  ultimately have "float_to_int (f64 (duration_hours d / 24)) \<le> 0"
    by (auto simp: float_to_int_def f64_minus ceiling_le_iff)
  with n(1) show ?thesis by (simp add: days_until_def flip: d)
qed

lemma cert_verdict_status:
  assumes "d = time_sub t now" and "0 < threshold"
    and "threshold * (24 * go_Hour) \<le> d
         \<or> threshold * (24 * go_Hour) < 2 ^ 51 * (threshold * (24 * go_Hour) - d)"
  shows "fst (cert_verdict (days_until now t) threshold) =
    (if threshold * (24 * go_Hour) \<le> d then CheckHealthy
     else if 24 * go_Hour \<le> d then CheckDegraded else CheckFailed)"
proof -
  have "threshold \<le> days_until now t \<longleftrightarrow> threshold * (24 * go_Hour) \<le> d"
    using days_until_le [OF assms(1,2)] days_until_less [OF assms(1,2)] assms(3) by fastforce
  moreover have "1 \<le> days_until now t \<longleftrightarrow> 24 * go_Hour \<le> d"
    using days_until_le [OF assms(1), of 1] days_until_less [OF assms(1), of 1] by fastforce
  moreover have "24 * go_Hour \<le> threshold * (24 * go_Hour)" using assms(2) by simp
  ultimately show ?thesis unfolding cert_verdict_def by auto
qed

text \<open>A nanosecond less than 365 days counts as 365 days.\<close>

lemma days_until_year:
  assumes "time_sub t now = 365 * (24 * go_Hour) - 1"
  shows "days_until now t = 365"
proof -
  have "f64 (3599999999999 / 3600000000000) = of_int (rne (3599999999999 / 3600000000000 * 2 ^ 53)) / 2 ^ 53"
    using f64_binade [of 1021 "3599999999999 / 3600000000000"] by simp
  also have "rne (3599999999999 / 3600000000000 * 2 ^ 53) = 9007199254738490"
    by (rule rne_eqI) simp_all
  finally have f: "f64 (3599999999999 / 3600000000000) = 9007199254738490 / 2 ^ 53" by simp
  have "f64 (8759 + 9007199254738490 / 2 ^ 53) = of_int (rne ((8759 + 9007199254738490 / 2 ^ 53) * 2 ^ 39)) / 2 ^ 39"
    using f64_binade [of 1035 "8759 + 9007199254738490 / 2 ^ 53"] by simp
  also have "rne ((8759 + 9007199254738490 / 2 ^ 53) * 2 ^ 39) = 8760 * 2 ^ 39"
    by (rule rne_eqI) simp_all
  finally have g: "f64 (8759 + 9007199254738490 / 2 ^ 53) = 8760" by simp
  have "duration_hours (365 * (24 * go_Hour) - 1) = f64 (8759 + f64 (3599999999999 / 3600000000000))"
    by (subst hours_parts(1)) simp_all
  also have "\<dots> = 8760" unfolding f by (rule g)
  finally have "duration_hours (365 * (24 * go_Hour) - 1) / 24 = of_int 365" by simp
  then have "f64 (duration_hours (365 * (24 * go_Hour) - 1) / 24) = of_int 365"
    using f64_of_int [of 365] by simp
  then show ?thesis by (simp add: days_until_def assms float_to_int_def)
qed

lemma evaluate_state_status:
  "fst (evaluate_state n (Some st)) =
    (if cs_Status st = ''running''
     then (if \<exists>h. cs_Health st = Some h \<and> ch_Status h = ''unhealthy'' then CheckDegraded else CheckHealthy)
     else if cs_Status st \<in> {''paused'', ''restarting'', ''created''} then CheckDegraded else CheckFailed)"
  by (auto simp: evaluate_state_def split: option.splits)

text \<open>
  An active swarm without an error is healthy from half of an even number of managers on: two of four
  pass, though two are no majority.
\<close>

lemma evaluate_swarm_healthy:
  assumes "0 \<le> sw_Managers si"
  shows "fst (evaluate_swarm si) = CheckHealthy \<longleftrightarrow>
     sw_LocalNodeState si = ''active'' \<and> sw_Error si = '''' \<and> sw_Managers si \<le> 2 * int (sw_RemoteManagers si)"
proof -
  have "int (sw_RemoteManagers si) < (sw_Managers si + 1) div 2 \<longleftrightarrow> \<not> sw_Managers si \<le> 2 * int (sw_RemoteManagers si)"
    by presburger
  then show ?thesis
    using assms by (auto simp: evaluate_swarm_def go_quot_pos)
qed

lemma float_gt_NaN: "\<not> float_gt u NaN"
  by (cases u) simp_all

end
