(* ===== verification/Scheduler.thy ===== *)
theory Scheduler
  imports Checks
begin

text \<open>
  The check scheduler (\<open>internal/checks/scheduler.go\<close>): the list of scheduled checks, and one run
  from \<open>Start\<close> to \<open>Stop\<close> as a step relation over its goroutines. One ticker per check feeds
  the jobs channel, the workers take jobs, run the check and deliver the result; a \<open>select\<close> with
  several ready branches takes any of them. A job is the position of its check in the list.
  \<open>Start\<close> and \<open>Stop\<close> may overlap, as they do when the agent is stopped while it starts. Left out is
  the panic of a wait group whose counter is raised from zero just while \<open>Wait\<close> returns.
\<close>

section \<open>The schedule\<close>

record ('err, 'e) scheduler =
  sd_workers :: int
  sd_checks :: "(('err, 'e) check \<times> duration) list"

definition new_scheduler :: "int \<Rightarrow> ('err, 'e) scheduler" where
  "new_scheduler workers = \<lparr>sd_workers = workers, sd_checks = []\<rparr>"

definition add_check :: "('err, 'e) check \<Rightarrow> duration \<Rightarrow> ('err, 'e) scheduler \<Rightarrow> ('err, 'e) scheduler" where
  "add_check c interval s = s\<lparr>sd_checks := sd_checks s @ [(c, interval)]\<rparr>"

section \<open>A run\<close>

text \<open>A ticker first sends, then waits for a tick, sends, and so on until it exits.\<close>

datatype ticker = TkSending | TkWaiting | TkExited

datatype 'err worker = WkIdle | WkRunning nat | WkDelivering "'err check_result" | WkExited

text \<open>Where \<open>Stop\<close> is: not called, waiting for the tickers, about to close the channel, waiting for the workers, done.\<close>

datatype stop_phase = NotStopping | AwaitTickers | ClosingJobs | AwaitWorkers | Stopped

text \<open>
  \<open>sn_tickers\<close> and \<open>sn_workers\<close> are the goroutines \<open>Start\<close> has launched by now, of
  \<open>length sn_checks\<close> and \<open>sn_pool\<close> in all; \<open>sn_started\<close> says that its critical section is over
  and \<open>sn_taken\<close> that \<open>Stop\<close> took a jobs channel. \<open>sn_early\<close> is not in the code: it records
  that \<open>Stop\<close> was called before \<open>Start\<close> had launched everything.
\<close>

record ('err, 'e) sched_run =
  sn_checks :: "('err, 'e) check list"
  sn_pool :: nat
  sn_started :: bool
  sn_cancelled :: bool
  sn_jobs :: "nat chan"
  sn_closed :: bool
  sn_panicked :: bool
  sn_tickers :: "ticker list"
  sn_workers :: "'err worker list"
  sn_results :: "'err check_result chan"
  sn_phase :: stop_phase
  sn_taken :: bool
  sn_early :: bool
  sn_world :: "'e world"

text \<open>Before \<open>Start\<close>; its critical section; and when it has returned.\<close>

definition new_run ::
  "('err, 'e) scheduler \<Rightarrow> 'err check_result chan \<Rightarrow> 'e world \<Rightarrow> ('err, 'e) sched_run" where
  "new_run s results w =
     \<lparr>sn_checks = map fst (sd_checks s), sn_pool = nat (sd_workers s), sn_started = False,
      sn_cancelled = False, sn_jobs = make_chan 0, sn_closed = False, sn_panicked = False,
      sn_tickers = [], sn_workers = [], sn_results = results, sn_phase = NotStopping,
      sn_taken = False, sn_early = False, sn_world = w\<rparr>"

definition begin_start :: "('err, 'e) sched_run \<Rightarrow> ('err, 'e) sched_run" where
  "begin_start s = s\<lparr>sn_started := True, sn_jobs := make_chan (length (sn_checks s))\<rparr>"

definition launched :: "('err, 'e) sched_run \<Rightarrow> bool" where
  "launched s \<longleftrightarrow> sn_started s \<and> length (sn_workers s) = sn_pool s
     \<and> length (sn_tickers s) = length (sn_checks s)"

definition begin_stop :: "('err, 'e) sched_run \<Rightarrow> ('err, 'e) sched_run" where
  "begin_stop s =
     s\<lparr>sn_cancelled := sn_cancelled s \<or> sn_started s, sn_taken := sn_started s,
       sn_early := \<not> launched s, sn_phase := AwaitTickers\<rparr>"

abbreviation set_ticker :: "nat \<Rightarrow> ticker \<Rightarrow> ('err, 'e) sched_run \<Rightarrow> ('err, 'e) sched_run" where
  "set_ticker i t s \<equiv> s\<lparr>sn_tickers := (sn_tickers s)[i := t]\<rparr>"

abbreviation set_worker :: "nat \<Rightarrow> 'err worker \<Rightarrow> ('err, 'e) sched_run \<Rightarrow> ('err, 'e) sched_run" where
  "set_worker j wk s \<equiv> s\<lparr>sn_workers := (sn_workers s)[j := wk]\<rparr>"

text \<open>
  \<open>Start\<close> holds the lock only in its critical section; it then launches the workers and after them
  the tickers, one by one. \<open>Stop\<close> may come at any time: it cancels the context and takes the jobs
  channel if there are any, waits for the tickers launched so far, closes the channel it took and waits
  for the workers launched so far. The context may also be cancelled from outside. A send on a closed
  channel panics, which ends the program; the model marks it and lets the other goroutines go on.
\<close>

inductive sched_step :: "('err, 'e) sched_run \<Rightarrow> ('err, 'e) sched_run \<Rightarrow> bool" where
  s_begin: "\<not> sn_started s \<Longrightarrow> sched_step s (begin_start s)"
| s_launch_worker: "sn_started s \<Longrightarrow> length (sn_workers s) < sn_pool s \<Longrightarrow>
    sched_step s (s\<lparr>sn_workers := sn_workers s @ [WkIdle]\<rparr>)"
| s_launch_ticker: "sn_started s \<Longrightarrow> length (sn_workers s) = sn_pool s \<Longrightarrow>
    length (sn_tickers s) < length (sn_checks s) \<Longrightarrow>
    sched_step s (s\<lparr>sn_tickers := sn_tickers s @ [TkSending]\<rparr>)"
| s_cancel: "sched_step s (s\<lparr>sn_cancelled := True\<rparr>)"
| s_stop: "sn_phase s = NotStopping \<Longrightarrow> sched_step s (begin_stop s)"
| s_tickers_done: "sn_phase s = AwaitTickers \<Longrightarrow> \<forall>t \<in> set (sn_tickers s). t = TkExited \<Longrightarrow>
    sched_step s (s\<lparr>sn_phase := ClosingJobs\<rparr>)"
| s_close: "sn_phase s = ClosingJobs \<Longrightarrow>
    sched_step s (s\<lparr>sn_closed := sn_taken s, sn_phase := AwaitWorkers\<rparr>)"
| s_workers_done: "sn_phase s = AwaitWorkers \<Longrightarrow> \<forall>w \<in> set (sn_workers s). w = WkExited \<Longrightarrow>
    sched_step s (s\<lparr>sn_phase := Stopped\<rparr>)"
| s_send: "i < length (sn_tickers s) \<Longrightarrow> sn_tickers s ! i = TkSending \<Longrightarrow> \<not> sn_closed s \<Longrightarrow>
    try_send i (sn_jobs s) = (True, c) \<Longrightarrow>
    sched_step s (set_ticker i TkWaiting (s\<lparr>sn_jobs := c\<rparr>))"
| s_send_closed: "i < length (sn_tickers s) \<Longrightarrow> sn_tickers s ! i = TkSending \<Longrightarrow> sn_closed s \<Longrightarrow>
    \<not> sn_panicked s \<Longrightarrow> sched_step s (s\<lparr>sn_panicked := True\<rparr>)"
| s_tick: "i < length (sn_tickers s) \<Longrightarrow> sn_tickers s ! i = TkWaiting \<Longrightarrow>
    sched_step s (set_ticker i TkSending s)"
| s_ticker_exit: "i < length (sn_tickers s) \<Longrightarrow> sn_tickers s ! i \<noteq> TkExited \<Longrightarrow> sn_cancelled s \<Longrightarrow>
    sched_step s (set_ticker i TkExited s)"
| s_take: "j < length (sn_workers s) \<Longrightarrow> sn_workers s ! j = WkIdle \<Longrightarrow>
    recv (sn_jobs s) = Some (i, c) \<Longrightarrow>
    sched_step s (set_worker j (WkRunning i) (s\<lparr>sn_jobs := c\<rparr>))"
| s_no_more: "j < length (sn_workers s) \<Longrightarrow> sn_workers s ! j = WkIdle \<Longrightarrow> sn_closed s \<Longrightarrow>
    recv (sn_jobs s) = None \<Longrightarrow>
    sched_step s (set_worker j WkExited s)"
| s_run: "j < length (sn_workers s) \<Longrightarrow> sn_workers s ! j = WkRunning i \<Longrightarrow> i < length (sn_checks s) \<Longrightarrow>
    ck_Run (sn_checks s ! i) (sn_world s) = (r, w) \<Longrightarrow>
    sched_step s (set_worker j (WkDelivering r) (s\<lparr>sn_world := w\<rparr>))"
| s_deliver: "j < length (sn_workers s) \<Longrightarrow> sn_workers s ! j = WkDelivering r \<Longrightarrow>
    try_send r (sn_results s) = (True, c) \<Longrightarrow>
    sched_step s (set_worker j WkIdle (s\<lparr>sn_results := c\<rparr>))"
| s_worker_exit: "j < length (sn_workers s) \<Longrightarrow> sn_workers s ! j = WkIdle \<or> sn_workers s ! j = WkDelivering r \<Longrightarrow>
    sn_cancelled s \<Longrightarrow>
    sched_step s (set_worker j WkExited s)"
| s_consume: "recv (sn_results s) = Some (r, c) \<Longrightarrow> sched_step s (s\<lparr>sn_results := c\<rparr>)"

inductive sched_reach :: "('err, 'e) sched_run \<Rightarrow> ('err, 'e) sched_run \<Rightarrow> bool" where
  sr_refl: "sched_reach s s"
| sr_step: "sched_reach s s' \<Longrightarrow> sched_step s' s'' \<Longrightarrow> sched_reach s s''"

inductive_cases sched_stepE: "sched_step s s'"

lemma sched_reach_trans:
  assumes "sched_reach a b" and "sched_reach b c"
  shows "sched_reach a c"
  using assms(2,1) by (induction rule: sched_reach.induct) (auto intro: sr_step)

lemma sched_reach_one: "sched_step s s' \<Longrightarrow> sched_reach s s'"
  by (rule sr_step [OF sr_refl])

lemma new_run_simps [simp]:
  "sn_checks (new_run sch results w) = map fst (sd_checks sch)" "sn_pool (new_run sch results w) = nat (sd_workers sch)"
  "sn_started (new_run sch results w) = False" "sn_results (new_run sch results w) = results"
  "sn_phase (new_run sch results w) = NotStopping" "sn_early (new_run sch results w) = False"
  "sn_workers (new_run sch results w) = []" "sn_tickers (new_run sch results w) = []"
  by (simp_all add: new_run_def)

section \<open>Invariant\<close>

text \<open>
  Unless \<open>Stop\<close> came before everything was launched, the channel is closed only when every ticker
  has exited, so nothing is sent on it afterwards, and \<open>Stop\<close> returns when every worker has exited.
  In any case jobs name scheduled checks and stay within the channel's capacity, which is one place
  per check; results are results of scheduled checks.
\<close>

definition of_check :: "('err, 'e) check list \<Rightarrow> 'err check_result \<Rightarrow> bool" where
  "of_check cs r \<longleftrightarrow> (\<exists>c \<in> set cs. \<exists>w. r = fst (ck_Run c w))"

definition worker_ok :: "('err, 'e) check list \<Rightarrow> 'err worker \<Rightarrow> bool" where
  "worker_ok cs wk \<longleftrightarrow> (\<forall>i. wk = WkRunning i \<longrightarrow> i < length cs) \<and> (\<forall>r. wk = WkDelivering r \<longrightarrow> of_check cs r)"

definition orderly :: "('err, 'e) sched_run \<Rightarrow> bool" where
  "orderly s \<longleftrightarrow>
     \<not> sn_panicked s
     \<and> (sn_phase s \<noteq> NotStopping \<longrightarrow> launched s \<and> sn_cancelled s)
     \<and> (sn_closed s \<longrightarrow> sn_phase s = AwaitWorkers \<or> sn_phase s = Stopped)
     \<and> (sn_phase s \<noteq> NotStopping \<and> sn_phase s \<noteq> AwaitTickers \<longrightarrow> (\<forall>t \<in> set (sn_tickers s). t = TkExited))
     \<and> (sn_phase s = Stopped \<longrightarrow> (\<forall>w \<in> set (sn_workers s). w = WkExited))"

definition stop_ok :: "('err, 'e) sched_run \<Rightarrow> bool" where
  "stop_ok s \<longleftrightarrow> sn_early s \<or> orderly s"

definition data_ok :: "('err, 'e) sched_run \<Rightarrow> bool" where
  "data_ok s \<longleftrightarrow>
     length (sn_tickers s) \<le> length (sn_checks s) \<and> length (sn_workers s) \<le> sn_pool s
     \<and> chan_ok (sn_jobs s) \<and> ch_cap (sn_jobs s) = (if sn_started s then length (sn_checks s) else 0)
     \<and> (\<forall>i \<in> set (ch_buf (sn_jobs s)). i < length (sn_checks s))
     \<and> (\<forall>wk \<in> set (sn_workers s). worker_ok (sn_checks s) wk)"

text \<open>\<open>sn_early\<close> is settled when \<open>Stop\<close> is called.\<close>

definition early_ok :: "('err, 'e) sched_run \<Rightarrow> bool" where
  "early_ok s \<longleftrightarrow> (sn_early s \<longrightarrow> sn_phase s \<noteq> NotStopping)"

definition sched_ok :: "('err, 'e) sched_run \<Rightarrow> bool" where
  "sched_ok s \<longleftrightarrow> stop_ok s \<and> early_ok s \<and> data_ok s"

lemma sched_ok_new: "sched_ok (new_run s res w)"
  by (auto simp: sched_ok_def stop_ok_def early_ok_def orderly_def data_ok_def new_run_def make_chan_def chan_ok_def)

lemma set_list_update: "x \<in> set (xs[i := y]) \<Longrightarrow> x = y \<or> x \<in> set xs"
  using set_update_subset_insert [of xs i y] by auto

lemma recv_Some: "recv c = Some (x, c') \<longleftrightarrow> ch_buf c = x # ch_buf c' \<and> ch_cap c' = ch_cap c"
  by (cases c; cases c') (auto simp: recv_def split: list.splits)

lemma try_send_True: "try_send x c = (True, c') \<longleftrightarrow> length (ch_buf c) < ch_cap c \<and> c' = c\<lparr>ch_buf := ch_buf c @ [x]\<rparr>"
  by (auto simp: try_send_def)

lemma launched_frame [simp]:
  "launched (set_ticker i t s) = launched s" "launched (set_worker j wk s) = launched s"
  "launched (s\<lparr>sn_jobs := c\<rparr>) = launched s" "launched (s\<lparr>sn_world := w\<rparr>) = launched s"
  "launched (s\<lparr>sn_results := r\<rparr>) = launched s" "launched (s\<lparr>sn_cancelled := b\<rparr>) = launched s"
  "launched (s\<lparr>sn_phase := p\<rparr>) = launched s" "launched (s\<lparr>sn_closed := b\<rparr>) = launched s"
  "launched (s\<lparr>sn_panicked := b\<rparr>) = launched s"
  by (simp_all add: launched_def)

lemma orderly_ticker:
  assumes "orderly s" and "i < length (sn_tickers s)" and "sn_tickers s ! i \<noteq> TkExited"
  shows "\<not> sn_closed s" and "sn_phase s = NotStopping \<or> sn_phase s = AwaitTickers"
proof -
  show "sn_phase s = NotStopping \<or> sn_phase s = AwaitTickers"
    using assms nth_mem [OF assms(2)] unfolding orderly_def by blast
  with assms(1) show "\<not> sn_closed s" unfolding orderly_def by auto
qed

lemma orderly_worker:
  assumes "orderly s" and "j < length (sn_workers s)" and "sn_workers s ! j \<noteq> WkExited"
  shows "sn_phase s \<noteq> Stopped"
  using assms nth_mem [OF assms(2)] unfolding orderly_def by blast

lemma orderly_set_ticker:
  assumes "orderly s" and "i < length (sn_tickers s)" and "sn_tickers s ! i \<noteq> TkExited"
  shows "orderly (set_ticker i t s)"
  using assms(1) orderly_ticker [OF assms] unfolding orderly_def by auto

lemma orderly_set_worker:
  assumes "orderly s" and "j < length (sn_workers s)" and "sn_workers s ! j \<noteq> WkExited"
  shows "orderly (set_worker j wk s)"
  using assms(1) orderly_worker [OF assms] unfolding orderly_def by auto

lemma orderly_frame:
  "orderly (s\<lparr>sn_jobs := c\<rparr>) = orderly s" "orderly (s\<lparr>sn_world := w\<rparr>) = orderly s"
  "orderly (s\<lparr>sn_results := r\<rparr>) = orderly s"
  by (simp_all add: orderly_def)

lemma orderly_step:
  assumes "sched_step s s'" and ok: "orderly s" and "\<not> sn_early s'"
  shows "orderly s'"
  using assms(1)
proof cases
  case s_stop
  with ok assms(3) show ?thesis by (auto simp: orderly_def begin_stop_def launched_def)
next
  case (s_send i c)
  with ok orderly_set_ticker [of "s\<lparr>sn_jobs := c\<rparr>" i] show ?thesis by (simp add: orderly_frame)
next
  case (s_send_closed i)
  with orderly_ticker(1) [OF ok, of i] show ?thesis by simp
next
  case (s_tick i)
  with orderly_set_ticker [OF ok] show ?thesis by simp
next
  case (s_ticker_exit i)
  with orderly_set_ticker [OF ok] show ?thesis by simp
next
  case (s_take j i c)
  with ok orderly_set_worker [of "s\<lparr>sn_jobs := c\<rparr>" j] show ?thesis by (simp add: orderly_frame)
next
  case (s_no_more j)
  with orderly_set_worker [OF ok] show ?thesis by simp
next
  case (s_run j i r w)
  with ok orderly_set_worker [of "s\<lparr>sn_world := w\<rparr>" j] show ?thesis by (simp add: orderly_frame)
next
  case (s_deliver j r c)
  with ok orderly_set_worker [of "s\<lparr>sn_results := c\<rparr>" j] show ?thesis by (simp add: orderly_frame)
next
  case (s_worker_exit j r)
  with orderly_set_worker [OF ok, of j] show ?thesis by auto
qed (use ok in \<open>auto simp: orderly_def begin_start_def launched_def\<close>)

lemma early_step: "sched_step s s' \<Longrightarrow> sn_phase s \<noteq> NotStopping \<Longrightarrow> sn_early s \<Longrightarrow> sn_early s'"
  by (erule sched_stepE) (auto simp: begin_start_def)

lemma stop_ok_step:
  assumes st: "sched_step s s'" and ok: "stop_ok s" "early_ok s"
  shows "stop_ok s'" and "early_ok s'"
proof -
  show "stop_ok s'"
  proof (cases "sn_early s")
    case True
    with early_step [OF st] ok(2) show ?thesis by (simp add: stop_ok_def early_ok_def)
  next
    case False
    with orderly_step [OF st] ok(1) show ?thesis by (auto simp: stop_ok_def)
  qed
  show "early_ok s'"
    using st ok(2) by cases (auto simp: early_ok_def begin_start_def begin_stop_def)
qed

lemma data_ok_worker: "data_ok s \<Longrightarrow> j < length (sn_workers s) \<Longrightarrow> worker_ok (sn_checks s) (sn_workers s ! j)"
  by (simp add: data_ok_def)

lemma data_ok_set_worker:
  "data_ok s \<Longrightarrow> worker_ok (sn_checks s) wk \<Longrightarrow> data_ok (set_worker j wk s)"
  by (auto simp: data_ok_def dest!: set_list_update)

lemma data_ok_frame:
  "data_ok (set_ticker i t s) = data_ok s" "data_ok (s\<lparr>sn_world := w\<rparr>) = data_ok s"
  "data_ok (s\<lparr>sn_results := r\<rparr>) = data_ok s" "data_ok (s\<lparr>sn_cancelled := b\<rparr>) = data_ok s"
  "data_ok (s\<lparr>sn_closed := b\<rparr>) = data_ok s" "data_ok (s\<lparr>sn_phase := p\<rparr>) = data_ok s"
  "data_ok (s\<lparr>sn_panicked := b\<rparr>) = data_ok s" "data_ok (begin_stop s) = data_ok s"
  by (simp_all add: data_ok_def begin_stop_def)

lemma data_ok_jobs:
  "data_ok s \<Longrightarrow> chan_ok c \<Longrightarrow> ch_cap c = ch_cap (sn_jobs s) \<Longrightarrow>
     \<forall>i \<in> set (ch_buf c). i < length (sn_checks s) \<Longrightarrow> data_ok (s\<lparr>sn_jobs := c\<rparr>)"
  by (simp add: data_ok_def)

lemma data_ok_step:
  assumes "sched_step s s'" and ok: "data_ok s"
  shows "data_ok s'"
  using assms(1)
proof cases
  case s_begin
  with ok show ?thesis by (simp add: data_ok_def begin_start_def make_chan_def chan_ok_def)
next
  case s_launch_worker
  with ok show ?thesis by (simp add: data_ok_def worker_ok_def)
next
  case s_launch_ticker
  with ok show ?thesis by (simp add: data_ok_def)
next
  case (s_send i c)
  with ok have "i < length (sn_checks s)" by (simp add: data_ok_def)
  with s_send ok have "data_ok (s\<lparr>sn_jobs := c\<rparr>)"
    by (intro data_ok_jobs) (auto simp: try_send_True data_ok_def chan_ok_def)
  with s_send data_ok_frame(1) [where s = "s\<lparr>sn_jobs := c\<rparr>" and i = i and t = TkWaiting] show ?thesis by simp
next
  case (s_take j i c)
  with ok have "data_ok (s\<lparr>sn_jobs := c\<rparr>)"
    by (intro data_ok_jobs) (auto simp: recv_Some data_ok_def chan_ok_def)
  moreover have "worker_ok (sn_checks s) (WkRunning i)"
    using s_take ok by (simp add: recv_Some data_ok_def worker_ok_def)
  ultimately show ?thesis
    using data_ok_set_worker [of "s\<lparr>sn_jobs := c\<rparr>" "WkRunning i" j] s_take by simp
next
  case (s_run j i r w)
  then have "of_check (sn_checks s) r" unfolding of_check_def by (metis fst_conv nth_mem)
  then show ?thesis
    using data_ok_set_worker [of "s\<lparr>sn_world := w\<rparr>" "WkDelivering r" j] s_run ok
    by (simp add: data_ok_frame worker_ok_def)
next
  case (s_deliver j r c)
  then show ?thesis
    using data_ok_set_worker [of "s\<lparr>sn_results := c\<rparr>" WkIdle j] ok
    by (simp add: data_ok_frame worker_ok_def)
next
  case (s_no_more j)
  with data_ok_set_worker [OF ok, of WkExited j] show ?thesis by (simp add: worker_ok_def)
next
  case (s_worker_exit j r)
  with data_ok_set_worker [OF ok, of WkExited j] show ?thesis by (simp add: worker_ok_def)
next
  case s_close
  with ok show ?thesis by (simp add: data_ok_def)
qed (use ok in \<open>simp_all add: data_ok_frame\<close>)

lemma sched_ok_step: "sched_step s s' \<Longrightarrow> sched_ok s \<Longrightarrow> sched_ok s'"
  using stop_ok_step [of s s'] data_ok_step [of s s'] by (simp add: sched_ok_def)

lemma sched_ok_reach: "sched_reach s s' \<Longrightarrow> sched_ok s \<Longrightarrow> sched_ok s'"
  by (induction rule: sched_reach.induct) (auto intro: sched_ok_step)

lemma sched_checks_reach: "sched_reach s s' \<Longrightarrow> sn_checks s' = sn_checks s"
proof (induction rule: sched_reach.induct)
  case (sr_step s s' s'')
  from sr_step(2) have "sn_checks s'' = sn_checks s'"
    by (rule sched_stepE) (simp_all add: begin_start_def begin_stop_def)
  with sr_step show ?case by simp
qed simp

text \<open>Every delivered result is the result of a scheduled check.\<close>

lemma delivered_step:
  assumes "sched_step s s'" and "sched_ok s"
  shows "set (ch_buf (sn_results s')) \<subseteq> set (ch_buf (sn_results s)) \<union> {r. of_check (sn_checks s) r}"
  using assms(1)
proof cases
  case (s_deliver j r c)
  then have "of_check (sn_checks s) r"
    using assms(2) data_ok_worker [of s j] by (simp add: sched_ok_def worker_ok_def)
  with s_deliver show ?thesis by (auto simp: try_send_True)
next
  case (s_consume r c)
  then show ?thesis by (auto simp: recv_Some)
qed (auto simp: begin_start_def begin_stop_def)

lemma results_step:
  assumes "sched_step s s'" and "sched_ok s" and "\<forall>r \<in> set (ch_buf (sn_results s)). of_check (sn_checks s) r"
  shows "\<forall>r \<in> set (ch_buf (sn_results s')). of_check (sn_checks s') r"
  using delivered_step [OF assms(1,2)] assms(3) sched_checks_reach [OF sched_reach_one [OF assms(1)]] by auto

lemma results_reach:
  assumes "sched_reach s s'" and "sched_ok s" and "ch_buf (sn_results s) = []"
  shows "\<forall>r \<in> set (ch_buf (sn_results s')). of_check (sn_checks s) r"
proof -
  have "\<forall>r \<in> set (ch_buf (sn_results s')). of_check (sn_checks s') r"
    using assms
  proof (induction rule: sched_reach.induct)
    case (sr_step s s' s'')
    with sched_ok_reach [OF sr_step(1)] results_step [OF sr_step(2)] show ?case by blast
  qed simp
  then show ?thesis using sched_checks_reach [OF assms(1)] by simp
qed

section \<open>Stopping\<close>

text \<open>
  Once the context is cancelled, \<open>Stop\<close> can come to an end: the tickers and the workers can exit one
  by one, whatever the channels hold, and nothing else is waited for.
\<close>

lemma tickers_exit:
  assumes "sn_cancelled s"
  shows "\<exists>s'. sched_reach s s' \<and> (\<forall>t \<in> set (sn_tickers s'). t = TkExited)
     \<and> sn_workers s' = sn_workers s \<and> sn_phase s' = sn_phase s \<and> sn_cancelled s'
     \<and> launched s' = launched s \<and> sn_panicked s' = sn_panicked s"
  using assms
proof (induction "length (filter (\<lambda>t. t \<noteq> TkExited) (sn_tickers s))" arbitrary: s)
  case 0
  then have "\<forall>t \<in> set (sn_tickers s). t = TkExited" by (simp add: filter_empty_conv)
  with 0 show ?case by (intro exI [of _ s]) (simp add: sr_refl)
next
  case (Suc n)
  then obtain t where "t \<in> set (sn_tickers s)" "t \<noteq> TkExited"
    by (metis (mono_tags, lifting) Zero_not_Suc filter_False list.size(3))
  then obtain i where i: "i < length (sn_tickers s)" "sn_tickers s ! i \<noteq> TkExited"
    by (metis in_set_conv_nth)
  let ?s = "set_ticker i TkExited s"
  have step: "sched_step s ?s" by (rule s_ticker_exit [OF i Suc.prems])
  have "Suc (length (filter (\<lambda>t. t \<noteq> TkExited) ((sn_tickers s)[i := TkExited])))
      = length (filter (\<lambda>t. t \<noteq> TkExited) (sn_tickers s))"
    using filter_update_length [OF i(1), of "\<lambda>t. t \<noteq> TkExited" TkExited] i(2) by simp
  with Suc.hyps have "n = length (filter (\<lambda>t. t \<noteq> TkExited) (sn_tickers ?s))" by simp
  from Suc.hyps(1) [OF this] Suc.prems obtain s' where "sched_reach ?s s'"
    "\<forall>t \<in> set (sn_tickers s'). t = TkExited" "sn_workers s' = sn_workers s" "sn_phase s' = sn_phase s"
    "sn_cancelled s'" "launched s' = launched s" "sn_panicked s' = sn_panicked s" by auto
  with sched_reach_trans [OF sched_reach_one [OF step]] show ?case by blast
qed

lemma worker_exits:
  assumes "data_ok s" and "sn_cancelled s" and j: "j < length (sn_workers s)" "sn_workers s ! j \<noteq> WkExited"
  shows "\<exists>w. sched_reach s (set_worker j WkExited (s\<lparr>sn_world := w\<rparr>))"
proof (cases "sn_workers s ! j")
  case WkIdle
  with s_worker_exit [of j s] assms have "sched_step s (set_worker j WkExited s)" by blast
  then show ?thesis by (intro exI [of _ "sn_world s"]) (simp add: sched_reach_one)
next
  case (WkDelivering r)
  with s_worker_exit [of j s] assms have "sched_step s (set_worker j WkExited s)" by blast
  then show ?thesis by (intro exI [of _ "sn_world s"]) (simp add: sched_reach_one)
next
  case (WkRunning i)
  obtain r w where run: "ck_Run (sn_checks s ! i) (sn_world s) = (r, w)"
    by (cases "ck_Run (sn_checks s ! i) (sn_world s)")
  have "i < length (sn_checks s)" using data_ok_worker [OF assms(1) j(1)] WkRunning by (simp add: worker_ok_def)
  from s_run [OF j(1) WkRunning this run]
  have "sched_reach s (set_worker j (WkDelivering r) (s\<lparr>sn_world := w\<rparr>))" by (rule sched_reach_one)
  moreover have "sched_step (set_worker j (WkDelivering r) (s\<lparr>sn_world := w\<rparr>))
      (set_worker j WkExited (set_worker j (WkDelivering r) (s\<lparr>sn_world := w\<rparr>)))"
    by (rule s_worker_exit [where r = r]) (use j assms(2) in simp_all)
  ultimately have "sched_reach s (set_worker j WkExited (set_worker j (WkDelivering r) (s\<lparr>sn_world := w\<rparr>)))"
    by (rule sr_step)
  then show ?thesis by (intro exI [of _ w]) simp
qed (use j in simp)

lemma workers_exit:
  assumes "data_ok s" and "sn_cancelled s"
  shows "\<exists>s'. sched_reach s s' \<and> (\<forall>w \<in> set (sn_workers s'). w = WkExited) \<and> sn_phase s' = sn_phase s
     \<and> sn_tickers s' = sn_tickers s \<and> launched s' = launched s \<and> sn_panicked s' = sn_panicked s"
  using assms
proof (induction "length (filter (\<lambda>w. w \<noteq> WkExited) (sn_workers s))" arbitrary: s)
  case 0
  then have "\<forall>w \<in> set (sn_workers s). w = WkExited" by (simp add: filter_empty_conv)
  then show ?case by (intro exI [of _ s]) (simp add: sr_refl)
next
  case (Suc n)
  then obtain wk where "wk \<in> set (sn_workers s)" "wk \<noteq> WkExited"
    by (metis (mono_tags, lifting) Zero_not_Suc filter_False list.size(3))
  then obtain j where j: "j < length (sn_workers s)" "sn_workers s ! j \<noteq> WkExited"
    by (metis in_set_conv_nth)
  obtain w where w: "sched_reach s (set_worker j WkExited (s\<lparr>sn_world := w\<rparr>))"
    using worker_exits [OF Suc.prems j] by blast
  let ?s = "set_worker j WkExited (s\<lparr>sn_world := w\<rparr>)"
  have "n = length (filter (\<lambda>w. w \<noteq> WkExited) (sn_workers ?s))"
    using filter_update_length [OF j(1), of "\<lambda>w. w \<noteq> WkExited" WkExited] j(2) Suc.hyps(2) by simp
  moreover have "data_ok ?s"
    using data_ok_set_worker [of "s\<lparr>sn_world := w\<rparr>" WkExited j] Suc.prems
    by (simp add: data_ok_frame worker_ok_def)
  moreover have "launched ?s = launched s" by (simp add: launched_def)
  ultimately obtain s' where "sched_reach ?s s'" "\<forall>w \<in> set (sn_workers s'). w = WkExited"
    "sn_phase s' = sn_phase s" "sn_tickers s' = sn_tickers s" "launched s' = launched s"
    "sn_panicked s' = sn_panicked s"
    using Suc.hyps(1) [of ?s] Suc.prems by auto
  with sched_reach_trans [OF w] show ?case by blast
qed

definition stops_from :: "('err, 'e) sched_run \<Rightarrow> bool" where
  "stops_from s \<longleftrightarrow> (\<exists>s'. sched_reach s s' \<and> sn_phase s' = Stopped \<and> sn_panicked s' = sn_panicked s)"

lemma stops_from_step:
  "sched_step s s' \<Longrightarrow> sn_panicked s' = sn_panicked s \<Longrightarrow> stops_from s' \<Longrightarrow> stops_from s"
  unfolding stops_from_def by (metis sched_reach_one sched_reach_trans)

lemma awaiting_workers_stops:
  assumes "data_ok s" and "sn_cancelled s" and "sn_phase s = AwaitWorkers"
  shows "stops_from s"
proof -
  from workers_exit [OF assms(1,2)] assms(3) obtain s1 where s1: "sched_reach s s1"
    "\<forall>w \<in> set (sn_workers s1). w = WkExited" "sn_phase s1 = AwaitWorkers" "sn_panicked s1 = sn_panicked s"
    by auto
  with sr_step [OF s1(1) s_workers_done [OF s1(3,2)]] show ?thesis unfolding stops_from_def by force
qed

lemma closing_jobs_stops:
  assumes "data_ok s" and "sn_cancelled s" and "sn_phase s = ClosingJobs"
  shows "stops_from s"
  by (rule stops_from_step [OF s_close [OF assms(3)]])
    (use assms in \<open>simp_all add: awaiting_workers_stops data_ok_def\<close>)

lemma awaiting_tickers_stops:
  assumes "data_ok s" and "sn_cancelled s" and "sn_phase s = AwaitTickers"
  shows "stops_from s"
proof -
  from tickers_exit [OF assms(2)] assms(3) obtain s1 where s1: "sched_reach s s1"
    "\<forall>t \<in> set (sn_tickers s1). t = TkExited" "sn_phase s1 = AwaitTickers" "sn_cancelled s1"
    "sn_panicked s1 = sn_panicked s" by auto
  have "data_ok s1" using s1(1) assms(1) by (induction rule: sched_reach.induct) (auto intro: data_ok_step)
  then have "stops_from (s1\<lparr>sn_phase := ClosingJobs\<rparr>)"
    using s1(4) by (intro closing_jobs_stops) (simp_all add: data_ok_frame)
  then have "stops_from s1" by (rule stops_from_step [OF s_tickers_done [OF s1(3,2)], rotated]) simp
  with s1(1,5) show ?thesis unfolding stops_from_def by (metis sched_reach_trans)
qed

lemma stop_ends:
  assumes "data_ok s" and "sn_cancelled s" and "sn_phase s \<noteq> NotStopping"
  shows "stops_from s"
proof (cases "sn_phase s = Stopped")
  case True
  then show ?thesis unfolding stops_from_def using sr_refl by blast
next
  case False
  with assms awaiting_tickers_stops closing_jobs_stops awaiting_workers_stops show ?thesis
    by (cases "sn_phase s") simp_all
qed

text \<open>
  A second \<open>Start\<close> first cancels the run and waits until its tickers and workers have exited, then
  starts afresh on the same results channel; called after the first has returned, it never waits in
  vain.
\<close>

definition drained :: "('err, 'e) sched_run \<Rightarrow> bool" where
  "drained s \<longleftrightarrow> (\<forall>t \<in> set (sn_tickers s). t = TkExited) \<and> (\<forall>w \<in> set (sn_workers s). w = WkExited)"

definition restart ::
  "('err, 'e) scheduler \<Rightarrow> ('err, 'e) sched_run \<Rightarrow> ('err, 'e) sched_run option" where
  "restart sch s =
     (if launched s \<and> sn_cancelled s \<and> drained s
      then Some (begin_start (new_run sch (sn_results s) (sn_world s))) else None)"

lemma sched_cancelled_step: "sched_step s s' \<Longrightarrow> sn_cancelled s \<Longrightarrow> sn_cancelled s'"
  by (erule sched_stepE) (auto simp: begin_start_def begin_stop_def)

lemma sched_cancelled_reach: "sched_reach s s' \<Longrightarrow> sn_cancelled s \<Longrightarrow> sn_cancelled s'"
  by (induction rule: sched_reach.induct) (auto intro: sched_cancelled_step)

lemma restart_ready:
  assumes "sched_ok s" and "launched s"
  shows "\<exists>s' s''. sched_reach (s\<lparr>sn_cancelled := True\<rparr>) s' \<and> restart sch s' = Some s'' \<and> sched_ok s''"
proof -
  let ?s = "s\<lparr>sn_cancelled := True\<rparr>"
  have ok: "sched_ok ?s" by (rule sched_ok_step [OF s_cancel assms(1)])
  obtain s1 where s1: "sched_reach ?s s1" "\<forall>t \<in> set (sn_tickers s1). t = TkExited" "sn_cancelled s1" "launched s1"
    using tickers_exit [of ?s] assms(2) by auto
  have "data_ok s1" using sched_ok_reach [OF s1(1) ok] by (simp add: sched_ok_def)
  from workers_exit [OF this s1(3)] obtain s2 where s2: "sched_reach s1 s2"
    "\<forall>w \<in> set (sn_workers s2). w = WkExited" "sn_tickers s2 = sn_tickers s1" "launched s2 = launched s1" by blast
  have "restart sch s2 = Some (begin_start (new_run sch (sn_results s2) (sn_world s2)))"
    using s1 s2 sched_cancelled_reach [OF s2(1)] by (simp add: restart_def drained_def)
  moreover have "sched_ok (begin_start (new_run sch (sn_results s2) (sn_world s2)))"
    by (rule sched_ok_step [OF s_begin sched_ok_new]) simp
  ultimately show ?thesis using sched_reach_trans [OF s1(1) s2(1)] by blast
qed

text \<open>Once stopped, only the consumer of the results and the context act.\<close>

lemma stopped_quiet:
  assumes "sched_ok s" and "\<not> sn_early s" and "sn_phase s = Stopped" and "sched_step s s'"
  shows "sn_tickers s' = sn_tickers s \<and> sn_workers s' = sn_workers s \<and> sn_jobs s' = sn_jobs s"
proof -
  have "orderly s" using assms(1,2) by (simp add: sched_ok_def stop_ok_def)
  then have t: "i < length (sn_tickers s) \<Longrightarrow> sn_tickers s ! i = TkExited"
    and w: "j < length (sn_workers s) \<Longrightarrow> sn_workers s ! j = WkExited"
    and l: "launched s" for i j
    using assms(3) by (auto simp: orderly_def)
  show ?thesis
    using assms(4) by cases (use assms(3) t w l in \<open>auto simp: launched_def\<close>)
qed

section \<open>\<open>Stop\<close> during \<open>Start\<close>\<close>

text \<open>
  \<open>Stop\<close> between the critical section of \<open>Start\<close> and the launch of the tickers finds none to wait
  for and closes the channel; the first ticker then launched may choose the send, and panics.
\<close>

lemma workers_launched:
  assumes "sn_started s" and "length (sn_workers s) \<le> sn_pool s"
  shows "sched_reach s (s\<lparr>sn_workers := sn_workers s @ replicate (sn_pool s - length (sn_workers s)) WkIdle\<rparr>)"
  using assms
proof (induction "sn_pool s - length (sn_workers s)" arbitrary: s)
  case 0
  then show ?case by (simp add: sr_refl)
next
  case (Suc n)
  let ?s = "s\<lparr>sn_workers := sn_workers s @ [WkIdle]\<rparr>"
  have "sched_step s ?s" by (rule s_launch_worker) (use Suc in simp_all)
  moreover have "sched_reach ?s (?s\<lparr>sn_workers := sn_workers ?s @ replicate (sn_pool ?s - length (sn_workers ?s)) WkIdle\<rparr>)"
    by (rule Suc.hyps(1)) (use Suc in simp_all)
  moreover have "sn_pool s - length (sn_workers s) = Suc (sn_pool s - Suc (length (sn_workers s)))"
    using Suc.hyps(2) by linarith
  ultimately show ?case using sched_reach_trans [OF sched_reach_one] by simp
qed

lemma early_stop_panics:
  assumes "sd_checks sch \<noteq> []"
  shows "\<exists>s. sched_reach (new_run sch results w) s \<and> sn_panicked s"
proof -
  let ?b = "begin_start (new_run sch results w)"
  let ?t = "begin_stop ?b"
  let ?c = "?t\<lparr>sn_phase := ClosingJobs\<rparr>"
  let ?d = "?c\<lparr>sn_closed := True, sn_phase := AwaitWorkers\<rparr>"
  let ?e = "?d\<lparr>sn_workers := replicate (nat (sd_workers sch)) WkIdle\<rparr>"
  let ?f = "?e\<lparr>sn_tickers := [TkSending]\<rparr>"
  note defs = begin_start_def begin_stop_def new_run_def
  have "sched_step (new_run sch results w) ?b" by (rule s_begin) simp
  moreover have "sched_step ?b ?t" by (rule s_stop) (simp add: defs)
  moreover have "sched_step ?t ?c" by (rule s_tickers_done) (simp_all add: defs)
  moreover have "sched_step ?c ?d" using s_close [of ?c] by (simp add: defs)
  ultimately have "sched_reach (new_run sch results w) ?d" by (meson sr_refl sr_step)
  moreover have "sched_reach ?d ?e" using workers_launched [of ?d] by (simp add: defs)
  moreover have "sched_step ?e ?f" using s_launch_ticker [of ?e] assms by (simp add: defs)
  moreover have "sched_step ?f (?f\<lparr>sn_panicked := True\<rparr>)" by (rule s_send_closed [of 0]) (simp_all add: defs)
  ultimately have "sched_reach (new_run sch results w) (?f\<lparr>sn_panicked := True\<rparr>)"
    by (meson sched_reach_trans sr_step)
  moreover have "sn_panicked (?f\<lparr>sn_panicked := True\<rparr>)" by simp
  ultimately show ?thesis by blast
qed

end
