(* ===== verification/Build.thy ===== *)
theory Build
  imports Checkers_Props Scheduler
begin

text \<open>
  \<open>BuildFromConfig\<close> (\<open>internal/plugins/checkers/build.go\<close>): checks from configuration entries,
  with the defaults of each type, registered and scheduled. An entry of unknown type is skipped.
\<close>

section \<open>Construction\<close>

definition with_default_threshold :: "gofloat \<Rightarrow> gofloat" where
  "with_default_threshold t = (if float_le t (Fin 0) then Fin 90 else t)"

definition build_timeout :: "check_config \<Rightarrow> duration" where
  "build_timeout cc = (if cc_Timeout cc = 0 then default_check_timeout else cc_Timeout cc)"

definition build_check :: "'e probes \<Rightarrow> check_config \<Rightarrow> (check_error, 'e) check option" where
  "build_check pb cc =
     (let timeout = build_timeout cc
      in if cc_Type cc = ''http'' then
           Some (http_iface pb
             (new_http_check (cc_Name cc) (cc_Service cc) (cc_URL cc)
               (if cc_Method cc = '''' then ''GET'' else cc_Method cc)
               (if cc_ExpectedStatus cc = 0 then 200 else cc_ExpectedStatus cc) timeout (cc_Headers cc)))
         else if cc_Type cc = ''tcp'' then
           Some (tcp_iface pb (new_tcp_check (cc_Name cc) (cc_Service cc) (cc_Address cc) timeout))
         else if cc_Type cc = ''cpu'' then
           Some (cpu_iface pb
             (new_cpu_check (cc_Name cc) (cc_Service cc) (with_default_threshold (cc_Threshold cc)) timeout))
         else if cc_Type cc = ''memory'' then
           Some (memory_iface pb
             (new_memory_check (cc_Name cc) (cc_Service cc) (with_default_threshold (cc_Threshold cc)) timeout))
         else if cc_Type cc = ''disk'' then
           Some (disk_iface pb
             (new_disk_check (cc_Name cc) (cc_Service cc) (if cc_Path cc = '''' then ''/'' else cc_Path cc)
               (with_default_threshold (cc_Threshold cc)) timeout))
         else if cc_Type cc = ''process'' then
           Some (process_iface pb
             (new_process_check (cc_Name cc) (cc_Service cc) (cc_ProcessName cc) (cc_ServiceName cc) timeout))
         else if cc_Type cc = ''certificate'' then
           Some (certificate_iface pb
             (new_certificate_check (cc_Name cc) (cc_Service cc) (cc_CertPath cc) (cc_CertURL cc)
               (if cc_DaysBeforeExpiry cc \<le> 0 then 30 else cc_DaysBeforeExpiry cc) timeout))
         else if cc_Type cc = ''docker_container'' then
           Some (docker_container_iface pb
             (new_docker_container_check (cc_Name cc) (cc_Service cc) (cc_ContainerName cc) timeout))
         else if cc_Type cc = ''docker_swarm'' then
           Some (docker_swarm_iface pb (new_docker_swarm_check (cc_Name cc) (cc_Service cc) timeout))
         else None)"

definition build_interval :: "check_config \<Rightarrow> duration" where
  "build_interval cc = (if cc_Interval cc = 0 then default_check_interval else cc_Interval cc)"

type_synonym 'e built = "(check_error, 'e) check_registry \<times> (check_error, 'e) scheduler"

fun build_from_config ::
  "'e probes \<Rightarrow> check_config list \<Rightarrow> 'e built \<Rightarrow> registry_error option \<times> 'e built" where
  "build_from_config pb [] rs = (None, rs)"
| "build_from_config pb (cc # ccs) (reg, sched) =
     (case build_check pb cc of
        None \<Rightarrow> build_from_config pb ccs (reg, sched)
      | Some c \<Rightarrow>
          (case check_register c reg of
             Inl e \<Rightarrow> (Some e, reg, sched)
           | Inr reg' \<Rightarrow> build_from_config pb ccs (reg', add_check c (build_interval cc) sched)))"

section \<open>What is built\<close>

definition known_types :: "string list" where
  "known_types = [''http'', ''tcp'', ''cpu'', ''memory'', ''disk'', ''process'', ''certificate'',
     ''docker_container'', ''docker_swarm'']"

lemma build_check_None: "build_check pb cc = None \<longleftrightarrow> cc_Type cc \<notin> set known_types"
  by (simp add: build_check_def known_types_def Let_def)

lemma build_check_name: "build_check pb cc = Some c \<Longrightarrow> ck_Name c = cc_Name cc"
  by (auto simp: build_check_def Let_def iface_defs constructor_defs split: if_splits)

lemma iface_contract:
  "checker (ck_Run (http_iface pb (new_http_check n s u m x t h))) n s"
  "checker (ck_Run (tcp_iface pb (new_tcp_check n s a t))) n s"
  "checker (ck_Run (cpu_iface pb (new_cpu_check n s th t))) n s"
  "checker (ck_Run (memory_iface pb (new_memory_check n s th t))) n s"
  "checker (ck_Run (disk_iface pb (new_disk_check n s p th t))) n s"
  "checker (ck_Run (process_iface pb (new_process_check n s pn u t))) n s"
  "checker (ck_Run (certificate_iface pb (new_certificate_check n s p u d t))) n s"
  "checker (ck_Run (docker_container_iface pb (new_docker_container_check n s cn t))) n s"
  "checker (ck_Run (docker_swarm_iface pb (new_docker_swarm_check n s t))) n s"
  using http_ck.checker_axioms [of pb "new_http_check n s u m x t h"]
    tcp_ck.checker_axioms [of pb "new_tcp_check n s a t"]
    cpu_ck.checker_axioms [of pb "new_cpu_check n s th t"]
    memory_ck.checker_axioms [of pb "new_memory_check n s th t"]
    disk_ck.checker_axioms [of pb "new_disk_check n s p th t"]
    process_ck.checker_axioms [of pb "new_process_check n s pn u t"]
    cert_ck.checker_axioms [of pb "new_certificate_check n s p u d t"]
    container_ck.checker_axioms [of pb "new_docker_container_check n s cn t"]
    swarm_ck.checker_axioms [of pb "new_docker_swarm_check n s t"]
  by (simp_all add: iface_defs constructor_defs)

lemma build_check_contract:
  fixes pb :: "'e probes"
  assumes "build_check pb cc = Some c"
  shows "checker (ck_Run c) (cc_Name cc) (cc_Service cc)"
  using assms by (auto simp: build_check_def Let_def iface_contract split: if_splits)

text \<open>The schedule a list of entries asks for: the known ones, in order.\<close>

fun scheduled :: "'e probes \<Rightarrow> check_config list \<Rightarrow> ((check_error, 'e) check \<times> duration) list" where
  "scheduled pb [] = []"
| "scheduled pb (cc # ccs) =
     (case build_check pb cc of
        None \<Rightarrow> scheduled pb ccs | Some c \<Rightarrow> (c, build_interval cc) # scheduled pb ccs)"

lemma build_ok:
  assumes "check_registry_ok reg" and "distinct (map cc_Name ccs)"
    and "\<forall>cc \<in> set ccs. check_get reg (cc_Name cc) = None"
  shows "\<exists>reg'. build_from_config pb ccs (reg, sched) =
           (None, reg', sched\<lparr>sd_checks := sd_checks sched @ scheduled pb ccs\<rparr>)
     \<and> check_registry_ok reg'
     \<and> (\<forall>n. check_get reg' n = (case find (\<lambda>x. ck_Name (fst x) = n) (scheduled pb ccs) of
              None \<Rightarrow> check_get reg n | Some x \<Rightarrow> Some (fst x)))"
  using assms
proof (induction ccs arbitrary: reg sched)
  case Nil
  then show ?case by simp
next
  case (Cons cc ccs)
  show ?case
  proof (cases "build_check pb cc")
    case None
    with Cons show ?thesis by simp
  next
    case (Some c)
    have nm: "ck_Name c = cc_Name cc" using build_check_name [OF Some] .
    with Cons.prems(3) have "check_get reg (ck_Name c) = None" by simp
    with check_reg.add_new [OF Cons.prems(1)] obtain r1 where r1: "check_register c reg = Inr r1"
      "check_registry_ok r1" "check_get r1 = (check_get reg)(ck_Name c \<mapsto> c)" by blast
    have fresh: "cc_Name cc \<notin> cc_Name ` set ccs" using Cons.prems(2) by simp
    have "cc_Name x \<noteq> cc_Name cc" if "x \<in> set ccs" for x
      using fresh that by (metis imageI)
    then have "\<forall>x \<in> set ccs. check_get r1 (cc_Name x) = None"
      using Cons.prems(3) r1(3) nm by auto
    from Cons.IH [OF r1(2) _ this] Cons.prems(2) obtain reg' where reg':
      "build_from_config pb ccs (r1, add_check c (build_interval cc) sched) =
         (None, reg', (add_check c (build_interval cc) sched)
            \<lparr>sd_checks := sd_checks (add_check c (build_interval cc) sched) @ scheduled pb ccs\<rparr>)"
      "check_registry_ok reg'"
      "\<forall>n. check_get reg' n = (case find (\<lambda>x. ck_Name (fst x) = n) (scheduled pb ccs) of
              None \<Rightarrow> check_get r1 n | Some x \<Rightarrow> Some (fst x))" by fastforce
    have "ck_Name (fst x) \<in> cc_Name ` set ccs" if "x \<in> set (scheduled pb ccs)" for x
      using that
    proof (induction ccs)
      case (Cons a as)
      then show ?case using build_check_name by (auto split: option.splits)
    qed simp
    then have "find (\<lambda>x. ck_Name (fst x) = cc_Name cc) (scheduled pb ccs) = None"
      using fresh unfolding find_None_iff by metis
    with Some r1 reg' nm show ?thesis
      by (auto simp: add_check_def split: option.splits)
  qed
qed

lemma scheduled_contract:
  fixes pb :: "'e probes"
  assumes "x \<in> set (scheduled pb ccs)"
  shows "\<exists>cc \<in> set ccs. build_check pb cc = Some (fst x) \<and> snd x = build_interval cc"
  using assms by (induction ccs) (auto split: option.splits)

lemma build_interval_pos: "check_config_ok cc \<Longrightarrow> 0 < build_interval cc"
  by (simp add: check_config_ok_def build_interval_def)

lemma scheduled_names: "map (ck_Name \<circ> fst) (scheduled pb ccs) = map cc_Name (filter (\<lambda>cc. cc_Type cc \<in> set known_types) ccs)"
proof (induction ccs)
  case (Cons cc ccs)
  then show ?case
    using build_check_None [of pb cc] by (cases "build_check pb cc") (simp_all add: build_check_name)
qed simp

section \<open>The check an entry describes\<close>

text \<open>
  A specification of the above: an entry with the documented defaults filled in, and for each type the
  check that has the fields of such an entry.
\<close>

definition with_check_defaults :: "check_config \<Rightarrow> check_config" where
  "with_check_defaults cc = cc
     \<lparr>cc_Timeout := (if cc_Timeout cc = 0 then 10 * go_Second else cc_Timeout cc),
      cc_Method := (if cc_Method cc = [] then ''GET'' else cc_Method cc),
      cc_ExpectedStatus := (if cc_ExpectedStatus cc = 0 then 200 else cc_ExpectedStatus cc),
      cc_Threshold := (if float_le (cc_Threshold cc) (Fin 0) then Fin 90 else cc_Threshold cc),
      cc_Path := (if cc_Path cc = [] then ''/'' else cc_Path cc),
      cc_DaysBeforeExpiry := (if 0 < cc_DaysBeforeExpiry cc then cc_DaysBeforeExpiry cc else 30)\<rparr>"

definition checks_by_type :: "'e probes \<Rightarrow> check_config \<Rightarrow> (string \<times> (check_error, 'e) check) list" where
  "checks_by_type pb cc =
     [(''http'', http_iface pb
         \<lparr>hc_name = cc_Name cc, hc_service = cc_Service cc, hc_url = cc_URL cc, hc_method = cc_Method cc,
          hc_expectedStatus = cc_ExpectedStatus cc, hc_timeout = cc_Timeout cc, hc_headers = cc_Headers cc\<rparr>),
      (''tcp'', tcp_iface pb
         \<lparr>tcp_name = cc_Name cc, tcp_service = cc_Service cc, tcp_address = cc_Address cc,
          tcp_timeout = cc_Timeout cc\<rparr>),
      (''cpu'', cpu_iface pb
         \<lparr>cpu_name = cc_Name cc, cpu_service = cc_Service cc, cpu_threshold = cc_Threshold cc,
          cpu_timeout = cc_Timeout cc\<rparr>),
      (''memory'', memory_iface pb
         \<lparr>mem_name = cc_Name cc, mem_service = cc_Service cc, mem_threshold = cc_Threshold cc,
          mem_timeout = cc_Timeout cc\<rparr>),
      (''disk'', disk_iface pb
         \<lparr>dk_name = cc_Name cc, dk_service = cc_Service cc, dk_path = cc_Path cc,
          dk_threshold = cc_Threshold cc, dk_timeout = cc_Timeout cc\<rparr>),
      (''process'', process_iface pb
         \<lparr>pc_name = cc_Name cc, pc_service = cc_Service cc, pc_processName = cc_ProcessName cc,
          pc_serviceName = cc_ServiceName cc, pc_timeout = cc_Timeout cc\<rparr>),
      (''certificate'', certificate_iface pb
         \<lparr>crt_name = cc_Name cc, crt_service = cc_Service cc, crt_certPath = cc_CertPath cc,
          crt_certURL = cc_CertURL cc, crt_daysBeforeExpiry = cc_DaysBeforeExpiry cc,
          crt_timeout = cc_Timeout cc\<rparr>),
      (''docker_container'', docker_container_iface pb
         \<lparr>dc_name = cc_Name cc, dc_service = cc_Service cc, dc_containerName = cc_ContainerName cc,
          dc_timeout = cc_Timeout cc\<rparr>),
      (''docker_swarm'', docker_swarm_iface pb
         \<lparr>dsw_name = cc_Name cc, dsw_service = cc_Service cc, dsw_timeout = cc_Timeout cc\<rparr>)]"

definition described_check :: "'e probes \<Rightarrow> check_config \<Rightarrow> (check_error, 'e) check option" where
  "described_check pb cc = map_of (checks_by_type pb (with_check_defaults cc)) (cc_Type cc)"

definition described_schedule ::
  "'e probes \<Rightarrow> check_config list \<Rightarrow> ((check_error, 'e) check \<times> duration) list" where
  "described_schedule pb ccs =
     List.map_filter (\<lambda>cc. map_option (\<lambda>c. (c, cc_Interval cc)) (described_check pb cc)) ccs"

lemma build_check_described: "build_check pb cc = described_check pb cc"
  by (simp add: build_check_def described_check_def checks_by_type_def with_check_defaults_def constructor_defs
      build_timeout_def with_default_threshold_def default_check_timeout_def Let_def)

lemma scheduled_described: "\<forall>cc \<in> set ccs. check_config_ok cc \<Longrightarrow> scheduled pb ccs = described_schedule pb ccs"
  by (induction ccs)
    (auto simp: described_schedule_def build_check_described build_interval_def check_config_ok_def split: option.splits)

lemma described_name: "described_check pb cc = Some c \<Longrightarrow> ck_Name c = cc_Name cc"
  using build_check_name [of pb cc c] by (simp add: build_check_described)

lemma find_described:
  assumes "distinct (map cc_Name ccs)"
  shows "map_option fst (find (\<lambda>x. ck_Name (fst x) = n) (described_schedule pb ccs)) =
     Option.bind (find (\<lambda>cc. cc_Name cc = n) ccs) (described_check pb)"
  using assms
proof (induction ccs)
  case (Cons cc ccs)
  show ?case
  proof (cases "described_check pb cc")
    case None
    have "find (\<lambda>cc. cc_Name cc = n) ccs = None" if "cc_Name cc = n"
      unfolding find_None_iff using Cons.prems that by (metis distinct.simps(2) image_eqI list.simps(9) set_map)
    with Cons None show ?thesis by (auto simp: described_schedule_def)
  next
    case (Some c)
    with described_name [OF Some] Cons show ?thesis by (auto simp: described_schedule_def)
  qed
qed (simp add: described_schedule_def)

end
