(* ===== verification/Go_Duration.thy ===== *)
theory Go_Duration
  imports Go_Strings
begin

text \<open>
  Go's text form of durations. \<open>LoadConfig\<close> prints a step's duration with
  \<open>Duration.String\<close> and the wait action reads it back with \<open>time.ParseDuration\<close>; both are
  written out here from the documented grammar, with the overflow checks of the parser. The parser's
  fraction is computed exactly, where Go rounds through a \<open>float64\<close>: the two agree on every
  fraction with no more digits than its unit has, which is all the printer writes.
\<close>

section \<open>Printing\<close>

text \<open>The fraction of \<open>v / 10 ^ prec\<close> without trailing zeros, and without the dot when it is 0.\<close>

definition drop_zeros :: "string \<Rightarrow> string" where
  "drop_zeros s = rev (dropWhile (\<lambda>c. c = CHR ''0'') (rev s))"

definition frac_string :: "nat \<Rightarrow> nat \<Rightarrow> string" where
  "frac_string prec v =
     (let ds = drop_zeros (pad_left prec (show_nat (v mod 10 ^ prec)))
      in if ds = [] then [] else CHR ''.'' # ds)"

definition micro_s :: string where
  "micro_s = [CHR 0xC2, CHR 0xB5, CHR ''s'']"

definition duration_body :: "nat \<Rightarrow> string" where
  "duration_body u =
     (if u < 1000000000 then
        (if u = 0 then ''0s''
         else if u < 1000 then show_nat u @ ''ns''
         else if u < 1000000 then show_nat (u div 1000) @ frac_string 3 u @ micro_s
         else show_nat (u div 1000000) @ frac_string 6 u @ ''ms'')
      else
        (let s = u div 1000000000; m = s div 60; h = m div 60
         in (if 0 < h then show_nat h @ ''h'' else [])
            @ (if 0 < m then show_nat (m mod 60) @ ''m'' else [])
            @ show_nat (s mod 60) @ frac_string 9 u @ ''s''))"

definition duration_string :: "duration \<Rightarrow> string" where
  "duration_string d = (if d < 0 then CHR ''-'' # duration_body (nat (- d)) else duration_body (nat d))"

section \<open>Parsing\<close>

definition unit_value :: "string \<Rightarrow> nat option" where
  "unit_value u =
     (if u = ''ns'' then Some 1
      else if u = ''us'' \<or> u = micro_s \<or> u = [CHR 0xCE, CHR 0xBC, CHR ''s'']
      then Some 1000
      else if u = ''ms'' then Some 1000000
      else if u = ''s'' then Some 1000000000
      else if u = ''m'' then Some 60000000000
      else if u = ''h'' then Some 3600000000000
      else None)"

text \<open>Digits after the dot; further digits are skipped once the accumulator would overflow.\<close>

fun leading_fraction :: "nat \<Rightarrow> nat \<Rightarrow> bool \<Rightarrow> string \<Rightarrow> nat \<times> nat" where
  "leading_fraction x scale over [] = (x, scale)"
| "leading_fraction x scale over (c # cs) =
     (if over \<or> (2 ^ 63 - 1) div 10 < x then leading_fraction x scale True cs
      else if 2 ^ 63 < x * 10 + digit_val c then leading_fraction x scale True cs
      else leading_fraction (x * 10 + digit_val c) (scale * 10) over cs)"

text \<open>One number with its unit: the value in nanoseconds and the rest of the text.\<close>

definition unit_char :: "char \<Rightarrow> bool" where
  "unit_char c \<longleftrightarrow> c \<noteq> CHR ''.'' \<and> \<not> is_digit c"

definition parse_segment :: "string \<Rightarrow> (nat \<times> string) option" where
  "parse_segment s =
     (let ds = takeWhile is_digit s; s1 = dropWhile is_digit s;
          (fs, s2) = (if s1 \<noteq> [] \<and> hd s1 = CHR ''.''
                      then (takeWhile is_digit (tl s1), dropWhile is_digit (tl s1)) else ([], s1));
          (f, scale) = leading_fraction 0 1 False fs;
          v = dec_val ds; u = takeWhile unit_char s2; rest = dropWhile unit_char s2
      in if 2 ^ 63 < v then None
         else if ds = [] \<and> fs = [] then None
         else if u = [] then None
         else case unit_value u of
           None \<Rightarrow> None
         | Some unit_ns \<Rightarrow>
             if 2 ^ 63 div unit_ns < v then None
             else if 2 ^ 63 < v * unit_ns + f * unit_ns div scale then None
             else Some (v * unit_ns + f * unit_ns div scale, rest))"

lemma parse_segment_shorter:
  assumes "parse_segment s = Some (v, rest)"
  shows "length rest < length s"
proof -
  define s1 where "s1 = dropWhile is_digit s"
  define s2 where "s2 = (if s1 \<noteq> [] \<and> hd s1 = CHR ''.'' then dropWhile is_digit (tl s1) else s1)"
  have "rest = dropWhile unit_char s2 \<and> takeWhile unit_char s2 \<noteq> []"
    using assms unfolding parse_segment_def s1_def s2_def
    by (auto simp: Let_def split: if_splits prod.splits option.splits)
  moreover have "length s2 = length (takeWhile unit_char s2) + length (dropWhile unit_char s2)"
    by (metis length_append takeWhile_dropWhile_id)
  ultimately have "length rest < length s2" by simp
  also have "length s2 \<le> length s1"
    by (auto simp: s2_def intro: order_trans [OF length_dropWhile_le])
  also have "length s1 \<le> length s"
    by (simp add: s1_def length_dropWhile_le)
  finally show ?thesis .
qed

function parse_segments :: "nat \<Rightarrow> string \<Rightarrow> nat option" where
  "parse_segments d s =
     (if s = [] then Some d
      else case parse_segment s of
        None \<Rightarrow> None
      | Some (v, rest) \<Rightarrow> if 2 ^ 63 < d + v then None else parse_segments (d + v) rest)"
  by auto
termination
  by (relation "measure (\<lambda>(d, s). length s)") (auto dest: parse_segment_shorter)

declare parse_segments.simps [simp del]

definition parse_duration :: "string \<Rightarrow> duration option" where
  "parse_duration s =
     (let neg = (s \<noteq> [] \<and> hd s = CHR ''-'');
          s1 = (if s \<noteq> [] \<and> (hd s = CHR ''-'' \<or> hd s = CHR ''+'') then tl s else s)
      in if s1 = ''0'' then Some 0
         else if s1 = [] then None
         else case parse_segments 0 s1 of
           None \<Rightarrow> None
         | Some d \<Rightarrow>
             if neg then Some (- int d) else if 2 ^ 63 - 1 < d then None else Some (int d))"

section \<open>Reading back what was printed\<close>

lemma dec_val_Nil [simp]: "dec_val [] = 0"
  by (simp add: dec_val_def)

lemma dec_val_app: "dec_val (s @ t) = dec_val s * 10 ^ length t + dec_val t"
proof (induction t rule: rev_induct)
  case Nil
  then show ?case by simp
next
  case (snoc c t)
  then show ?case
    using dec_val_append [of "s @ t" c] by (simp add: algebra_simps)
qed

lemma digit_val_0 [simp]: "digit_val (CHR ''0'') = 0"
  by (simp add: digit_val_def)

lemma dec_val_zeros [simp]: "dec_val (replicate n (CHR ''0'')) = 0"
proof (induction n)
  case 0
  then show ?case by simp
next
  case (Suc n)
  have "dec_val [CHR ''0''] = 0"
    using dec_val_append [of "[]"] by simp
  with Suc show ?case
    using dec_val_app [of "[CHR ''0'']" "replicate n (CHR ''0'')"] by simp
qed

lemma dec_val_pad [simp]: "dec_val (pad_left n s) = dec_val s"
  by (simp add: pad_left_def dec_val_app)

lemma length_pad: "length s \<le> n \<Longrightarrow> length (pad_left n s) = n"
  by (simp add: pad_left_def)

lemma length_show_nat: "n < 10 ^ k \<Longrightarrow> 0 < k \<Longrightarrow> length (show_nat n) \<le> k"
proof (induction n arbitrary: k rule: show_nat.induct)
  case (1 n)
  show ?case
  proof (cases "n < 10")
    case True
    with 1 show ?thesis by (simp add: show_nat.simps [of n])
  next
    case False
    with 1 obtain j where j: "k = Suc j" "0 < j" by (cases k; cases "k - 1") auto
    with 1 False have "length (show_nat (n div 10)) \<le> j"
      by (intro 1(1)) (auto simp: less_mult_imp_div_less mult.commute)
    with False j show ?thesis by (simp add: show_nat.simps [of n])
  qed
qed

lemma zero_is_digit [simp]: "is_digit (CHR ''0'')"
  by (simp add: is_digit_def)

lemma pad_digits: "c \<in> set (pad_left n (show_nat m)) \<Longrightarrow> is_digit c"
  by (auto simp: pad_left_def dest: show_nat_digits split: if_splits)

text \<open>Dropping the trailing zeros divides by the power of ten the printed scale loses.\<close>

lemma drop_zeros_split: "s = drop_zeros s @ replicate (length s - length (drop_zeros s)) (CHR ''0'')"
proof -
  define z where "z = takeWhile (\<lambda>c. c = CHR ''0'') (rev s)"
  have z: "z = replicate (length z) (CHR ''0'')"
    by (rule replicate_eqI) (auto simp: z_def dest: set_takeWhileD)
  have "rev s = z @ rev (drop_zeros s)" by (simp add: z_def drop_zeros_def)
  then have eq: "s = drop_zeros s @ rev z" by (metis rev_append rev_rev_ident)
  moreover have "length s - length (drop_zeros s) = length z"
    by (subst eq) simp
  moreover have "rev z = replicate (length z) (CHR ''0'')"
    by (subst z) simp
  ultimately show ?thesis by metis
qed

lemma drop_zeros_val:
  "dec_val s = dec_val (drop_zeros s) * 10 ^ (length s - length (drop_zeros s))"
proof -
  have "dec_val s =
      dec_val (drop_zeros s @ replicate (length s - length (drop_zeros s)) (CHR ''0''))"
    by (rule arg_cong [OF drop_zeros_split])
  then show ?thesis by (simp add: dec_val_app)
qed

lemma drop_zeros_length: "length (drop_zeros s) \<le> length s"
  by (metis drop_zeros_def length_dropWhile_le length_rev)

lemma drop_zeros_digits: "c \<in> set (drop_zeros s) \<Longrightarrow> c \<in> set s"
  unfolding drop_zeros_def by (metis set_dropWhileD set_rev)

text \<open>The parser's fraction over digits that fit: the value of the digits and their scale.\<close>

lemma dec_val_bound: "(\<And>c. c \<in> set s \<Longrightarrow> is_digit c) \<Longrightarrow> dec_val s < 10 ^ length s"
proof (induction s rule: rev_induct)
  case Nil
  then show ?case by simp
next
  case (snoc c s)
  have "dec_val s < 10 ^ length s" using snoc by simp
  moreover have "digit_val c \<le> 9"
    using snoc.prems [of c] by (auto simp: is_digit_def digit_val_def)
  ultimately show ?case by simp
qed

lemma leading_fraction_exact:
  assumes "x * 10 ^ length ds + dec_val ds < 10 ^ 15"
  shows "leading_fraction x sc False ds = (x * 10 ^ length ds + dec_val ds, sc * 10 ^ length ds)"
  using assms
proof (induction ds arbitrary: x sc)
  case Nil
  then show ?case by simp
next
  case (Cons c ds)
  have v: "dec_val (c # ds) = digit_val c * 10 ^ length ds + dec_val ds"
    using dec_val_app [of "[c]" ds] dec_val_append [of "[]" c] by simp
  have b: "(x * 10 + digit_val c) * 10 ^ length ds + dec_val ds < 10 ^ 15"
    using Cons.prems by (simp add: v algebra_simps)
  have "x * 10 + digit_val c \<le> (x * 10 + digit_val c) * 10 ^ length ds" by simp
  with b have "x * 10 + digit_val c < 10 ^ 15" by linarith
  then have "leading_fraction x sc False (c # ds) =
      leading_fraction (x * 10 + digit_val c) (sc * 10) False ds"
    by simp
  also have "\<dots> = ((x * 10 + digit_val c) * 10 ^ length ds + dec_val ds, sc * 10 * 10 ^ length ds)"
    by (rule Cons.IH [OF b])
  also have "\<dots> = (x * 10 ^ length (c # ds) + dec_val (c # ds), sc * 10 ^ length (c # ds))"
    by (simp only: v) (simp add: distrib_right mult.assoc)
  finally show ?case .
qed

lemma not_digit_takeWhile:
  assumes "\<And>c. c \<in> set ds \<Longrightarrow> P c" and "rest = [] \<or> \<not> P (hd rest)"
  shows "takeWhile P (ds @ rest) = ds" and "dropWhile P (ds @ rest) = rest"
  using assms by (induction ds) (cases rest; auto)+

text \<open>The units the printer writes, with the number of fraction digits it allows them.\<close>

definition printed_unit :: "string \<Rightarrow> nat \<Rightarrow> bool" where
  "printed_unit u p \<longleftrightarrow> (u, p) \<in> {(''ns'', 0), (micro_s, 3), (''ms'', 6), (''s'', 9)}"

definition good_unit :: "string \<Rightarrow> nat \<Rightarrow> bool" where
  "good_unit u p \<longleftrightarrow> unit_value u = Some (10 ^ p) \<and> list_all unit_char u \<and> u \<noteq> [] \<and> p \<le> 9"

lemma good_units:
  "good_unit ''ns'' 0" "good_unit micro_s 3" "good_unit ''ms'' 6" "good_unit ''s'' 9"
  by (simp_all add: good_unit_def unit_value_def micro_s_def unit_char_def is_digit_def)

lemma printed_unit_facts:
  assumes "printed_unit u p"
  shows "unit_value u = Some (10 ^ p)" "\<And>c. c \<in> set u \<Longrightarrow> unit_char c" "u \<noteq> []" "p \<le> 9"
  using assms good_units by (auto simp: printed_unit_def good_unit_def list_all_iff)

definition starts_digit :: "string \<Rightarrow> bool" where
  "starts_digit s \<longleftrightarrow> s = [] \<or> is_digit (hd s)"

lemma starts_digit_Nil [simp]: "starts_digit []"
  by (simp add: starts_digit_def)

lemma starts_digit_show_nat [simp]: "starts_digit (show_nat n @ s)"
  using show_nat_digits [of "hd (show_nat n)" n] by (simp add: starts_digit_def)

lemma parse_segment_plain:
  assumes u: "unit_value u = Some k" "\<And>c. c \<in> set u \<Longrightarrow> unit_char c" "u \<noteq> []" "0 < k"
    and "n * k \<le> 2 ^ 63" and r: "starts_digit rest"
  shows "parse_segment (show_nat n @ u @ rest) = Some (n * k, rest)"
proof -
  have h: "\<not> is_digit (hd u)" "hd u \<noteq> CHR ''.''"
    using u(2) [of "hd u"] u(3) by (auto simp: unit_char_def)
  have d: "takeWhile is_digit (show_nat n @ u @ rest) = show_nat n"
    "dropWhile is_digit (show_nat n @ u @ rest) = u @ rest"
    using not_digit_takeWhile [of "show_nat n" is_digit "u @ rest"] h u(3) show_nat_digits by auto
  have "rest = [] \<or> \<not> unit_char (hd rest)"
    using r by (auto simp: starts_digit_def unit_char_def)
  then have t: "takeWhile unit_char (u @ rest) = u" "dropWhile unit_char (u @ rest) = rest"
    using not_digit_takeWhile [of u unit_char rest] u(2) by auto
  have "n \<le> n * k" using u(4) by simp
  then have "n \<le> 2 ^ 63" using assms(5) by linarith
  moreover have "n \<le> 2 ^ 63 div k"
    using assms(5) u(4) by (simp add: less_eq_div_iff_mult_less_eq)
  ultimately show ?thesis
    using assms(5) h u(1,3) by (simp add: parse_segment_def d t Let_def not_less)
qed

lemma frac_digits:
  assumes "ds = drop_zeros (pad_left p (show_nat (v mod 10 ^ p)))" and "0 < p"
  shows "dec_val ds * 10 ^ p = (v mod 10 ^ p) * 10 ^ length ds" "length ds \<le> p"
    "\<And>c. c \<in> set ds \<Longrightarrow> is_digit c" "dec_val ds \<le> v mod 10 ^ p"
proof -
  let ?s = "pad_left p (show_nat (v mod 10 ^ p))"
  have len: "length ?s = p"
    using assms(2) by (simp add: length_pad length_show_nat)
  show l: "length ds \<le> p" using drop_zeros_length [of ?s] by (simp add: assms(1) len)
  have eq: "v mod 10 ^ p = dec_val ds * 10 ^ (p - length ds)"
    using drop_zeros_val [of ?s] by (simp add: assms(1) len)
  have "10 ^ (p - length ds) * 10 ^ length ds = (10 :: nat) ^ p"
    using l by (simp flip: power_add)
  then show "dec_val ds * 10 ^ p = (v mod 10 ^ p) * 10 ^ length ds"
    by (simp add: eq mult.assoc)
  show "dec_val ds \<le> v mod 10 ^ p" by (simp add: eq)
  show "\<And>c. c \<in> set ds \<Longrightarrow> is_digit c"
    by (auto simp: assms(1) dest!: drop_zeros_digits pad_digits)
qed

lemma parse_segment_frac:
  assumes u: "printed_unit u p" and n: "n * 10 ^ p + v mod 10 ^ p \<le> 2 ^ 63" and r: "starts_digit rest"
  shows "parse_segment (show_nat n @ frac_string p v @ u @ rest) = Some (n * 10 ^ p + v mod 10 ^ p, rest)"
proof -
  note uf = printed_unit_facts [OF u]
  define ds where "ds = drop_zeros (pad_left p (show_nat (v mod 10 ^ p)))"
  show ?thesis
  proof (cases "ds = []")
    case True
    have "v mod 10 ^ p = 0"
    proof (cases "p = 0")
      case False
      then show ?thesis using frac_digits(1) [OF ds_def] True by simp
    qed simp
    moreover have "frac_string p v = []" using True by (simp add: frac_string_def ds_def Let_def)
    ultimately show ?thesis
      using parse_segment_plain [OF uf(1,2,3) _ _ r, of n] n by simp
  next
    case False
    have "0 < p"
    proof (rule ccontr)
      assume "\<not> 0 < p"
      then have "ds = []" by (simp add: ds_def drop_zeros_def pad_left_def show_nat.simps [of 0] digit_char_def)
      with False show "False" ..
    qed
    note fd = frac_digits [OF ds_def this]
    have f: "frac_string p v = CHR ''.'' # ds"
      using False by (simp add: frac_string_def ds_def Let_def)
    have dot: "\<not> is_digit (CHR ''.'')" by (simp add: is_digit_def)
    have d: "takeWhile is_digit (show_nat n @ CHR ''.'' # ds @ u @ rest) = show_nat n"
      "dropWhile is_digit (show_nat n @ CHR ''.'' # ds @ u @ rest) = CHR ''.'' # ds @ u @ rest"
      using not_digit_takeWhile [of "show_nat n" is_digit "CHR ''.'' # ds @ u @ rest"] dot
        show_nat_digits by auto
    have "\<not> is_digit (hd (u @ rest))"
      using uf(2) [of "hd u"] uf(3) by (simp add: unit_char_def)
    then have d2: "takeWhile is_digit (ds @ u @ rest) = ds" "dropWhile is_digit (ds @ u @ rest) = u @ rest"
      using not_digit_takeWhile [of ds is_digit "u @ rest"] fd(3) by auto
    have "rest = [] \<or> \<not> unit_char (hd rest)"
      using r by (auto simp: starts_digit_def unit_char_def)
    then have t: "takeWhile unit_char (u @ rest) = u" "dropWhile unit_char (u @ rest) = rest"
      using not_digit_takeWhile [of u unit_char rest] uf(2) by auto
    have "v mod 10 ^ p < 10 ^ p" by simp
    also have "(10::nat) ^ p \<le> 10 ^ 9" using uf(4) by (intro power_increasing) simp_all
    finally have "dec_val ds < 10 ^ 15" using fd(4) by simp
    then have lf: "leading_fraction 0 1 False ds = (dec_val ds, 10 ^ length ds)"
      using leading_fraction_exact [of 0 ds 1] by simp
    have q: "dec_val ds * 10 ^ p div 10 ^ length ds = v mod 10 ^ p"
      by (simp add: fd(1))
    have le: "n * 10 ^ p \<le> 2 ^ 63" using n by linarith
    have "n \<le> n * 10 ^ p" by simp
    then have "n \<le> 2 ^ 63" using le by linarith
    moreover have "n \<le> 2 ^ 63 div 10 ^ p"
      using le by (simp add: less_eq_div_iff_mult_less_eq)
    ultimately show ?thesis
      using n False uf(1,3) by (simp add: parse_segment_def f d d2 t lf [simplified] q Let_def not_less)
  qed
qed

lemma parse_segments_step:
  assumes "parse_segment s = Some (v, rest)" and "d + v \<le> 2 ^ 63"
  shows "parse_segments d s = parse_segments (d + v) rest"
proof -
  from parse_segment_shorter [OF assms(1)] have "s \<noteq> []" by auto
  with assms show ?thesis by (simp add: parse_segments.simps [of d s])
qed

lemma parse_segments_Nil [simp]: "parse_segments d [] = Some d"
  by (simp add: parse_segments.simps)

lemma minute_unit: "unit_value ''m'' = Some 60000000000" "unit_value ''h'' = Some 3600000000000"
    "c \<in> set ''m'' \<Longrightarrow> unit_char c" "c \<in> set ''h'' \<Longrightarrow> unit_char c"
  by (auto simp: unit_value_def micro_s_def unit_char_def is_digit_def)

lemma parse_seconds:
  assumes "d + u mod 60000000000 \<le> 2 ^ 63"
  shows "parse_segments d (show_nat (u div 1000000000 mod 60) @ frac_string 9 u @ ''s'') =
     Some (d + u mod 60000000000)"
proof -
  have "printed_unit ''s'' 9" by (simp add: printed_unit_def)
  moreover have eq: "u div 1000000000 mod 60 * 10 ^ 9 + u mod 10 ^ 9 = u mod 60000000000"
    using mod_mult2_eq [of u 1000000000 60] by simp
  ultimately have "parse_segment (show_nat (u div 1000000000 mod 60) @ frac_string 9 u @ ''s'' @ []) =
      Some (u mod 60000000000, [])"
    using parse_segment_frac [of "''s''" 9 "u div 1000000000 mod 60" u "[]"] assms by simp
  from parse_segments_step [OF this [simplified] assms] show ?thesis by simp
qed

lemma parse_minutes:
  assumes "d + u mod 3600000000000 \<le> 2 ^ 63"
  shows "parse_segments d (show_nat (u div 1000000000 div 60 mod 60) @ ''m''
           @ show_nat (u div 1000000000 mod 60) @ frac_string 9 u @ ''s'') =
     Some (d + u mod 3600000000000)"
proof -
  let ?m = "u div 1000000000 div 60 mod 60" and ?rest = "show_nat (u div 1000000000 mod 60) @ frac_string 9 u @ ''s''"
  have eq: "?m * 60000000000 + u mod 60000000000 = u mod 3600000000000"
    using mod_mult2_eq [of u 60000000000 60] div_mult2_eq [of u 1000000000 60] by simp
  then have le: "d + ?m * 60000000000 \<le> 2 ^ 63" "d + ?m * 60000000000 + u mod 60000000000 \<le> 2 ^ 63"
    using assms by linarith+
  have "parse_segment (show_nat ?m @ ''m'' @ ?rest) = Some (?m * 60000000000, ?rest)"
    by (rule parse_segment_plain [OF minute_unit(1,3)]) (use le in auto)
  from parse_segments_step [OF this le(1)] parse_seconds [OF le(2)] eq show ?thesis
    by (simp add: add.assoc)
qed

lemma parse_hours:
  assumes "u \<le> 2 ^ 63"
  shows "parse_segments 0 (show_nat (u div 1000000000 div 60 div 60) @ ''h''
           @ show_nat (u div 1000000000 div 60 mod 60) @ ''m''
           @ show_nat (u div 1000000000 mod 60) @ frac_string 9 u @ ''s'') = Some u"
proof -
  let ?h = "u div 1000000000 div 60 div 60"
    and ?rest = "show_nat (u div 1000000000 div 60 mod 60) @ ''m''
           @ show_nat (u div 1000000000 mod 60) @ frac_string 9 u @ ''s''"
  have eq: "?h * 3600000000000 + u mod 3600000000000 = u"
    using div_mult2_eq [of u 60000000000 60] div_mult2_eq [of u 1000000000 60]
      div_mult_mod_eq [of u 3600000000000] by simp
  then have le: "0 + ?h * 3600000000000 \<le> 2 ^ 63" "?h * 3600000000000 + u mod 3600000000000 \<le> 2 ^ 63"
    using assms by linarith+
  have "parse_segment (show_nat ?h @ ''h'' @ ?rest) = Some (?h * 3600000000000, ?rest)"
    by (rule parse_segment_plain [OF minute_unit(2,4)]) (use le in auto)
  from parse_segments_step [OF this le(1)] parse_minutes [OF le(2)] eq show ?thesis
    by simp
qed

lemma parse_small:
  assumes "printed_unit u p" and "v < 2 ^ 62"
  shows "parse_segments 0 (show_nat (v div 10 ^ p) @ frac_string p v @ u) = Some v"
proof -
  have "parse_segment (show_nat (v div 10 ^ p) @ frac_string p v @ u @ []) = Some (v, [])"
    using parse_segment_frac [OF assms(1), of "v div 10 ^ p" v "[]"] assms(2)
    unfolding div_mult_mod_eq by simp
  from parse_segments_step [OF this [simplified], of 0] assms(2) show ?thesis by simp
qed

lemma parse_duration_body:
  assumes "u \<le> 2 ^ 63"
  shows "parse_segments 0 (duration_body u) = Some u"
proof (cases "u < 1000000000")
  case True
  have f0: "frac_string 0 u = []"
    by (simp add: frac_string_def drop_zeros_def pad_left_def show_nat.simps [of 0] digit_char_def)
  have f9: "frac_string 9 0 = []"
    by (simp add: frac_string_def drop_zeros_def pad_left_def show_nat.simps [of 0] digit_char_def)
  have z: "''0s'' = show_nat (0 div 10 ^ 9) @ frac_string 9 0 @ ''s''"
    by (simp only: f9) (simp add: show_nat.simps [of 0] digit_char_def)
  have "parse_segments 0 ''0s'' = Some 0"
    unfolding z by (rule parse_small) (simp_all add: printed_unit_def)
  with True parse_small [of "''ns''" 0 u] parse_small [of micro_s 3 u] parse_small [of "''ms''" 6 u] f0
  show ?thesis by (auto simp: duration_body_def printed_unit_def)
next
  case False
  show ?thesis
  proof (cases "u div 1000000000 div 60 = 0")
    case True
    then have "u mod 60000000000 = u" by (simp add: div_mult2_eq [of u 1000000000 60, symmetric])
    with True False parse_seconds [of 0 u] assms show ?thesis by (simp add: duration_body_def Let_def)
  next
    case m: False
    show ?thesis
    proof (cases "u div 1000000000 div 60 div 60 = 0")
      case True
      then have "u mod 3600000000000 = u"
        using div_mult2_eq [of u 60000000000 60] div_mult2_eq [of u 1000000000 60] by simp
      with True m False parse_minutes [of 0 u] assms show ?thesis
        by (simp add: duration_body_def Let_def)
    next
      case h: False
      with m False parse_hours [OF assms] show ?thesis by (simp add: duration_body_def Let_def)
    qed
  qed
qed

lemma duration_body_hd: "duration_body u \<noteq> [] \<and> is_digit (hd (duration_body u))"
proof -
  have "is_digit (hd (show_nat n @ s))" "show_nat n @ s \<noteq> []" for n s
    using starts_digit_show_nat [of n s] by (simp_all add: starts_digit_def)
  then show ?thesis
    by (simp add: duration_body_def Let_def is_digit_def del: hd_append2 append_is_Nil_conv)
qed

lemma parse_duration_string:
  assumes "- (2 ^ 63) \<le> d" and "d < 2 ^ 63"
  shows "parse_duration (duration_string d) = Some d"
proof -
  have one: "parse_segments 0 ''0'' = None"
    by (simp add: parse_segments.simps [of 0] parse_segment_def is_digit_def Let_def)
  have body: "duration_body u \<noteq> ''0''" "duration_body u \<noteq> []"
    "hd (duration_body u) \<noteq> CHR ''-''" "hd (duration_body u) \<noteq> CHR ''+''" if "u \<le> 2 ^ 63" for u
    using parse_duration_body [OF that] one duration_body_hd [of u] by (auto simp: is_digit_def)
  show ?thesis
  proof (cases "d < 0")
    case True
    with assms have le: "nat (- d) \<le> 2 ^ 63" by simp
    with True body [OF le] parse_duration_body [OF le] show ?thesis
      by (simp add: duration_string_def parse_duration_def Let_def)
  next
    case False
    with assms have le: "nat d \<le> 2 ^ 63" "nat d \<le> 2 ^ 63 - 1" by simp_all
    with False body [OF le(1)] parse_duration_body [OF le(1)] show ?thesis
      by (simp add: duration_string_def parse_duration_def Let_def)
  qed
qed

end
