(* ===== verification/Builtin_Actions.thy ===== *)
theory Builtin_Actions
  imports Actions Build Go_Duration
begin

text \<open>
  The built-in repair actions (\<open>internal/plugins/actions\<close>). What they act on is not under src/ and is a
  parameter: \<open>system\<close> has the operating system, the Docker API, HTTP, and the text functions of the
  standard library that are not written out; \<open>kube\<close> is a Kubernetes client. Each is a function on the
  environment that takes the deadline of the step, if it has one. Errors are the messages the code
  builds.
\<close>

section \<open>The surroundings\<close>

record swarm_service =
  svc_ID :: string
  svc_Version :: int
  svc_ForceUpdate :: nat
  svc_Spec :: string

record file_info =
  fi_ModTime :: gotime
  fi_Size :: int

text \<open>One callback of \<open>filepath.WalkDir\<close>: an error, or an entry with its path.\<close>

record walk_entry =
  we_Path :: string
  we_Error :: "goerror option"
  we_IsDir :: bool
  we_Name :: string
  we_Info :: "goerror + file_info"

text \<open>The headers of a request are the \<open>Header.Set\<close> calls in their order.\<close>

record web_request =
  wr_Method :: string
  wr_URL :: string
  wr_Body :: "string option"
  wr_Headers :: "(string \<times> string) list"
  wr_Timeout :: duration

text \<open>The \<open>http.Client\<close> of the webhook: its timeout, and its verdict on one more redirect after
  so many.\<close>

record web_client =
  wc_Timeout :: duration
  wc_CheckRedirect :: "nat \<Rightarrow> goerror option"

record web_response =
  wp_StatusCode :: int
  wp_Body :: string

record 'e system =
  sy_sleep :: "duration option \<Rightarrow> duration \<Rightarrow> 'e \<Rightarrow> goerror option \<times> 'e"
  sy_command :: "duration option \<Rightarrow> string list \<Rightarrow> 'e \<Rightarrow> (string \<times> goerror option) \<times> 'e"
  sy_docker_client :: "'e \<Rightarrow> goerror option \<times> 'e"
  sy_container_start :: "duration option \<Rightarrow> string \<Rightarrow> 'e \<Rightarrow> goerror option \<times> 'e"
  sy_container_stop :: "duration option \<Rightarrow> string \<Rightarrow> int option \<Rightarrow> 'e \<Rightarrow> goerror option \<times> 'e"
  sy_container_restart :: "duration option \<Rightarrow> string \<Rightarrow> int option \<Rightarrow> 'e \<Rightarrow> goerror option \<times> 'e"
  sy_container_inspect :: "duration option \<Rightarrow> string \<Rightarrow> 'e \<Rightarrow> (goerror + (string \<times> bool) option) \<times> 'e"
  sy_service_inspect :: "duration option \<Rightarrow> string \<Rightarrow> 'e \<Rightarrow> (goerror + swarm_service) \<times> 'e"
  sy_service_update :: "duration option \<Rightarrow> swarm_service \<Rightarrow> 'e \<Rightarrow> goerror option \<times> 'e"
  sy_sscan :: "string \<Rightarrow> int \<Rightarrow> int \<times> goerror option"
  sy_sscanf_d :: "string \<Rightarrow> int option"
  sy_abs :: "string \<Rightarrow> 'e \<Rightarrow> goerror + string"
  sy_ctx_err :: "duration option \<Rightarrow> 'e \<Rightarrow> goerror option"
  sy_walk :: "string \<Rightarrow> 'e \<Rightarrow> walk_entry list"
  sy_match :: "string \<Rightarrow> string \<Rightarrow> bool"
  sy_remove :: "string \<Rightarrow> 'e \<Rightarrow> goerror option \<times> 'e"
  sy_look_path :: "string \<Rightarrow> 'e \<Rightarrow> bool"
  sy_create_temp :: "'e \<Rightarrow> (goerror + string) \<times> 'e"
  sy_write_temp :: "string \<Rightarrow> string \<Rightarrow> 'e \<Rightarrow> goerror option \<times> 'e"
  sy_close_temp :: "string \<Rightarrow> 'e \<Rightarrow> goerror option \<times> 'e"
  sy_stat :: "string \<Rightarrow> 'e \<Rightarrow> goerror + int"
  sy_stamp :: "gotime \<Rightarrow> string"
  sy_rename :: "string \<Rightarrow> string \<Rightarrow> 'e \<Rightarrow> goerror option \<times> 'e"
  sy_create :: "string \<Rightarrow> 'e \<Rightarrow> goerror option \<times> 'e"
  sy_open :: "string \<Rightarrow> 'e \<Rightarrow> goerror option"
  sy_truncate :: "string \<Rightarrow> int \<Rightarrow> 'e \<Rightarrow> goerror option \<times> 'e"
  sy_parse_url :: "string \<Rightarrow> goerror + (string \<times> string)"
  sy_json :: "string gmap \<Rightarrow> string"
  sy_json_headers :: "string \<Rightarrow> string gmap option"
  sy_new_request :: "string \<Rightarrow> string \<Rightarrow> goerror option"
  sy_http_do :: "web_client \<Rightarrow> duration option \<Rightarrow> web_request \<Rightarrow> 'e \<Rightarrow> (goerror + web_response) \<times> 'e"

section \<open>Parameters\<close>

definition params_of :: "string gmap option \<Rightarrow> string gmap" where
  "params_of p = (case p of None \<Rightarrow> [] | Some m \<Rightarrow> m)"

definition param :: "string gmap option \<Rightarrow> string \<Rightarrow> string" where
  "param p k = gget_or '''' (params_of p) k"

definition param_opt :: "string gmap option \<Rightarrow> string \<Rightarrow> string option" where
  "param_opt p k = gget (params_of p) k"

text \<open>A duration parameter with a default for a missing or unreadable value.\<close>

definition duration_param :: "string gmap option \<Rightarrow> string \<Rightarrow> duration \<Rightarrow> duration" where
  "duration_param p k d =
     (case param_opt p k of
        None \<Rightarrow> d
      | Some raw \<Rightarrow> (case parse_duration raw of None \<Rightarrow> d | Some x \<Rightarrow> x))"

section \<open>Wait and healthcheck\<close>

definition wait_execute ::
  "'e system \<Rightarrow> duration option \<Rightarrow> string gmap option \<Rightarrow> 'e world \<Rightarrow> goerror option \<times> 'e world" where
  "wait_execute sy t p w = on_env (sy_sleep sy t (duration_param p ''duration'' (10 * go_Second))) w"

definition wait_action :: "'e system \<Rightarrow> 'e action" where
  "wait_action sy = \<lparr>a_Name = ''wait'', a_Execute = wait_execute sy\<rparr>"

definition healthcheck_execute ::
  "(check_error, 'e) check_registry \<Rightarrow> duration option \<Rightarrow> string gmap option \<Rightarrow> 'e world
   \<Rightarrow> goerror option \<times> 'e world" where
  "healthcheck_execute reg t p w =
     (case param_opt p ''check'' of
        None \<Rightarrow> (Some ''healthcheck action requires 'check' parameter'', w)
      | Some n \<Rightarrow>
          (case check_get reg n of
             None \<Rightarrow> (Some (''check '' @ go_quote n @ '' not found in registry''), w)
           | Some c \<Rightarrow>
               (let (r, w1) = ck_Run c w
                in if cr_Status r \<noteq> CheckHealthy
                   then (Some (''healthcheck '' @ go_quote n @ '' returned status ''
                           @ check_status_string (cr_Status r) @ '': ''
                           @ (case cr_Error r of None \<Rightarrow> ''<nil>'' | Some e \<Rightarrow> check_error_string e)), w1)
                   else (None, w1))))"

definition healthcheck_action :: "(check_error, 'e) check_registry \<Rightarrow> 'e action" where
  "healthcheck_action reg = \<lparr>a_Name = ''healthcheck'', a_Execute = healthcheck_execute reg\<rparr>"

section \<open>systemd services\<close>

definition systemctl_failed :: "string \<Rightarrow> string \<Rightarrow> string \<Rightarrow> goerror \<Rightarrow> string \<Rightarrow> goerror" where
  "systemctl_failed action verb service e output =
     action @ '': systemctl '' @ verb @ '' '' @ service @ '' failed: '' @ e @ '' (output: ''
     @ trim_space output @ '')''"

definition start_service_execute ::
  "'e system \<Rightarrow> duration option \<Rightarrow> string gmap option \<Rightarrow> 'e world \<Rightarrow> goerror option \<times> 'e world" where
  "start_service_execute sy t p w =
     (let service = param p ''service''
      in if service = '''' then (Some ''start_service: 'service' parameter is required'', w)
         else case validate_service_name service of
           Some e \<Rightarrow> (Some (''start_service: '' @ service_name_error_string e), w)
         | None \<Rightarrow>
             (let (r, w1) = on_env (sy_command sy t [''systemctl'', ''start'', service]) w
              in case snd r of
                   Some e \<Rightarrow> (Some (systemctl_failed ''start_service'' ''start'' service e (fst r)), w1)
                 | None \<Rightarrow>
                     (let (v, w2) = on_env (sy_command sy t [''systemctl'', ''is-active'', ''--quiet'', service]) w1
                      in if snd v \<noteq> None
                         then (Some (''start_service: service '' @ service @ '' did not become active after start''), w2)
                         else (None, w2))))"

definition start_service_action :: "'e system \<Rightarrow> 'e action" where
  "start_service_action sy = \<lparr>a_Name = ''start_service'', a_Execute = start_service_execute sy\<rparr>"

definition stop_service_execute ::
  "'e system \<Rightarrow> duration option \<Rightarrow> string gmap option \<Rightarrow> 'e world \<Rightarrow> goerror option \<times> 'e world" where
  "stop_service_execute sy t p w =
     (let service = param p ''service''
      in if service = '''' then (Some ''stop_service: 'service' parameter is required'', w)
         else case validate_service_name service of
           Some e \<Rightarrow> (Some (''stop_service: '' @ service_name_error_string e), w)
         | None \<Rightarrow>
             (let (r, w1) = on_env (sy_command sy t [''systemctl'', ''stop'', service]) w
              in case snd r of
                   Some e \<Rightarrow> (Some (systemctl_failed ''stop_service'' ''stop'' service e (fst r)), w1)
                 | None \<Rightarrow>
                     (let (v, w2) = on_env (sy_command sy t [''systemctl'', ''is-active'', ''--quiet'', service]) w1
                      in if snd v = None
                         then (Some (''stop_service: service '' @ service @ '' is still active after stop''), w2)
                         else (None, w2))))"

definition stop_service_action :: "'e system \<Rightarrow> 'e action" where
  "stop_service_action sy = \<lparr>a_Name = ''stop_service'', a_Execute = stop_service_execute sy\<rparr>"

definition restart_service_execute ::
  "'e system \<Rightarrow> duration option \<Rightarrow> string gmap option \<Rightarrow> 'e world \<Rightarrow> goerror option \<times> 'e world" where
  "restart_service_execute sy t p w =
     (let service = param p ''service''
      in if service = '''' then (Some ''restart_service: 'service' parameter is required'', w)
         else case validate_service_name service of
           Some e \<Rightarrow> (Some (''restart_service: '' @ service_name_error_string e), w)
         | None \<Rightarrow>
             (let (r, w1) = on_env (sy_command sy t [''systemctl'', ''restart'', service]) w
              in case snd r of
                   Some e \<Rightarrow> (Some (systemctl_failed ''restart_service'' ''restart'' service e (fst r)), w1)
                 | None \<Rightarrow>
                     (let (v, w2) = on_env (sy_command sy t [''systemctl'', ''is-active'', ''--quiet'', service]) w1
                      in if snd v \<noteq> None
                         then (Some (''restart_service: service '' @ service @ '' did not become active after restart''), w2)
                         else (None, w2))))"

definition restart_service_action :: "'e system \<Rightarrow> 'e action" where
  "restart_service_action sy = \<lparr>a_Name = ''restart_service'', a_Execute = restart_service_execute sy\<rparr>"

section \<open>Docker containers and services\<close>

definition container_status :: "(string \<times> bool) option \<Rightarrow> string" where
  "container_status st = (case st of None \<Rightarrow> ''unknown'' | Some (status, running) \<Rightarrow> status)"

definition still_running :: "(string \<times> bool) option \<Rightarrow> bool" where
  "still_running st = (case st of None \<Rightarrow> False | Some (status, running) \<Rightarrow> running)"

definition start_container_execute ::
  "'e system \<Rightarrow> duration option \<Rightarrow> string gmap option \<Rightarrow> 'e world \<Rightarrow> goerror option \<times> 'e world" where
  "start_container_execute sy t p w =
     (let c = param p ''container''
      in if c = '''' then (Some ''start_container: 'container' parameter is required'', w)
         else
           (let (cli, w1) = on_env (sy_docker_client sy) w
            in case cli of
                 Some e \<Rightarrow> (Some (''start_container: failed to create docker client: '' @ e), w1)
               | None \<Rightarrow>
                   (let (r, w2) = on_env (sy_container_start sy t c) w1
                    in case r of
                         Some e \<Rightarrow> (Some (''start_container: failed to start container '' @ c @ '': '' @ e), w2)
                       | None \<Rightarrow>
                           (let (i, w3) = on_env (sy_container_inspect sy t c) w2
                            in case i of
                                 Inl e \<Rightarrow> (Some (''start_container: failed to inspect container '' @ c
                                              @ '' after start: '' @ e), w3)
                               | Inr st \<Rightarrow>
                                   if container_status st \<noteq> ''running''
                                   then (Some (''start_container: container '' @ c
                                           @ '' did not become running (status: '' @ container_status st @ '')''), w3)
                                   else (None, w3)))))"

definition start_container_action :: "'e system \<Rightarrow> 'e action" where
  "start_container_action sy = \<lparr>a_Name = ''start_container'', a_Execute = start_container_execute sy\<rparr>"

text \<open>The stop timeout: whole seconds of the parameter, absent when it does not parse.\<close>

definition stop_timeout :: "string gmap option \<Rightarrow> int option" where
  "stop_timeout p =
     (case param_opt p ''timeout'' of
        None \<Rightarrow> None
      | Some v \<Rightarrow> map_option (\<lambda>d. float_to_int (duration_seconds d)) (parse_duration v))"

definition stop_container_execute ::
  "'e system \<Rightarrow> duration option \<Rightarrow> string gmap option \<Rightarrow> 'e world \<Rightarrow> goerror option \<times> 'e world" where
  "stop_container_execute sy t p w =
     (let c = param p ''container''
      in if c = '''' then (Some ''stop_container: 'container' parameter is required'', w)
         else
           (let (cli, w1) = on_env (sy_docker_client sy) w
            in case cli of
                 Some e \<Rightarrow> (Some (''stop_container: failed to create docker client: '' @ e), w1)
               | None \<Rightarrow>
                   (let (r, w2) = on_env (sy_container_stop sy t c (stop_timeout p)) w1
                    in case r of
                         Some e \<Rightarrow> (Some (''stop_container: failed to stop container '' @ c @ '': '' @ e), w2)
                       | None \<Rightarrow>
                           (let (i, w3) = on_env (sy_container_inspect sy t c) w2
                            in case i of
                                 Inl e \<Rightarrow> (Some (''stop_container: failed to inspect container '' @ c
                                              @ '' after stop: '' @ e), w3)
                               | Inr st \<Rightarrow>
                                   if still_running st
                                   then (Some (''stop_container: container '' @ c
                                           @ '' is still running after stop''), w3)
                                   else (None, w3)))))"

definition stop_container_action :: "'e system \<Rightarrow> 'e action" where
  "stop_container_action sy = \<lparr>a_Name = ''stop_container'', a_Execute = stop_container_execute sy\<rparr>"

text \<open>
  The message of a failed restart wraps the error of the client's creation, which is nil there, and
  not the error of the restart.
\<close>

definition restart_container_execute ::
  "'e system \<Rightarrow> duration option \<Rightarrow> string gmap option \<Rightarrow> 'e world \<Rightarrow> goerror option \<times> 'e world" where
  "restart_container_execute sy t p w =
     (let c = param p ''container''
      in if c = '''' then (Some ''restart_container: 'container' parameter is required'', w)
         else
           (let (cli, w1) = on_env (sy_docker_client sy) w
            in case cli of
                 Some e \<Rightarrow> (Some (''restart_container: failed to create docker client: '' @ e), w1)
               | None \<Rightarrow>
                   (let (r, w2) = on_env (sy_container_restart sy t c (stop_timeout p)) w1
                    in case r of
                         Some e \<Rightarrow> (Some (''restart_container: failed to restart container '' @ c @ '': ''
                                      @ wrapped cli), w2)
                       | None \<Rightarrow>
                           (let (i, w3) = on_env (sy_container_inspect sy t c) w2
                            in case i of
                                 Inl e \<Rightarrow> (Some (''restart_container: failed to inspect container '' @ c
                                              @ '' after restart: '' @ e), w3)
                               | Inr st \<Rightarrow>
                                   if container_status st \<noteq> ''running''
                                   then (Some (''restart_container: container '' @ c
                                           @ '' did not become running after restart (status: ''
                                           @ container_status st @ '')''), w3)
                                   else (None, w3)))))"

definition restart_container_action :: "'e system \<Rightarrow> 'e action" where
  "restart_container_action sy = \<lparr>a_Name = ''restart_container'', a_Execute = restart_container_execute sy\<rparr>"

text \<open>\<open>ForceUpdate\<close> is an unsigned 64-bit counter.\<close>

definition update_swarm_service_execute ::
  "'e system \<Rightarrow> duration option \<Rightarrow> string gmap option \<Rightarrow> 'e world \<Rightarrow> goerror option \<times> 'e world" where
  "update_swarm_service_execute sy t p w =
     (let s = param p ''service''
      in if s = '''' then (Some ''update_swarm_service: 'service' parameter is required'', w)
         else
           (let (cli, w1) = on_env (sy_docker_client sy) w
            in case cli of
                 Some e \<Rightarrow> (Some (''update_swarm_service: failed to create docker client: '' @ e), w1)
               | None \<Rightarrow>
                   (let (r, w2) = on_env (sy_service_inspect sy t s) w1
                    in case r of
                         Inl e \<Rightarrow> (Some (''update_swarm_service: failed to inspect service '' @ s @ '': '' @ e), w2)
                       | Inr svc \<Rightarrow>
                           (let svc' = svc\<lparr>svc_ForceUpdate := (svc_ForceUpdate svc + 1) mod 2 ^ 64\<rparr>;
                                (u, w3) = on_env (sy_service_update sy t svc') w2
                            in case u of
                                 Some e \<Rightarrow> (Some (''update_swarm_service: failed to update service '' @ s
                                              @ '': '' @ e), w3)
                               | None \<Rightarrow> (None, w3)))))"

definition update_swarm_service_action :: "'e system \<Rightarrow> 'e action" where
  "update_swarm_service_action sy = \<lparr>a_Name = ''update_swarm_service'', a_Execute = update_swarm_service_execute sy\<rparr>"

section \<open>Kubernetes\<close>

record kube_scale =
  ks_Replicas :: int
  ks_Rest :: string

record kube_deployment =
  kd_UID :: string
  kd_Selector :: string

record replica_set =
  rs_Owners :: "string list"
  rs_Annotations :: "string gmap"
  rs_Template :: string

record 'e kube =
  kb_delete_pod :: "duration option \<Rightarrow> string \<Rightarrow> string \<Rightarrow> int \<Rightarrow> 'e \<Rightarrow> goerror option \<times> 'e"
  kb_get_scale :: "duration option \<Rightarrow> string \<Rightarrow> string \<Rightarrow> 'e \<Rightarrow> (goerror + kube_scale) \<times> 'e"
  kb_update_scale :: "duration option \<Rightarrow> string \<Rightarrow> string \<Rightarrow> kube_scale \<Rightarrow> 'e \<Rightarrow> goerror option \<times> 'e"
  kb_get_deployment :: "duration option \<Rightarrow> string \<Rightarrow> string \<Rightarrow> 'e \<Rightarrow> (goerror + kube_deployment) \<times> 'e"
  kb_list_replica_sets :: "duration option \<Rightarrow> string \<Rightarrow> string \<Rightarrow> 'e \<Rightarrow> (goerror + replica_set list) \<times> 'e"
  kb_patch_template :: "duration option \<Rightarrow> string \<Rightarrow> string \<Rightarrow> string \<Rightarrow> 'e \<Rightarrow> goerror option \<times> 'e"

definition namespace_param :: "string gmap option \<Rightarrow> string" where
  "namespace_param p = (if param p ''namespace'' = '''' then ''default'' else param p ''namespace'')"

definition grace_period :: "'e system \<Rightarrow> string gmap option \<Rightarrow> int" where
  "grace_period sy p =
     (case param_opt p ''grace_period'' of
        None \<Rightarrow> 30
      | Some v \<Rightarrow> (case sy_sscan sy v 30 of (n, None) \<Rightarrow> n | (n, Some e) \<Rightarrow> 30))"

definition restart_pod_execute ::
  "'e system \<Rightarrow> 'e kube option \<Rightarrow> duration option \<Rightarrow> string gmap option \<Rightarrow> 'e world \<Rightarrow> goerror option \<times> 'e world" where
  "restart_pod_execute sy client t p w =
     (case client of
        None \<Rightarrow> (Some ''restart_pod: kubernetes is not available'', w)
      | Some k \<Rightarrow>
          (let ns = namespace_param p; pod = param p ''pod''
           in if pod = '''' then (Some ''restart_pod: 'pod' parameter is required'', w)
              else
                (let (r, w1) = on_env (kb_delete_pod k t ns pod (grace_period sy p)) w
                 in case r of
                      Some e \<Rightarrow> (Some (''restart_pod: deleting pod '' @ ns @ ''/'' @ pod @ '': '' @ e), w1)
                    | None \<Rightarrow> (None, w1))))"

definition restart_pod_action :: "'e system \<Rightarrow> 'e kube option \<Rightarrow> 'e action" where
  "restart_pod_action sy k = \<lparr>a_Name = ''restart_pod'', a_Execute = restart_pod_execute sy k\<rparr>"

text \<open>\<open>strconv.ParseInt\<close> in base 10 to 32 bits: an optional sign and digits, in range.\<close>

definition parse_int32 :: "string \<Rightarrow> int option" where
  "parse_int32 s =
     (let neg = (s \<noteq> [] \<and> hd s = CHR ''-'');
          ds = (if s \<noteq> [] \<and> (hd s = CHR ''-'' \<or> hd s = CHR ''+'') then tl s else s);
          v = (if neg then - int (dec_val ds) else int (dec_val ds))
      in if ds = [] \<or> \<not> list_all is_digit ds then None
         else if v < - (2 ^ 31) \<or> 2 ^ 31 \<le> v then None else Some v)"

definition scale_replicas_execute ::
  "'e kube option \<Rightarrow> duration option \<Rightarrow> string gmap option \<Rightarrow> 'e world \<Rightarrow> goerror option \<times> 'e world" where
  "scale_replicas_execute client t p w =
     (case client of
        None \<Rightarrow> (Some ''scale_replicas: kubernetes is not available'', w)
      | Some k \<Rightarrow>
          (let ns = namespace_param p; dep = param p ''deployment''; raw = param p ''replicas''
           in if dep = '''' then (Some ''scale_replicas: 'deployment' parameter is required'', w)
              else if raw = '''' then (Some ''scale_replicas: 'replicas' parameter is required'', w)
              else case (case parse_int32 raw of None \<Rightarrow> None | Some n \<Rightarrow> if n < 0 then None else Some n) of
                None \<Rightarrow>
                  (Some (''scale_replicas: 'replicas' must be a non-negative integer (got ''
                     @ go_quote raw @ '')''), w)
              | Some n \<Rightarrow>
                  (let (r, w1) = on_env (kb_get_scale k t ns dep) w
                   in case r of
                        Inl e \<Rightarrow> (Some (''scale_replicas: getting scale for '' @ ns @ ''/'' @ dep @ '': '' @ e), w1)
                      | Inr sc \<Rightarrow>
                          (let (u, w2) = on_env (kb_update_scale k t ns dep (sc\<lparr>ks_Replicas := n\<rparr>)) w1
                           in case u of
                                Some e \<Rightarrow> (Some (''scale_replicas: updating scale for '' @ ns @ ''/'' @ dep
                                             @ '': '' @ e), w2)
                              | None \<Rightarrow> (None, w2)))))"

definition scale_replicas_action :: "'e kube option \<Rightarrow> 'e action" where
  "scale_replicas_action k = \<lparr>a_Name = ''scale_replicas'', a_Execute = scale_replicas_execute k\<rparr>"

section \<open>The previous revision of a deployment\<close>

fun is_owned_by :: "string list \<Rightarrow> string \<Rightarrow> bool" where
  "is_owned_by [] uid \<longleftrightarrow> False"
| "is_owned_by (ref # refs) uid \<longleftrightarrow> (if ref = uid then True else is_owned_by refs uid)"

definition parse_revision :: "'e system \<Rightarrow> string \<Rightarrow> int" where
  "parse_revision sy s = fst (sy_sscan sy s 0)"

definition revision_of :: "'e system \<Rightarrow> replica_set \<Rightarrow> int" where
  "revision_of sy rs =
     parse_revision sy (gget_or '''' (rs_Annotations rs) ''deployment.kubernetes.io/revision'')"

text \<open>The three tests of the loop body on the highest revision, the previous one and its set.\<close>

definition revision_step ::
  "int \<Rightarrow> 'r \<Rightarrow> int \<times> int \<times> 'r option \<Rightarrow> int \<times> int \<times> 'r option" where
  "revision_step rn rs st =
     (let (maxR, prevR, prev) = st;
          (maxR, prevR, prev) = (if maxR < rn then (rn, maxR, None) else (maxR, prevR, prev));
          prev = (if rn = prevR \<and> 0 < rn then Some rs else prev);
          (prevR, prev) = (if prevR < rn \<and> rn < maxR then (rn, Some rs) else (prevR, prev))
      in (maxR, prevR, prev))"

fun revision_loop ::
  "('r \<Rightarrow> bool) \<Rightarrow> ('r \<Rightarrow> int) \<Rightarrow> 'r list \<Rightarrow> int \<times> int \<times> 'r option \<Rightarrow> int \<times> int \<times> 'r option" where
  "revision_loop owned rn [] st = st"
| "revision_loop owned rn (rs # rss) st =
     (if \<not> owned rs then revision_loop owned rn rss st
      else revision_loop owned rn rss (revision_step (rn rs) rs st))"

definition find_previous_revision ::
  "'e system \<Rightarrow> replica_set list \<Rightarrow> kube_deployment \<Rightarrow> replica_set option" where
  "find_previous_revision sy rss dep =
     snd (snd (revision_loop (\<lambda>rs. is_owned_by (rs_Owners rs) (kd_UID dep)) (revision_of sy) rss (0, 0, None)))"

definition rollback_deployment_execute ::
  "'e system \<Rightarrow> 'e kube option \<Rightarrow> duration option \<Rightarrow> string gmap option \<Rightarrow> 'e world \<Rightarrow> goerror option \<times> 'e world" where
  "rollback_deployment_execute sy client t p w =
     (case client of
        None \<Rightarrow> (Some ''rollback_deployment: kubernetes is not available'', w)
      | Some k \<Rightarrow>
          (let ns = namespace_param p; dep = param p ''deployment''
           in if dep = '''' then (Some ''rollback_deployment: 'deployment' parameter is required'', w)
              else
                (let (r, w1) = on_env (kb_get_deployment k t ns dep) w
                 in case r of
                      Inl e \<Rightarrow> (Some (''rollback_deployment: getting deployment '' @ ns @ ''/'' @ dep
                                   @ '': '' @ e), w1)
                    | Inr d \<Rightarrow>
                        (let (l, w2) = on_env (kb_list_replica_sets k t ns (kd_Selector d)) w1
                         in case l of
                              Inl e \<Rightarrow> (Some (''rollback_deployment: listing replicasets: '' @ e), w2)
                            | Inr rss \<Rightarrow>
                                (case find_previous_revision sy rss d of
                                   None \<Rightarrow> (Some (''rollback_deployment: no previous revision found for ''
                                              @ ns @ ''/'' @ dep), w2)
                                 | Some prev \<Rightarrow>
                                     (let (u, w3) = on_env (kb_patch_template k t ns dep (rs_Template prev)) w2
                                      in case u of
                                           Some e \<Rightarrow> (Some (''rollback_deployment: patching deployment ''
                                                        @ ns @ ''/'' @ dep @ '': '' @ e), w3)
                                         | None \<Rightarrow> (None, w3)))))))"

definition rollback_deployment_action :: "'e system \<Rightarrow> 'e kube option \<Rightarrow> 'e action" where
  "rollback_deployment_action sy k = \<lparr>a_Name = ''rollback_deployment'', a_Execute = rollback_deployment_execute sy k\<rparr>"

end
