(* ===== verification/File_Actions.thy ===== *)
theory File_Actions
  imports Builtin_Actions
begin

text \<open>
  The built-in actions on files and the webhook: \<open>clear_temp\<close>, \<open>rotate_logs\<close> and
  \<open>webhook\<close> of \<open>internal/plugins/actions\<close>, and the list of actions
  \<open>internal/runtime/runtime.go\<close> registers.
\<close>

section \<open>The allowed directories\<close>

fun has_allowed_prefix :: "string list \<Rightarrow> string \<Rightarrow> bool" where
  "has_allowed_prefix [] path \<longleftrightarrow> False"
| "has_allowed_prefix (allowed # rest) path \<longleftrightarrow>
     (if has_prefix path allowed then True else has_allowed_prefix rest path)"

fun show_list :: "string list \<Rightarrow> string" where
  "show_list [] = ''''"
| "show_list [s] = s"
| "show_list (s # ss) = s @ '' '' @ show_list ss"

definition validate_path :: "'e system \<Rightarrow> string list \<Rightarrow> string \<Rightarrow> 'e world \<Rightarrow> goerror option" where
  "validate_path sy allowed path w =
     (case sy_abs sy path (w_env w) of
        Inl e \<Rightarrow> Some (''invalid path: '' @ e)
      | Inr absPath \<Rightarrow>
          if has_allowed_prefix allowed absPath then None
          else Some (''path '' @ go_quote path @ '' is not in allowed paths: ['' @ show_list allowed @ '']''))"

definition clear_temp_allowed :: "string list" where
  "clear_temp_allowed = [''/tmp'', ''/var/tmp'', ''/var/log'', ''/var/cache'']"

definition rotate_logs_allowed :: "string list" where
  "rotate_logs_allowed = [''/var/log'', ''/opt/app/logs'', ''/var/cache'']"

section \<open>Clearing temporary files\<close>

text \<open>
  The callback of the walk: an error of its own ends the walk, every other outcome goes on. It
  counts the files removed and their bytes.
\<close>

definition clear_entry ::
  "'e system \<Rightarrow> duration option \<Rightarrow> string \<Rightarrow> gotime \<Rightarrow> walk_entry \<Rightarrow> nat \<times> int \<times> 'e world
   \<Rightarrow> goerror option \<times> nat \<times> int \<times> 'e world" where
  "clear_entry sy t pattern cutoff d st =
     (let (cleared, totalBytes, w) = st
      in if we_Error d \<noteq> None then (None, st)
         else if sy_ctx_err sy t (w_env w) \<noteq> None then (sy_ctx_err sy t (w_env w), st)
         else if we_IsDir d then (None, st)
         else if pattern \<noteq> ''*'' \<and> \<not> sy_match sy pattern (we_Name d) then (None, st)
         else case we_Info d of
           Inl e \<Rightarrow> (None, st)
         | Inr info \<Rightarrow>
             if cutoff < fi_ModTime info then (None, st)
             else
               (let (r, w1) = on_env (sy_remove sy (we_Path d)) w
                in if r \<noteq> None then (None, cleared, totalBytes, w1)
                   else (None, cleared + 1, wrap64 (totalBytes + fi_Size info), w1)))"

fun clear_walk ::
  "'e system \<Rightarrow> duration option \<Rightarrow> string \<Rightarrow> gotime \<Rightarrow> walk_entry list \<Rightarrow> nat \<times> int \<times> 'e world
   \<Rightarrow> goerror option \<times> nat \<times> int \<times> 'e world" where
  "clear_walk sy t pattern cutoff [] st = (None, st)"
| "clear_walk sy t pattern cutoff (d # ds) st =
     (case clear_entry sy t pattern cutoff d st of
        (Some e, st') \<Rightarrow> (Some e, st')
      | (None, st') \<Rightarrow> clear_walk sy t pattern cutoff ds st')"

definition clear_temp_execute ::
  "'e system \<Rightarrow> duration option \<Rightarrow> string gmap option \<Rightarrow> 'e world \<Rightarrow> goerror option \<times> 'e world" where
  "clear_temp_execute sy t p w =
     (let path = param p ''path''
      in if path = '''' then (Some ''clear_temp: 'path' parameter is required'', w)
         else case validate_path sy clear_temp_allowed path w of
           Some e \<Rightarrow> (Some (''clear_temp: '' @ e), w)
         | None \<Rightarrow>
             (let age = duration_param p ''age'' (24 * go_Hour);
                  pattern = (if param p ''pattern'' = '''' then ''*'' else param p ''pattern'');
                  (now, w1) = time_now w;
                  cutoff = now + wrap64 (- age);
                  (r, cleared, totalBytes, w2) =
                    clear_walk sy t pattern cutoff (sy_walk sy path (w_env w1)) (0, 0, w1)
              in case r of
                   Some e \<Rightarrow> (Some (''clear_temp: error walking directory: '' @ e), w2)
                 | None \<Rightarrow> (None, w2)))"

definition clear_temp_action :: "'e system \<Rightarrow> 'e action" where
  "clear_temp_action sy = \<lparr>a_Name = ''clear_temp'', a_Execute = clear_temp_execute sy\<rparr>"

section \<open>Rotating logs\<close>

text \<open>The size is an \<open>int64\<close>, and the product with the unit wraps around.\<close>

definition parse_size :: "'e system \<Rightarrow> string \<Rightarrow> int option" where
  "parse_size sy raw =
     (let s = to_upper (trim_space raw);
          (multiplier, s) =
            (if has_suffix s ''KB'' then (1024, trim_suffix s ''KB'')
             else if has_suffix s ''MB'' then (1024 * 1024, trim_suffix s ''MB'')
             else if has_suffix s ''GB'' then (1024 * 1024 * 1024, trim_suffix s ''GB'')
             else (1, s))
      in case sy_sscanf_d sy s of
           None \<Rightarrow> None
         | Some n \<Rightarrow> Some (wrap64 (n * multiplier)))"

definition truncate_file :: "'e system \<Rightarrow> string \<Rightarrow> int \<Rightarrow> 'e world \<Rightarrow> goerror option \<times> 'e world" where
  "truncate_file sy path maxSize w =
     (case sy_open sy path (w_env w) of
        Some e \<Rightarrow> (Some (''failed to open file: '' @ e), w)
      | None \<Rightarrow>
          (let (r, w1) = on_env (sy_truncate sy path maxSize) w
           in case r of
                Some e \<Rightarrow> (Some (''failed to truncate file: '' @ e), w1)
              | None \<Rightarrow> (None, w1)))"

definition max_size_param :: "'e system \<Rightarrow> string gmap option \<Rightarrow> int" where
  "max_size_param sy p =
     (case param_opt p ''max_size'' of
        None \<Rightarrow> 10 * 1024 * 1024
      | Some v \<Rightarrow> (case parse_size sy v of None \<Rightarrow> 10 * 1024 * 1024 | Some n \<Rightarrow> n))"

definition rotate_by_safe_truncation ::
  "'e system \<Rightarrow> string \<Rightarrow> string gmap option \<Rightarrow> 'e world \<Rightarrow> goerror option \<times> 'e world" where
  "rotate_by_safe_truncation sy path p w =
     (let maxSize = max_size_param sy p
      in case sy_stat sy path (w_env w) of
           Inl e \<Rightarrow> (Some (''failed to stat file: '' @ e), w)
         | Inr sz \<Rightarrow>
             if sz \<le> maxSize then (None, w)
             else
               (let (now, w1) = time_now w;
                    backupPath = path @ ''.'' @ sy_stamp sy now;
                    (r, w2) = on_env (sy_rename sy path backupPath) w1
                in if r \<noteq> None then truncate_file sy path maxSize w2
                   else
                     (let (c, w3) = on_env (sy_create sy path) w2
                      in case c of
                           Some e \<Rightarrow>
                             (Some (''failed to create new log file: '' @ e),
                              snd (on_env (sy_rename sy backupPath path) w3))
                         | None \<Rightarrow> (None, w3))))"

definition logrotate_config :: "string \<Rightarrow> string" where
  "logrotate_config path =
     path @ '' {'' @ [CHR 0x0A] @ ''    rotate 5'' @ [CHR 0x0A] @ ''    compress'' @ [CHR 0x0A]
     @ ''    missingok'' @ [CHR 0x0A] @ ''    notifempty'' @ [CHR 0x0A]
     @ ''    copytruncate'' @ [CHR 0x0A] @ ''}''"

text \<open>The temporary file is removed on every way out once it exists.\<close>

definition rotate_with_logrotate ::
  "'e system \<Rightarrow> duration option \<Rightarrow> string \<Rightarrow> 'e world \<Rightarrow> goerror option \<times> 'e world" where
  "rotate_with_logrotate sy t path w =
     (let (f, w1) = on_env (sy_create_temp sy) w
      in case f of
           Inl e \<Rightarrow> (Some (''failed to create temp config: '' @ e), w1)
         | Inr tmp \<Rightarrow>
             (let cleanup = (\<lambda>w. snd (on_env (sy_remove sy tmp) w));
                  (r, w2) = on_env (sy_write_temp sy tmp (logrotate_config path)) w1
              in case r of
                   Some e \<Rightarrow> (Some (''failed to write config: '' @ e), cleanup w2)
                 | None \<Rightarrow>
                     (let (c, w3) = on_env (sy_close_temp sy tmp) w2
                      in case c of
                           Some e \<Rightarrow> (Some (''failed to close temp config: '' @ e), cleanup w3)
                         | None \<Rightarrow>
                             (let (x, w4) = on_env (sy_command sy t [''logrotate'', ''-f'', tmp]) w3
                              in case snd x of
                                   Some e \<Rightarrow>
                                     (Some (''logrotate failed: '' @ e @ '' (output: ''
                                        @ trim_space (fst x) @ '')''), cleanup w4)
                                 | None \<Rightarrow> (None, cleanup w4)))))"

definition rotate_logs_execute ::
  "'e system \<Rightarrow> duration option \<Rightarrow> string gmap option \<Rightarrow> 'e world \<Rightarrow> goerror option \<times> 'e world" where
  "rotate_logs_execute sy t p w =
     (let path = param p ''path''
      in if path = '''' then (Some ''rotate_logs: 'path' parameter is required'', w)
         else case validate_path sy rotate_logs_allowed path w of
           Some e \<Rightarrow> (Some (''rotate_logs: '' @ e), w)
         | None \<Rightarrow>
             if sy_look_path sy ''logrotate'' (w_env w) then rotate_with_logrotate sy t path w
             else rotate_by_safe_truncation sy path p w)"

definition rotate_logs_action :: "'e system \<Rightarrow> 'e action" where
  "rotate_logs_action sy = \<lparr>a_Name = ''rotate_logs'', a_Execute = rotate_logs_execute sy\<rparr>"

section \<open>The webhook\<close>

definition webhook_redirect :: "nat \<Rightarrow> goerror option" where
  "webhook_redirect via = (if 3 \<le> via then Some ''too many redirects'' else None)"

definition webhook_client :: web_client where
  "webhook_client = \<lparr>wc_Timeout = 30 * go_Second, wc_CheckRedirect = webhook_redirect\<rparr>"

definition validate_url :: "'e system \<Rightarrow> string \<Rightarrow> goerror option" where
  "validate_url sy rawURL =
     (case sy_parse_url sy rawURL of
        Inl e \<Rightarrow> Some (''invalid URL: '' @ e)
      | Inr (scheme, host) \<Rightarrow>
          if scheme \<noteq> ''http'' \<and> scheme \<noteq> ''https'' then Some ''URL must use http or https scheme''
          else if host = '''' then Some ''URL must have a host''
          else None)"

definition webhook_data :: "string gmap option \<Rightarrow> string gmap" where
  "webhook_data p = filter (\<lambda>(k, v). k \<noteq> ''url'' \<and> k \<noteq> ''method'' \<and> k \<noteq> ''timeout'') (params_of p)"

definition webhook_body :: "'e system \<Rightarrow> string gmap option \<Rightarrow> string option" where
  "webhook_body sy p =
     (if param p ''payload'' \<noteq> '''' then Some (param p ''payload'')
      else if 0 < glen (webhook_data p) then Some (sy_json sy (webhook_data p))
      else None)"

definition webhook_headers :: "'e system \<Rightarrow> string gmap option \<Rightarrow> (string \<times> string) list" where
  "webhook_headers sy p =
     [(''Content-Type'', ''application/json''), (''User-Agent'', ''uptimy-agent/1.0'')]
     @ (case param_opt p ''headers'' of
          None \<Rightarrow> []
        | Some h \<Rightarrow> (case sy_json_headers sy h of None \<Rightarrow> [] | Some m \<Rightarrow> m))"

definition webhook_execute ::
  "'e system \<Rightarrow> duration option \<Rightarrow> string gmap option \<Rightarrow> 'e world \<Rightarrow> goerror option \<times> 'e world" where
  "webhook_execute sy t p w =
     (let webhookURL = param p ''url''
      in if webhookURL = '''' then (Some ''webhook: 'url' parameter is required'', w)
         else case validate_url sy webhookURL of
           Some e \<Rightarrow> (Some (''webhook: '' @ e), w)
         | None \<Rightarrow>
             (let m = (if param p ''method'' = '''' then ''POST'' else param p ''method'');
                  timeout = duration_param p ''timeout'' (30 * go_Second)
              in case sy_new_request sy m webhookURL of
                   Some e \<Rightarrow> (Some (''webhook: failed to create request: '' @ e), w)
                 | None \<Rightarrow>
                     (let req = \<lparr>wr_Method = m, wr_URL = webhookURL, wr_Body = webhook_body sy p,
                                 wr_Headers = webhook_headers sy p, wr_Timeout = timeout\<rparr>;
                          (r, w1) = on_env (sy_http_do sy webhook_client t req) w
                      in case r of
                           Inl e \<Rightarrow> (Some (''webhook: request failed: '' @ e), w1)
                         | Inr resp \<Rightarrow>
                             if 400 \<le> wp_StatusCode resp
                             then (Some (''webhook: received status '' @ show_int (wp_StatusCode resp)
                                     @ '': '' @ take 1024 (wp_Body resp)), w1)
                             else (None, w1))))"

definition webhook_action :: "'e system \<Rightarrow> 'e action" where
  "webhook_action sy = \<lparr>a_Name = ''webhook'', a_Execute = webhook_execute sy\<rparr>"

section \<open>The built-in actions\<close>

text \<open>The list \<open>New\<close> of the runtime registers, in its order.\<close>

definition builtin_actions ::
  "'e system \<Rightarrow> (check_error, 'e) check_registry \<Rightarrow> 'e kube option \<Rightarrow> 'e action list" where
  "builtin_actions sy reg k =
     [wait_action sy, healthcheck_action reg, restart_pod_action sy k, restart_container_action sy,
      start_container_action sy, stop_container_action sy, update_swarm_service_action sy,
      restart_service_action sy, start_service_action sy, stop_service_action sy,
      rollback_deployment_action sy k, scale_replicas_action k, clear_temp_action sy,
      rotate_logs_action sy, webhook_action sy]"

lemmas action_defs =
  wait_action_def healthcheck_action_def restart_pod_action_def restart_container_action_def
  start_container_action_def stop_container_action_def update_swarm_service_action_def
  restart_service_action_def start_service_action_def stop_service_action_def
  rollback_deployment_action_def scale_replicas_action_def clear_temp_action_def
  rotate_logs_action_def webhook_action_def

definition register_builtin_actions ::
  "'e system \<Rightarrow> (check_error, 'e) check_registry \<Rightarrow> 'e kube option \<Rightarrow> registry_error + 'e action_registry" where
  "register_builtin_actions sy reg k =
     register_all action_register (builtin_actions sy reg k) new_action_registry"

end
