(* ===== verification/Guardrails.thy ===== *)
theory Guardrails
  imports Prelude
begin

text \<open>
  The repair guardrails (\<open>internal/repair/guardrails.go\<close>): hourly limits per rule, cooldowns per
  action, allowed and forbidden actions. Each method holds the mutex, so it is one atomic operation;
  the number of clock readings depends on the branch taken, so the world is threaded through.
\<close>

section \<open>State\<close>

record guardrails =
  gr_maxRepairs :: "int gmap"
  gr_repairHistory :: "gotime list gmap"
  gr_cooldowns :: "duration gmap"
  gr_lastExecution :: "gotime gmap"
  gr_allowedActions :: "bool gmap"
  gr_forbiddenActions :: "bool gmap"

text \<open>The remaining cooldown and the counts are what the messages print.\<close>

datatype guard_error =
    ActionForbidden string
  | ActionNotAllowed string
  | ActionInCooldown string duration
  | RateLimitExceeded string nat int

definition new_guardrails :: guardrails where
  "new_guardrails =
     \<lparr>gr_maxRepairs = [], gr_repairHistory = [], gr_cooldowns = [], gr_lastExecution = [],
      gr_allowedActions =
        [(''restart_pod'', True), (''restart_container'', True), (''start_container'', True),
         (''stop_container'', True), (''update_swarm_service'', True), (''restart_service'', True),
         (''start_service'', True), (''stop_service'', True), (''rollback_deployment'', True),
         (''scale_replicas'', True), (''wait'', True), (''healthcheck'', True),
         (''clear_temp'', True), (''rotate_logs'', True), (''webhook'', True)],
      gr_forbiddenActions =
        [(''shell_exec'', True), (''delete_files'', True), (''modify_secrets'', True)]\<rparr>"

section \<open>Operations\<close>

definition set_max_repairs_per_hour :: "string \<Rightarrow> int \<Rightarrow> guardrails \<Rightarrow> guardrails" where
  "set_max_repairs_per_hour rule limit g = g\<lparr>gr_maxRepairs := gset rule limit (gr_maxRepairs g)\<rparr>"

definition set_cooldown :: "string \<Rightarrow> duration \<Rightarrow> guardrails \<Rightarrow> guardrails" where
  "set_cooldown action d g = g\<lparr>gr_cooldowns := gset action d (gr_cooldowns g)\<rparr>"

definition allow_action :: "string \<Rightarrow> guardrails \<Rightarrow> guardrails" where
  "allow_action name g =
     g\<lparr>gr_allowedActions := gset name True (gr_allowedActions g),
       gr_forbiddenActions := gdel name (gr_forbiddenActions g)\<rparr>"

definition check_action ::
  "string \<Rightarrow> guardrails \<Rightarrow> 'e world \<Rightarrow> guard_error option \<times> 'e world" where
  "check_action name g w =
     (if gget_or False (gr_forbiddenActions g) name then (Some (ActionForbidden name), w)
      else if 0 < glen (gr_allowedActions g) \<and> \<not> gget_or False (gr_allowedActions g) name
      then (Some (ActionNotAllowed name), w)
      else case gget (gr_cooldowns g) name of
        None \<Rightarrow> (None, w)
      | Some cooldown \<Rightarrow>
          (case gget (gr_lastExecution g) name of
             None \<Rightarrow> (None, w)
           | Some last_exec \<Rightarrow>
               (let (now, w1) = time_now w
                in if now - last_exec < cooldown
                   then (let (now', w2) = time_now w1
                         in (Some (ActionInCooldown name (cooldown - (now' - last_exec))), w2))
                   else (None, w1))))"

text \<open>The loop that keeps the entries after the cutoff.\<close>

fun prune_history :: "gotime \<Rightarrow> gotime list \<Rightarrow> gotime list" where
  "prune_history cutoff [] = []"
| "prune_history cutoff (t # ts) =
     (if cutoff < t then t # prune_history cutoff ts else prune_history cutoff ts)"

definition check_rate_limit ::
  "string \<Rightarrow> guardrails \<Rightarrow> 'e world \<Rightarrow> guard_error option \<times> guardrails \<times> 'e world" where
  "check_rate_limit rule g w =
     (case gget (gr_maxRepairs g) rule of
        None \<Rightarrow> (None, g, w)
      | Some limit \<Rightarrow>
          (let (now, w1) = time_now w;
               pruned = prune_history (now - go_Hour) (gget_or [] (gr_repairHistory g) rule);
               g1 = g\<lparr>gr_repairHistory := gset rule pruned (gr_repairHistory g)\<rparr>
           in if limit \<le> int (length pruned)
              then (Some (RateLimitExceeded rule (length pruned) limit), g1, w1)
              else (None, g1, w1)))"

definition record_repair :: "string \<Rightarrow> guardrails \<Rightarrow> 'e world \<Rightarrow> guardrails \<times> 'e world" where
  "record_repair rule g w =
     (let (now, w1) = time_now w;
          pruned = prune_history (now - go_Hour) (gget_or [] (gr_repairHistory g) rule);
          (now', w2) = time_now w1
      in (g\<lparr>gr_repairHistory := gset rule (pruned @ [now']) (gr_repairHistory g)\<rparr>, w2))"

definition record_action_execution :: "string \<Rightarrow> guardrails \<Rightarrow> 'e world \<Rightarrow> guardrails \<times> 'e world" where
  "record_action_execution name g w =
     (let (now, w1) = time_now w
      in (g\<lparr>gr_lastExecution := gset name now (gr_lastExecution g)\<rparr>, w1))"

section \<open>Permission\<close>

text \<open>
  What an action needs to be permitted, apart from its cooldown: not forbidden, and allowed unless
  the allowed set is empty.
\<close>

definition permitted :: "guardrails \<Rightarrow> string \<Rightarrow> bool" where
  "permitted g name \<longleftrightarrow> \<not> gget_or False (gr_forbiddenActions g) name
     \<and> (gr_allowedActions g = [] \<or> gget_or False (gr_allowedActions g) name)"

definition cooling :: "guardrails \<Rightarrow> string \<Rightarrow> gotime \<Rightarrow> bool" where
  "cooling g name now \<longleftrightarrow>
     (\<exists>d t. gget (gr_cooldowns g) name = Some d \<and> gget (gr_lastExecution g) name = Some t \<and> now < t + d)"

lemma check_action_iff:
  "fst (check_action name g w) = None \<longleftrightarrow>
     permitted g name \<and> \<not> cooling g name (w_clock w (w_reads w))"
  by (auto simp: check_action_def permitted_def cooling_def glen_def time_now_def
      split: option.splits)

lemma check_action_world:
  "w_clock (snd (check_action name g w)) = w_clock w"
  "w_env (snd (check_action name g w)) = w_env w"
  "w_reads w \<le> w_reads (snd (check_action name g w))"
  by (auto simp: check_action_def time_now_def split: option.splits)

lemma permitted_allow: "permitted (allow_action name g) n \<longleftrightarrow> n = name \<or>
    (\<not> gget_or False (gr_forbiddenActions g) n \<and> gget_or False (gr_allowedActions g) n)"
  by (auto simp: permitted_def allow_action_def)

section \<open>History\<close>

lemma prune_history_filter: "prune_history c ts = filter (\<lambda>t. c < t) ts"
  by (induction ts) auto

lemma prune_history_length: "length (prune_history c ts) \<le> length ts"
  by (simp add: prune_history_filter)

definition history :: "guardrails \<Rightarrow> string \<Rightarrow> gotime list" where
  "history g rule = gget_or [] (gr_repairHistory g) rule"

lemma check_rate_limit_frame [simp, frame_simps]:
  "gr_maxRepairs (fst (snd (check_rate_limit rule g w))) = gr_maxRepairs g"
  "gr_cooldowns (fst (snd (check_rate_limit rule g w))) = gr_cooldowns g"
  "gr_lastExecution (fst (snd (check_rate_limit rule g w))) = gr_lastExecution g"
  "gr_allowedActions (fst (snd (check_rate_limit rule g w))) = gr_allowedActions g"
  "gr_forbiddenActions (fst (snd (check_rate_limit rule g w))) = gr_forbiddenActions g"
  "w_clock (snd (snd (check_rate_limit rule g w))) = w_clock w"
  "w_env (snd (snd (check_rate_limit rule g w))) = w_env w"
  by (simp_all add: check_rate_limit_def time_now_def Let_def split: option.splits)

lemma record_repair_frame [simp, frame_simps]:
  "gr_maxRepairs (fst (record_repair rule g w)) = gr_maxRepairs g"
  "gr_cooldowns (fst (record_repair rule g w)) = gr_cooldowns g"
  "gr_lastExecution (fst (record_repair rule g w)) = gr_lastExecution g"
  "gr_allowedActions (fst (record_repair rule g w)) = gr_allowedActions g"
  "gr_forbiddenActions (fst (record_repair rule g w)) = gr_forbiddenActions g"
  "w_clock (snd (record_repair rule g w)) = w_clock w"
  "w_env (snd (record_repair rule g w)) = w_env w"
  "w_reads (snd (record_repair rule g w)) = w_reads w + 2"
  by (simp_all add: record_repair_def time_now_def Let_def)

lemma record_action_execution_frame [simp, frame_simps]:
  "gr_maxRepairs (fst (record_action_execution a g w)) = gr_maxRepairs g"
  "gr_repairHistory (fst (record_action_execution a g w)) = gr_repairHistory g"
  "gr_cooldowns (fst (record_action_execution a g w)) = gr_cooldowns g"
  "gr_allowedActions (fst (record_action_execution a g w)) = gr_allowedActions g"
  "gr_forbiddenActions (fst (record_action_execution a g w)) = gr_forbiddenActions g"
  "w_clock (snd (record_action_execution a g w)) = w_clock w"
  "w_env (snd (record_action_execution a g w)) = w_env w"
  "w_reads (snd (record_action_execution a g w)) = w_reads w + 1"
  by (simp_all add: record_action_execution_def time_now_def Let_def)

lemma record_repair_history:
  "history (fst (record_repair rule g w)) r =
     (if r = rule
      then filter (\<lambda>t. w_clock w (w_reads w) - go_Hour < t) (history g r) @ [w_clock w (Suc (w_reads w))]
      else history g r)"
  by (simp add: record_repair_def history_def time_now_def Let_def prune_history_filter)

lemma check_rate_limit_history:
  "history (fst (snd (check_rate_limit rule g w))) r =
     (if r = rule \<and> gget (gr_maxRepairs g) rule \<noteq> None
      then filter (\<lambda>t. w_clock w (w_reads w) - go_Hour < t) (history g r) else history g r)"
  by (auto simp: check_rate_limit_def history_def time_now_def Let_def prune_history_filter
      split: option.splits)

lemma check_rate_limit_iff:
  "fst (check_rate_limit rule g w) = None \<longleftrightarrow>
     (case gget (gr_maxRepairs g) rule of
        None \<Rightarrow> True
      | Some limit \<Rightarrow> int (length (filter (\<lambda>t. w_clock w (w_reads w) - go_Hour < t) (history g rule))) < limit)"
  by (auto simp: check_rate_limit_def history_def time_now_def Let_def prune_history_filter
      split: option.splits)

lemma check_rate_limit_reads:
  "w_reads (snd (snd (check_rate_limit rule g w))) =
     (if gget (gr_maxRepairs g) rule = None then w_reads w else Suc (w_reads w))"
  by (auto simp: check_rate_limit_def time_now_def Let_def split: option.splits)

end
