(* ===== verification/Engine.thy ===== *)
theory Engine
  imports Actions Config Guardrails Go_Duration Manager_Props
begin

text \<open>
  The repair engine (\<open>internal/repair/engine.go\<close> and \<open>recipe.go\<close>): recipes compiled from the
  configuration, one step with its retries, one recipe, one incident from its snapshot to the stored
  result. The agent's state is the incident manager, the guardrails and the world; the engine shares
  the manager's store and recorder, as the runtime wires them. Where a call reads the clock a bounded
  number of times it gets that many readings, whether or not its branch uses them all.
\<close>

section \<open>Recipes\<close>

datatype recipe_status = RecipePending | RecipeRunning | RecipeSuccess | RecipeFailed | RecipeSkipped

fun recipe_status_string :: "recipe_status \<Rightarrow> string" where
  "recipe_status_string RecipePending = ''pending''"
| "recipe_status_string RecipeRunning = ''running''"
| "recipe_status_string RecipeSuccess = ''success''"
| "recipe_status_string RecipeFailed = ''failed''"
| "recipe_status_string RecipeSkipped = ''skipped''"

record recipe_step =
  st_Name :: string
  st_ActionName :: string
  st_Retries :: int
  st_Timeout :: duration
  st_OnFailureOnly :: bool
  st_Params :: "string gmap option"

record recipe =
  wf_Name :: string
  wf_Steps :: "recipe_step list"

text \<open>The wrapped error of a step whose attempts all failed is nil when there was no attempt.\<close>

datatype step_error =
    GuardrailBlocked guard_error
  | ActionNotFound string
  | ActionFailed string int "goerror option"

record step_result =
  sr_StepName :: string
  sr_ActionName :: string
  sr_Status :: recipe_status
  sr_Attempts :: int
  sr_Duration :: duration
  sr_Error :: "step_error option"

record recipe_result =
  res_RecipeName :: string
  res_IncidentID :: string
  res_Status :: recipe_status
  res_StepResults :: "step_result list"
  res_StartedAt :: gotime
  res_FinishedAt :: gotime
  res_Error :: "step_error option"

section \<open>Error messages\<close>

text \<open>\<open>%.0f\<close> of a number of seconds rounds half to even.\<close>

definition show_whole_seconds :: "duration \<Rightarrow> string" where
  "show_whole_seconds d =
     (let q = \<bar>d\<bar> div go_Second; r = \<bar>d\<bar> mod go_Second;
          n = (if 2 * r > go_Second \<or> (2 * r = go_Second \<and> odd q) then q + 1 else q)
      in (if d < 0 then ''-'' else '''') @ show_int n)"

fun guard_error_string :: "guard_error \<Rightarrow> string" where
  "guard_error_string (ActionForbidden a) = ''action '' @ go_quote a @ '' is forbidden''"
| "guard_error_string (ActionNotAllowed a) = ''action '' @ go_quote a @ '' is not in the allowed list''"
| "guard_error_string (ActionInCooldown a d) =
     ''action '' @ go_quote a @ '' is in cooldown ('' @ show_whole_seconds d @ ''s remaining)''"
| "guard_error_string (RateLimitExceeded r n limit) =
     ''rule '' @ go_quote r @ '' rate limit exceeded ('' @ show_nat n @ ''/'' @ show_int limit
     @ '' repairs in the last hour)''"

fun step_error_string :: "step_error \<Rightarrow> string" where
  "step_error_string (GuardrailBlocked e) = ''guardrail blocked: '' @ guard_error_string e"
| "step_error_string (ActionNotFound a) = ''action '' @ go_quote a @ '' not found in registry''"
| "step_error_string (ActionFailed a n e) =
     ''action '' @ go_quote a @ '' failed after '' @ show_int n @ '' attempts: ''
     @ (case e of None \<Rightarrow> ''%!w(<nil>)'' | Some m \<Rightarrow> m)"

section \<open>The engine and its configuration\<close>

record 'e engine =
  en_actions :: "'e action_registry"
  en_rules :: "repair_rule_config gmap"
  en_recipes :: "recipe gmap"

definition new_engine :: "'e action_registry \<Rightarrow> 'e engine" where
  "new_engine actions = \<lparr>en_actions = actions, en_rules = [], en_recipes = []\<rparr>"

fun load_rules ::
  "repair_rule_config list \<Rightarrow> 'e engine \<times> guardrails \<Rightarrow> 'e engine \<times> guardrails" where
  "load_rules [] eg = eg"
| "load_rules (rule # rules) (en, g) =
     load_rules rules
       (en\<lparr>en_rules := gset (rr_Check rule) rule (en_rules en)\<rparr>,
        if 0 < rr_MaxRepairsPerHour rule
        then set_max_repairs_per_hour (rr_Rule rule) (rr_MaxRepairsPerHour rule) g else g)"

definition set_param :: "string \<Rightarrow> string \<Rightarrow> string gmap option \<Rightarrow> string gmap option" where
  "set_param k v p = Some (gset k v (case p of None \<Rightarrow> [] | Some m \<Rightarrow> m))"

definition compile_step :: "string \<Rightarrow> nat \<Rightarrow> recipe_step_config \<Rightarrow> recipe_step" where
  "compile_step recipe i step =
     (let p0 = sc_Params step;
          p1 = (if 0 < sc_Duration step
                then set_param ''duration'' (duration_string (sc_Duration step)) p0 else p0);
          p2 = (if sc_Check step \<noteq> '''' then set_param ''check'' (sc_Check step) p1 else p1)
      in \<lparr>st_Name = recipe @ ''-step-'' @ show_nat i, st_ActionName = sc_Action step,
          st_Retries = sc_Retries step, st_Timeout = sc_Timeout step,
          st_OnFailureOnly = sc_OnFailureOnly step, st_Params = p2\<rparr>)"

fun compile_steps :: "string \<Rightarrow> nat \<Rightarrow> recipe_step_config list \<Rightarrow> recipe_step list" where
  "compile_steps recipe i [] = []"
| "compile_steps recipe i (s # ss) = compile_step recipe i s # compile_steps recipe (Suc i) ss"

fun load_recipes :: "recipe_config list \<Rightarrow> 'e engine \<Rightarrow> 'e engine" where
  "load_recipes [] en = en"
| "load_recipes (r # rs) en =
     load_recipes rs
       (en\<lparr>en_recipes := gset (rc_Name r)
             \<lparr>wf_Name = rc_Name r, wf_Steps = compile_steps (rc_Name r) 0 (rc_Steps r)\<rparr> (en_recipes en)\<rparr>)"

definition load_config ::
  "repair_rule_config list \<Rightarrow> recipe_config list \<Rightarrow> 'e engine \<times> guardrails \<Rightarrow> 'e engine \<times> guardrails" where
  "load_config repairs recipes eg =
     (let (en, g) = load_rules repairs eg in (load_recipes recipes en, g))"

section \<open>One step\<close>

text \<open>One more than the largest number of retries wraps around.\<close>

definition max_attempts :: "recipe_step \<Rightarrow> int" where
  "max_attempts step = wrap64 (1 + st_Retries step)"

definition step_timeout :: "recipe_step \<Rightarrow> duration option" where
  "step_timeout step = (if 0 < st_Timeout step then Some (st_Timeout step) else None)"

text \<open>The loop over the attempts: \<open>n\<close> are left, \<open>k\<close> were made.\<close>

fun attempt_loop ::
  "'e action \<Rightarrow> recipe_step \<Rightarrow> nat \<Rightarrow> int \<Rightarrow> duration \<Rightarrow> goerror option \<Rightarrow> guardrails \<times> 'e world
   \<Rightarrow> step_result \<times> guardrails \<times> 'e world" where
  "attempt_loop act step 0 k dur lastErr (g, w) =
     (\<lparr>sr_StepName = st_Name step, sr_ActionName = st_ActionName step, sr_Status = RecipeFailed,
       sr_Attempts = k, sr_Duration = dur,
       sr_Error = Some (ActionFailed (st_ActionName step) (max_attempts step) lastErr)\<rparr>, g, w)"
| "attempt_loop act step (Suc n) k dur lastErr (g, w) =
     (let (start, w1) = time_now w;
          (err, w2) = a_Execute act (step_timeout step) (st_Params step) w1;
          (finish, w3) = time_now w2;
          dur' = dur + (finish - start)
      in case err of
           None \<Rightarrow>
             (let (g', w4) = record_action_execution (st_ActionName step) g w3
              in (\<lparr>sr_StepName = st_Name step, sr_ActionName = st_ActionName step,
                   sr_Status = RecipeSuccess, sr_Attempts = k + 1, sr_Duration = dur',
                   sr_Error = None\<rparr>, g', w4))
         | Some e \<Rightarrow> attempt_loop act step n (k + 1) dur' (Some e) (g, w3))"

definition failed_step :: "recipe_step \<Rightarrow> step_error \<Rightarrow> step_result" where
  "failed_step step e =
     \<lparr>sr_StepName = st_Name step, sr_ActionName = st_ActionName step, sr_Status = RecipeFailed,
      sr_Attempts = 0, sr_Duration = 0, sr_Error = Some e\<rparr>"

definition execute_step ::
  "'e engine \<Rightarrow> recipe_step \<Rightarrow> guardrails \<times> 'e world \<Rightarrow> step_result \<times> guardrails \<times> 'e world" where
  "execute_step en step gw =
     (let (g, w) = gw; (blocked, w1) = check_action (st_ActionName step) g w
      in case blocked of
           Some e \<Rightarrow> (failed_step step (GuardrailBlocked e), g, w1)
         | None \<Rightarrow>
             (case action_get (en_actions en) (st_ActionName step) of
                None \<Rightarrow> (failed_step step (ActionNotFound (st_ActionName step)), g, w1)
              | Some act \<Rightarrow> attempt_loop act step (nat (max_attempts step)) 0 0 None (g, w1)))"

section \<open>One recipe\<close>

definition skipped_step :: "recipe_step \<Rightarrow> step_result" where
  "skipped_step step =
     \<lparr>sr_StepName = st_Name step, sr_ActionName = st_ActionName step, sr_Status = RecipeSkipped,
      sr_Attempts = 0, sr_Duration = 0, sr_Error = None\<rparr>"

fun run_steps ::
  "'e engine \<Rightarrow> recipe_step list \<Rightarrow> bool \<Rightarrow> guardrails \<times> 'e world
   \<Rightarrow> step_result list \<times> guardrails \<times> 'e world" where
  "run_steps en [] previousFailed gw = ([], gw)"
| "run_steps en (step # steps) previousFailed gw =
     (if st_OnFailureOnly step \<and> \<not> previousFailed
      then (let (srs, gw') = run_steps en steps previousFailed gw in (skipped_step step # srs, gw'))
      else (let (sr, gw1) = execute_step en step gw;
                (srs, gw') = run_steps en steps (sr_Status sr = RecipeFailed) gw1
            in (sr # srs, gw')))"

text \<open>The scan over the results, the last one first.\<close>

fun overall_status :: "step_result list \<Rightarrow> recipe_status \<times> step_error option" where
  "overall_status [] = (RecipeSuccess, None)"
| "overall_status (sr # srs) =
     (if sr_Status sr = RecipeSkipped then overall_status srs
      else if sr_Status sr = RecipeFailed then (RecipeFailed, sr_Error sr)
      else (RecipeSuccess, None))"

definition execute_recipe ::
  "'e engine \<Rightarrow> recipe \<Rightarrow> string \<Rightarrow> guardrails \<times> 'e world \<Rightarrow> recipe_result \<times> guardrails \<times> 'e world" where
  "execute_recipe en rcp incidentID gw =
     (let (started, w1) = time_now (snd gw);
          (srs, g2, w2) = run_steps en (wf_Steps rcp) False (fst gw, w1);
          (finished, w3) = time_now w2;
          (st, err) = overall_status (rev srs)
      in (\<lparr>res_RecipeName = wf_Name rcp, res_IncidentID = incidentID, res_Status = st,
           res_StepResults = srs, res_StartedAt = started, res_FinishedAt = finished,
           res_Error = err\<rparr>, g2, w3))"

section \<open>One incident\<close>

record ('st, 'e) agent =
  ag_mgr :: "'st manager"
  ag_gr :: guardrails
  ag_world :: "'e world"

definition readings :: "nat \<Rightarrow> ('st, 'e) agent \<Rightarrow> (nat \<Rightarrow> gotime) \<times> ('st, 'e) agent" where
  "readings k ag =
     (shift (w_reads (ag_world ag)) (w_clock (ag_world ag)),
      ag\<lparr>ag_world := (ag_world ag)\<lparr>w_reads := w_reads (ag_world ag) + k\<rparr>\<rparr>)"

definition engine_set_status ::
  "'st store_ops \<Rightarrow> string \<Rightarrow> status \<Rightarrow> ('st, 'e) agent \<Rightarrow> ('st, 'e) agent" where
  "engine_set_status ops c st ag =
     (let (now, ag1) = readings 4 ag in ag1\<lparr>ag_mgr := set_status now ops c st (ag_mgr ag1)\<rparr>)"

definition engine_recorder ::
  "((nat \<Rightarrow> gotime) \<Rightarrow> recorder \<Rightarrow> recorder) \<Rightarrow> ('st, 'e) agent \<Rightarrow> ('st, 'e) agent" where
  "engine_recorder f ag =
     (let (now, ag1) = readings 2 ag
      in ag1\<lparr>ag_mgr := (ag_mgr ag1)\<lparr>mg_recorder := f now (mg_recorder (ag_mgr ag1))\<rparr>\<rparr>)"

definition repair_record_of :: "recipe_result \<Rightarrow> repair_rule_config \<Rightarrow> repair_record" where
  "repair_record_of res rule =
     \<lparr>rec_ID = ''rep-'' @ show_int (unix_milli (res_StartedAt res)),
      rec_IncidentID = res_IncidentID res, rec_Rule = rr_Rule rule, rec_Recipe = rr_Recipe rule,
      rec_Status = recipe_status_string (res_Status res), rec_StartedAt = res_StartedAt res,
      rec_FinishedAt = res_FinishedAt res,
      rec_Error = (case res_Error res of None \<Rightarrow> '''' | Some e \<Rightarrow> step_error_string e)\<rparr>"

definition persist_result ::
  "'st store_ops \<Rightarrow> recipe_result \<Rightarrow> repair_rule_config \<Rightarrow> ('st, 'e) agent \<Rightarrow> ('st, 'e) agent" where
  "persist_result ops res rule ag =
     ag\<lparr>ag_mgr := (ag_mgr ag)\<lparr>mg_store :=
          snd (so_SaveRepairRecord ops (repair_record_of res rule) (mg_store (ag_mgr ag)))\<rparr>\<rparr>"

text \<open>
  From the accepted incident to its final status, with nothing else in between: \<open>cstep\<close> in
  \<open>Engine_Concurrent\<close> takes the same calls one by one and lets results and other repairs interleave.
\<close>

definition run_repair ::
  "'st store_ops \<Rightarrow> 'e engine \<Rightarrow> incident \<Rightarrow> repair_rule_config \<Rightarrow> recipe \<Rightarrow> ('st, 'e) agent
   \<Rightarrow> ('st, 'e) agent" where
  "run_repair ops en inc rule rcp ag0 =
     (let ag1 = engine_set_status ops (inc_CheckName inc) StatusRepairing ag0;
          ag2 = engine_recorder
                  (\<lambda>now. record_repair_started now (inc_ID inc) (rr_Rule rule) (wf_Name rcp)) ag1;
          (res, g3, w3) = execute_recipe en rcp (inc_ID inc) (ag_gr ag2, ag_world ag2);
          (g4, w4) = record_repair (rr_Rule rule) g3 w3;
          ag4 = persist_result ops res rule (ag2\<lparr>ag_gr := g4, ag_world := w4\<rparr>);
          dur = res_FinishedAt res - res_StartedAt res;
          ok = (res_Status res = RecipeSuccess);
          ag5 = engine_recorder
                  (\<lambda>now. record_repair_completed now (inc_ID inc) (rr_Rule rule) (wf_Name rcp)
                     (if ok then ''success'' else ''failed'') dur) ag4
      in engine_set_status ops (inc_CheckName inc) (if ok then StatusVerifying else StatusFailed) ag5)"

definition handle_incident ::
  "'st store_ops \<Rightarrow> 'e engine \<Rightarrow> incident \<Rightarrow> ('st, 'e) agent \<Rightarrow> ('st, 'e) agent" where
  "handle_incident ops en inc ag =
     (case gget (en_rules en) (inc_CheckName inc) of
        None \<Rightarrow> ag
      | Some rule \<Rightarrow>
          if inc_Status inc \<noteq> StatusOpen then ag
          else
            (let (limited, g1, w1) = check_rate_limit (rr_Rule rule) (ag_gr ag) (ag_world ag);
                 ag1 = ag\<lparr>ag_gr := g1, ag_world := w1\<rparr>
             in case limited of
                  Some e \<Rightarrow> ag1
                | None \<Rightarrow>
                    (case gget (en_recipes en) (rr_Recipe rule) of
                       None \<Rightarrow> ag1
                     | Some rcp \<Rightarrow> run_repair ops en inc rule rcp ag1)))"

text \<open>
  The event loop's reaction to one event, for a run in which no two repairs overlap: an opened or
  updated incident that is still active is handled from a snapshot.
\<close>

definition triggers :: "event_type \<Rightarrow> bool" where
  "triggers ty \<longleftrightarrow> ty = EventOpened \<or> ty = EventUpdated"

definition on_event ::
  "'st store_ops \<Rightarrow> 'e engine \<Rightarrow> incident_event \<Rightarrow> ('st, 'e) agent \<Rightarrow> ('st, 'e) agent" where
  "on_event ops en ev ag =
     (if triggers (ev_Type ev) then
        (case get_active (ag_mgr ag) (inc_CheckName (ev_Incident ev)) of
           None \<Rightarrow> ag
         | Some snap \<Rightarrow> handle_incident ops en snap ag)
      else ag)"

end
