(* ===== verification/Engine_Props.thy ===== *)
theory Engine_Props
  imports Engine
begin

text \<open>
  What a step and a recipe of the repair engine guarantee: how many attempts a step makes and how it
  ends, which steps a recipe skips and what its status is, that neither changes the limits of the
  guardrails or turns the clock back, and that only permitted and registered actions act.
\<close>

section \<open>Steps\<close>

definition clocked_actions :: "'e engine \<Rightarrow> bool" where
  "clocked_actions en \<longleftrightarrow> (\<forall>n a. action_get (en_actions en) n = Some a \<longrightarrow> clocked_action a)"

text \<open>What the guardrails hold apart from the execution times, which a step may change.\<close>

definition same_limits :: "guardrails \<Rightarrow> guardrails \<Rightarrow> bool" where
  "same_limits g g' \<longleftrightarrow> gr_maxRepairs g' = gr_maxRepairs g \<and> gr_repairHistory g' = gr_repairHistory g
     \<and> gr_cooldowns g' = gr_cooldowns g \<and> gr_allowedActions g' = gr_allowedActions g
     \<and> gr_forbiddenActions g' = gr_forbiddenActions g"

lemma same_limits_refl [simp, inv_intros]: "same_limits g g"
  by (simp add: same_limits_def)

lemma same_limits_trans [trans]: "same_limits a b \<Longrightarrow> same_limits b c \<Longrightarrow> same_limits a c"
  by (simp add: same_limits_def)

lemma same_limits_record [simp, inv_intros]: "same_limits g (fst (record_action_execution a g w))"
  by (simp add: same_limits_def)

lemma same_limits_permitted: "same_limits g g' \<Longrightarrow> permitted g' = permitted g"
  by (simp add: same_limits_def permitted_def [abs_def])

lemma attempt_loop_limits:
  "same_limits g (fst (snd (attempt_loop act step n k d l (g, w))))"
proof (induction n arbitrary: k d l w)
  case 0
  then show ?case by simp
next
  case (Suc n)
  then show ?case
    by (simp add: Let_def case_prod_beta split: option.splits)
qed

lemma attempt_loop_clock:
  assumes "clocked_action act"
  shows "keeps_clock w (snd (snd (attempt_loop act step n k d l (g, w))))"
proof (induction n arbitrary: k d l w)
  case 0
  then show ?case by simp
next
  case (Suc n)
  define w1 where "w1 = snd (time_now w)"
  define w2 where "w2 = snd (a_Execute act (step_timeout step) (st_Params step) w1)"
  define w3 where "w3 = snd (time_now w2)"
  have "keeps_clock w1 w2" using assms by (simp add: clocked_action_def w2_def)
  then have "keeps_clock w w3"
    by (auto simp: w1_def w3_def keeps_clock_def)
  moreover have "keeps_clock w3 (snd (record_action_execution (st_ActionName step) g w3))"
    by (simp add: keeps_clock_def)
  ultimately show ?case
    using keeps_clock_trans Suc.IH [where w = w3]
    by (fastforce simp: Let_def case_prod_beta w1_def w2_def w3_def split: option.splits)
qed

text \<open>
  The loop ends in success after at least one and at most \<open>n\<close> more attempts, or in failure after
  exactly \<open>n\<close>, with the error of the last attempt.
\<close>

lemma attempt_loop_result:
  assumes "attempt_loop act step n k d l (g, w) = (sr, gw')"
  shows "sr_StepName sr = st_Name step \<and> sr_ActionName sr = st_ActionName step
    \<and> (sr_Status sr = RecipeSuccess \<and> k < sr_Attempts sr \<and> sr_Attempts sr \<le> k + int n \<and> sr_Error sr = None
       \<or> sr_Status sr = RecipeFailed \<and> sr_Attempts sr = k + int n
         \<and> (\<exists>e. sr_Error sr = Some (ActionFailed (st_ActionName step) (max_attempts step) e)
                \<and> (0 < n \<longrightarrow> e \<noteq> None)))"
  using assms
proof (induction n arbitrary: k d l w)
  case 0
  then show ?case by auto
next
  case (Suc n)
  obtain start w1 where w1: "time_now w = (start, w1)" by (cases "time_now w")
  obtain err w2 where w2: "a_Execute act (step_timeout step) (st_Params step) w1 = (err, w2)"
    by (cases "a_Execute act (step_timeout step) (st_Params step) w1")
  obtain fin w3 where w3: "time_now w2 = (fin, w3)" by (cases "time_now w2")
  show ?case
  proof (cases err)
    case None
    with Suc.prems w1 w2 w3 show ?thesis by (auto simp: Let_def split: prod.splits)
  next
    case (Some e)
    with Suc.prems w1 w2 w3
    have eq: "attempt_loop act step n (k + 1) (d + (fin - start)) (Some e) (g, w3) = (sr, gw')"
      by simp
    from Suc.IH [OF this] show ?thesis
    proof (elim conjE disjE)
      assume "sr_Status sr = RecipeFailed" "sr_Attempts sr = k + 1 + int n"
        "\<exists>e. sr_Error sr = Some (ActionFailed (st_ActionName step) (max_attempts step) e)
              \<and> (0 < n \<longrightarrow> e \<noteq> None)"
        "sr_StepName sr = st_Name step" "sr_ActionName sr = st_ActionName step"
      then show ?thesis using eq by (cases n) auto
    qed auto
  qed
qed

lemma execute_step_cases:
  obtains e where "fst (check_action (st_ActionName step) g w) = Some e"
    and "execute_step en step (g, w) = (failed_step step (GuardrailBlocked e), g,
           snd (check_action (st_ActionName step) g w))"
  | "fst (check_action (st_ActionName step) g w) = None"
    and "action_get (en_actions en) (st_ActionName step) = None"
    and "execute_step en step (g, w) = (failed_step step (ActionNotFound (st_ActionName step)), g,
           snd (check_action (st_ActionName step) g w))"
  | act where "fst (check_action (st_ActionName step) g w) = None"
    and "action_get (en_actions en) (st_ActionName step) = Some act"
    and "execute_step en step (g, w) = attempt_loop act step (nat (max_attempts step)) 0 0 None
           (g, snd (check_action (st_ActionName step) g w))"
  by (cases "check_action (st_ActionName step) g w"; cases "fst (check_action (st_ActionName step) g w)";
      cases "action_get (en_actions en) (st_ActionName step)")
    (auto simp: execute_step_def Let_def)

lemma execute_step_limits: "same_limits (fst gw) (fst (snd (execute_step en step gw)))"
proof -
  obtain g w where gw: "gw = (g, w)" by (cases gw)
  show ?thesis
    unfolding gw
    by (cases rule: execute_step_cases [of step g w en])
      (simp_all add: attempt_loop_limits [where w = "snd (check_action (st_ActionName step) g w)"])
qed

lemma check_action_clock: "keeps_clock w (snd (check_action a g w))"
  by (simp add: keeps_clock_def check_action_world)

lemma execute_step_clock:
  assumes "clocked_actions en"
  shows "keeps_clock (snd gw) (snd (snd (execute_step en step gw)))"
proof -
  obtain g w where gw: "gw = (g, w)" by (cases gw)
  show ?thesis
    unfolding gw
  proof (cases rule: execute_step_cases [of step g w en])
    case (3 act)
    with assms have "clocked_action act" by (auto simp: clocked_actions_def)
    from keeps_clock_trans [OF check_action_clock attempt_loop_clock [OF this]] 3
    show "keeps_clock (snd (g, w)) (snd (snd (execute_step en step (g, w))))" by simp
  qed (simp_all add: check_action_clock)
qed

lemma execute_step_status:
  "sr_Status (fst (execute_step en step gw)) \<in> {RecipeSuccess, RecipeFailed}
   \<and> sr_StepName (fst (execute_step en step gw)) = st_Name step
   \<and> sr_ActionName (fst (execute_step en step gw)) = st_ActionName step
   \<and> (sr_Error (fst (execute_step en step gw)) = None \<longleftrightarrow>
        sr_Status (fst (execute_step en step gw)) = RecipeSuccess)"
proof -
  obtain g w where gw: "gw = (g, w)" by (cases gw)
  consider e where "fst (execute_step en step gw) = failed_step step e"
    | act w' where "execute_step en step gw =
        attempt_loop act step (nat (max_attempts step)) 0 0 None (g, w')"
    unfolding gw by (cases rule: execute_step_cases [of step g w en]) auto
  then show ?thesis
  proof cases
    case 1
    then show ?thesis by (simp add: failed_step_def)
  next
    case 2
    obtain sr gw' where sr: "execute_step en step gw = (sr, gw')" by (cases "execute_step en step gw")
    from attempt_loop_result [OF 2 [unfolded sr, symmetric]] show ?thesis
      unfolding sr by auto
  qed
qed

section \<open>Recipes\<close>

lemma run_steps_skip:
  "st_OnFailureOnly step \<Longrightarrow> \<not> p \<Longrightarrow>
     run_steps en (step # steps) p gw =
       (skipped_step step # fst (run_steps en steps p gw), snd (run_steps en steps p gw))"
  by (simp add: case_prod_beta)

lemma run_steps_exec:
  "st_OnFailureOnly step \<longrightarrow> p \<Longrightarrow>
     run_steps en (step # steps) p gw =
       (fst (execute_step en step gw) #
          fst (run_steps en steps (sr_Status (fst (execute_step en step gw)) = RecipeFailed)
                 (snd (execute_step en step gw))),
        snd (run_steps en steps (sr_Status (fst (execute_step en step gw)) = RecipeFailed)
               (snd (execute_step en step gw))))"
  by (auto simp: case_prod_beta Let_def)

declare run_steps.simps(2) [simp del]

lemma run_steps_induct [consumes 0, case_names Nil skip exec]:
  assumes "\<And>p gw. P [] p gw"
    and "\<And>step steps p gw. st_OnFailureOnly step \<Longrightarrow> \<not> p \<Longrightarrow> P steps p gw \<Longrightarrow> P (step # steps) p gw"
    and "\<And>step steps p gw. st_OnFailureOnly step \<longrightarrow> p \<Longrightarrow>
           P steps (sr_Status (fst (execute_step en step gw)) = RecipeFailed) (snd (execute_step en step gw)) \<Longrightarrow>
           P (step # steps) p gw"
  shows "P steps p gw"
proof (induction steps arbitrary: p gw)
  case Nil
  show ?case by (rule assms(1))
next
  case (Cons step steps)
  show ?case
  proof (cases "st_OnFailureOnly step \<and> \<not> p")
    case True
    then show ?thesis by (intro assms(2) Cons.IH) auto
  next
    case False
    then show ?thesis by (intro assms(3) Cons.IH) auto
  qed
qed

lemma run_steps_limits: "same_limits (fst gw) (fst (snd (run_steps en steps p gw)))"
proof (induction steps p gw rule: run_steps_induct [where en = en])
  case (exec step steps p gw)
  then show ?case
    using same_limits_trans [OF execute_step_limits exec(2)] by (simp only: run_steps_exec) simp
qed (simp_all add: run_steps_skip)

lemma run_steps_clock:
  assumes "clocked_actions en"
  shows "keeps_clock (snd gw) (snd (snd (run_steps en steps p gw)))"
proof (induction steps p gw rule: run_steps_induct [where en = en])
  case (exec step steps p gw)
  then show ?case
    using keeps_clock_trans [OF execute_step_clock [OF assms] exec(2)]
    by (simp only: run_steps_exec) simp
qed (simp_all add: run_steps_skip)

text \<open>Whether the last step that was not skipped failed.\<close>

definition last_failed :: "step_result list \<Rightarrow> bool" where
  "last_failed srs \<longleftrightarrow>
     (let executed = filter (\<lambda>sr. sr_Status sr \<noteq> RecipeSkipped) srs
      in executed \<noteq> [] \<and> sr_Status (last executed) = RecipeFailed)"

lemma last_failed_Nil [simp]: "\<not> last_failed []"
  by (simp add: last_failed_def)

lemma last_failed_snoc:
  "last_failed (srs @ [sr]) \<longleftrightarrow>
     (if sr_Status sr = RecipeSkipped then last_failed srs else sr_Status sr = RecipeFailed)"
  by (simp add: last_failed_def Let_def)

lemma overall_status_last_failed:
  assumes "\<forall>sr \<in> set srs. sr_Status sr \<in> {RecipeSuccess, RecipeFailed, RecipeSkipped}"
  shows "fst (overall_status (rev srs)) = (if last_failed srs then RecipeFailed else RecipeSuccess)"
  using assms
  by (induction srs rule: rev_induct) (auto simp: last_failed_snoc)


lemma run_steps_results:
  "length (fst (run_steps en steps p gw)) = length steps
   \<and> map sr_StepName (fst (run_steps en steps p gw)) = map st_Name steps
   \<and> map sr_ActionName (fst (run_steps en steps p gw)) = map st_ActionName steps
   \<and> (\<forall>sr \<in> set (fst (run_steps en steps p gw)).
         sr_Status sr \<in> {RecipeSuccess, RecipeFailed, RecipeSkipped}
         \<and> (sr_Error sr \<noteq> None \<longleftrightarrow> sr_Status sr = RecipeFailed))"
proof (induction steps p gw rule: run_steps_induct [where en = en])
  case (exec step steps p gw)
  with execute_step_status [of en step gw] show ?case
    by (simp only: run_steps_exec) auto
qed (simp_all add: run_steps_skip skipped_step_def)

text \<open>
  A step is skipped exactly when it is for failures only and the last executed step before it did
  not fail; \<open>pre\<close> is what was executed before.
\<close>

lemma run_steps_skipped:
  assumes "p = last_failed pre" and "i < length steps"
  shows "sr_Status (fst (run_steps en steps p gw) ! i) = RecipeSkipped \<longleftrightarrow>
     st_OnFailureOnly (steps ! i) \<and> \<not> last_failed (pre @ take i (fst (run_steps en steps p gw)))"
  using assms
proof (induction steps p gw arbitrary: i pre rule: run_steps_induct [where en = en])
  case (skip step steps p gw)
  have "last_failed (pre @ [skipped_step step]) = last_failed pre"
    by (simp add: last_failed_snoc skipped_step_def)
  with skip.IH [of "pre @ [skipped_step step]" "i - 1"] skip show ?case
    by (cases i) (simp_all add: run_steps_skip skipped_step_def)
next
  case (exec step steps p gw)
  let ?sr = "fst (execute_step en step gw)"
  have "(sr_Status ?sr = RecipeFailed) = last_failed (pre @ [?sr])"
    using execute_step_status [of en step gw] by (auto simp: last_failed_snoc)
  with exec.IH [of "pre @ [?sr]" "i - 1"] exec execute_step_status [of en step gw] show ?case
    by (cases i) (auto simp: run_steps_exec)
qed simp

lemma execute_recipe_simps:
  "res_StepResults (fst (execute_recipe en rcp i gw)) =
     fst (run_steps en (wf_Steps rcp) False (fst gw, snd (time_now (snd gw))))"
  "res_RecipeName (fst (execute_recipe en rcp i gw)) = wf_Name rcp"
  "res_IncidentID (fst (execute_recipe en rcp i gw)) = i"
  "res_Status (fst (execute_recipe en rcp i gw)) =
     fst (overall_status (rev (res_StepResults (fst (execute_recipe en rcp i gw)))))"
  "res_Error (fst (execute_recipe en rcp i gw)) =
     snd (overall_status (rev (res_StepResults (fst (execute_recipe en rcp i gw)))))"
  "fst (snd (execute_recipe en rcp i gw)) =
     fst (snd (run_steps en (wf_Steps rcp) False (fst gw, snd (time_now (snd gw)))))"
  "snd (snd (execute_recipe en rcp i gw)) =
     snd (time_now (snd (snd (run_steps en (wf_Steps rcp) False (fst gw, snd (time_now (snd gw)))))))"
  by (simp_all add: execute_recipe_def Let_def case_prod_beta)

lemma execute_recipe_status:
  "res_Status (fst (execute_recipe en rcp i gw)) =
     (if last_failed (res_StepResults (fst (execute_recipe en rcp i gw)))
      then RecipeFailed else RecipeSuccess)"
proof -
  have "\<forall>sr \<in> set (res_StepResults (fst (execute_recipe en rcp i gw))).
      sr_Status sr \<in> {RecipeSuccess, RecipeFailed, RecipeSkipped}"
    using run_steps_results [of en "wf_Steps rcp" False "(fst gw, snd (time_now (snd gw)))"]
    by (simp add: execute_recipe_simps(1))
  from overall_status_last_failed [OF this] show ?thesis by (subst execute_recipe_simps(4))
qed

lemma execute_recipe_limits: "same_limits (fst gw) (fst (snd (execute_recipe en rcp i gw)))"
  using run_steps_limits [where gw = "(fst gw, snd (time_now (snd gw)))"]
  by (simp add: execute_recipe_simps)

lemma execute_recipe_clock:
  assumes "clocked_actions en"
  shows "keeps_clock (snd gw) (snd (snd (execute_recipe en rcp i gw)))"
proof -
  have "keeps_clock (snd gw) (snd (time_now (snd gw)))" by simp
  also note run_steps_clock [OF assms, where gw = "(fst gw, snd (time_now (snd gw)))", simplified]
  also note keeps_clock_time_now
  finally show ?thesis by (simp add: execute_recipe_simps)
qed

section \<open>Only permitted and registered actions act\<close>

text \<open>
  Two engines that agree on the actions the guardrails permit behave alike, so an action outside the
  permitted set has no influence on a recipe whatever its code does.
\<close>

definition agree_on_permitted :: "guardrails \<Rightarrow> 'e engine \<Rightarrow> 'e engine \<Rightarrow> bool" where
  "agree_on_permitted g en en' \<longleftrightarrow>
     (\<forall>a. permitted g a \<longrightarrow> action_get (en_actions en) a = action_get (en_actions en') a)"

lemma execute_step_agree:
  assumes "agree_on_permitted (fst gw) en en'"
  shows "execute_step en step gw = execute_step en' step gw"
proof -
  obtain g w where gw: "gw = (g, w)" by (cases gw)
  show ?thesis
  proof (cases "fst (check_action (st_ActionName step) g w)")
    case None
    then have "permitted g (st_ActionName step)" by (simp add: check_action_iff)
    with assms show ?thesis
      by (simp add: execute_step_def gw agree_on_permitted_def Let_def case_prod_beta
          split: option.split)
  next
    case (Some e)
    then show ?thesis by (simp add: execute_step_def gw Let_def case_prod_beta)
  qed
qed

lemma run_steps_agree:
  assumes "agree_on_permitted (fst gw) en en'"
  shows "run_steps en steps p gw = run_steps en' steps p gw"
  using assms
proof (induction steps p gw rule: run_steps_induct [where en = en])
  case (exec step steps p gw)
  have "agree_on_permitted (fst (snd (execute_step en step gw))) en en'"
    using exec.prems same_limits_permitted [OF execute_step_limits [where gw = gw]]
    by (simp add: agree_on_permitted_def)
  with exec.IH execute_step_agree [OF exec.prems] exec.hyps show ?case
    by (simp add: run_steps_exec)
qed (simp_all add: run_steps_skip)

lemma execute_recipe_agree:
  assumes "agree_on_permitted (fst gw) en en'"
  shows "execute_recipe en rcp i gw = execute_recipe en' rcp i gw"
proof -
  have "run_steps en steps p (fst gw, w) = run_steps en' steps p (fst gw, w)" for steps p w
    by (rule run_steps_agree) (simp add: assms)
  then show ?thesis by (simp add: execute_recipe_def Let_def case_prod_beta)
qed

end
