(* ===== verification/Actions_Props.thy ===== *)
theory Actions_Props
  imports File_Actions Engine_Props
begin

text \<open>
  The contract of the built-in actions, its interpretations, and what the larger actions do: the files
  \<open>clear_temp\<close> removes, the revision a rollback goes back to, how long a wait step waits.
\<close>

section \<open>The contract\<close>

text \<open>
  An action keeps the clock, and refuses bad parameters with an error before it touches anything.
  Whether it refuses may depend on the environment (a relative path does) but not on the clock. The
  client is the engine's attempt loop.
\<close>

locale repair_action =
  fixes execute :: "duration option \<Rightarrow> string gmap option \<Rightarrow> 'e world \<Rightarrow> goerror option \<times> 'e world"
    and refuses :: "string gmap option \<Rightarrow> 'e \<Rightarrow> bool"
  assumes execute_clock: "keeps_clock w (snd (execute t p w))"
    and execute_refuses: "refuses p (w_env w) \<Longrightarrow> \<exists>e. execute t p w = (Some e, w)"
begin

lemma execute_clocked: "clocked_action \<lparr>a_Name = n, a_Execute = execute\<rparr>"
  by (simp add: clocked_action_def execute_clock)

lemma refused_attempts:
  assumes "refuses (st_Params step) (w_env w)" and "a_Execute act = execute"
  shows "sr_Status (fst (attempt_loop act step n k dur lastErr (g, w))) = RecipeFailed
     \<and> fst (snd (attempt_loop act step n k dur lastErr (g, w))) = g
     \<and> w_env (snd (snd (attempt_loop act step n k dur lastErr (g, w)))) = w_env w"
  using assms
proof (induction n arbitrary: k dur lastErr w)
  case 0
  then show ?case by simp
next
  case (Suc n)
  let ?w1 = "snd (time_now w)"
  have "refuses (st_Params step) (w_env ?w1)" using Suc.prems(1) by simp
  from execute_refuses [OF this] obtain e where "execute (step_timeout step) (st_Params step) ?w1 = (Some e, ?w1)"
    by blast
  with Suc.IH [of "snd (time_now ?w1)"] Suc.prems show ?case
    by (simp add: Let_def case_prod_beta)
qed

lemma refused_step:
  assumes "action_get (en_actions en) (st_ActionName step) = Some act" and "a_Execute act = execute"
    and "refuses (st_Params step) (w_env w)"
  shows "sr_Status (fst (execute_step en step (g, w))) = RecipeFailed
     \<and> fst (snd (execute_step en step (g, w))) = g
     \<and> w_env (snd (snd (execute_step en step (g, w)))) = w_env w"
proof -
  let ?w1 = "snd (check_action (st_ActionName step) g w)"
  have env: "w_env ?w1 = w_env w"
    by (auto simp: check_action_def Let_def case_prod_beta split: option.splits)
  with assms(3) have "refuses (st_Params step) (w_env ?w1)" by simp
  from refused_attempts [OF this assms(2)] assms(1) env show ?thesis
    by (auto simp: execute_step_def Let_def case_prod_beta failed_step_def split: option.splits)
qed

end

section \<open>The built-in actions keep it\<close>

definition bad_service :: "string gmap option \<Rightarrow> bool" where
  "bad_service p \<longleftrightarrow> validate_service_name (param p ''service'') \<noteq> None"

lemmas action_clock_simps = Let_def case_prod_beta

interpretation wait_act: repair_action "wait_execute sy" "\<lambda>p e. False"
  for sy :: "'e system"
  by unfold_locales (simp_all add: wait_execute_def)

interpretation start_service_act: repair_action "start_service_execute sy" "\<lambda>p e. bad_service p"
  for sy :: "'e system"
  by unfold_locales
    (auto simp: start_service_execute_def bad_service_def action_clock_simps
      intro!: keeps_clock_env split: option.splits)

interpretation stop_service_act: repair_action "stop_service_execute sy" "\<lambda>p e. bad_service p"
  for sy :: "'e system"
  by unfold_locales
    (auto simp: stop_service_execute_def bad_service_def action_clock_simps
      intro!: keeps_clock_env split: option.splits)

interpretation restart_service_act: repair_action "restart_service_execute sy" "\<lambda>p e. bad_service p"
  for sy :: "'e system"
  by unfold_locales
    (auto simp: restart_service_execute_def bad_service_def action_clock_simps
      intro!: keeps_clock_env split: option.splits)

interpretation start_container_act: repair_action "start_container_execute sy"
    "\<lambda>p e. param p ''container'' = ''''"
  for sy :: "'e system"
  by unfold_locales
    (auto simp: start_container_execute_def action_clock_simps
      intro!: keeps_clock_env split: option.splits sum.splits)

interpretation stop_container_act: repair_action "stop_container_execute sy"
    "\<lambda>p e. param p ''container'' = ''''"
  for sy :: "'e system"
  by unfold_locales
    (auto simp: stop_container_execute_def action_clock_simps
      intro!: keeps_clock_env split: option.splits sum.splits)

interpretation restart_container_act: repair_action "restart_container_execute sy"
    "\<lambda>p e. param p ''container'' = ''''"
  for sy :: "'e system"
  by unfold_locales
    (auto simp: restart_container_execute_def action_clock_simps
      intro!: keeps_clock_env split: option.splits sum.splits)

interpretation update_swarm_act: repair_action "update_swarm_service_execute sy"
    "\<lambda>p e. param p ''service'' = ''''"
  for sy :: "'e system"
  by unfold_locales
    (auto simp: update_swarm_service_execute_def action_clock_simps
      intro!: keeps_clock_env split: option.splits sum.splits)

interpretation restart_pod_act: repair_action "restart_pod_execute sy k"
    "\<lambda>p e. k = None \<or> param p ''pod'' = ''''"
  for sy :: "'e system" and k
  by unfold_locales
    (auto simp: restart_pod_execute_def action_clock_simps
      intro!: keeps_clock_env split: option.splits)

definition bad_replicas :: "string gmap option \<Rightarrow> bool" where
  "bad_replicas p \<longleftrightarrow> (case parse_int32 (param p ''replicas'') of None \<Rightarrow> True | Some n \<Rightarrow> n < 0)"

interpretation scale_act: repair_action "scale_replicas_execute k"
    "\<lambda>p e. k = None \<or> param p ''deployment'' = '''' \<or> bad_replicas p"
  for k :: "'e kube option"
  by unfold_locales
    (auto simp: scale_replicas_execute_def bad_replicas_def action_clock_simps
      intro!: keeps_clock_env split: option.splits sum.splits)

interpretation rollback_act: repair_action "rollback_deployment_execute sy k"
    "\<lambda>p e. k = None \<or> param p ''deployment'' = ''''"
  for sy :: "'e system" and k
  by unfold_locales
    (auto simp: rollback_deployment_execute_def action_clock_simps
      intro!: keeps_clock_env split: option.splits sum.splits)

definition bad_path :: "'e system \<Rightarrow> string list \<Rightarrow> string gmap option \<Rightarrow> 'e \<Rightarrow> bool" where
  "bad_path sy allowed p e \<longleftrightarrow> param p ''path'' = ''''
     \<or> (case sy_abs sy (param p ''path'') e of Inl _ \<Rightarrow> True | Inr a \<Rightarrow> \<not> has_allowed_prefix allowed a)"

lemma validate_path_None:
  "validate_path sy allowed (param p ''path'') w = None \<longleftrightarrow>
     (case sy_abs sy (param p ''path'') (w_env w) of Inl _ \<Rightarrow> False | Inr a \<Rightarrow> has_allowed_prefix allowed a)"
  by (simp add: validate_path_def split: sum.splits)

lemma clear_walk_clock: "keeps_clock (snd (snd st)) (snd (snd (snd (clear_walk sy t pattern cutoff ds st))))"
proof (induction ds arbitrary: st)
  case Nil
  then show ?case by simp
next
  case (Cons d ds)
  have step: "keeps_clock (snd (snd st)) (snd (snd (snd (clear_entry sy t pattern cutoff d st))))"
    by (auto simp: clear_entry_def action_clock_simps split: sum.splits)
  show ?case
  proof (cases "fst (clear_entry sy t pattern cutoff d st)")
    case None
    then have "clear_walk sy t pattern cutoff (d # ds) st =
        clear_walk sy t pattern cutoff ds (snd (clear_entry sy t pattern cutoff d st))"
      by (simp add: case_prod_beta)
    with keeps_clock_trans [OF step Cons.IH] show ?thesis by simp
  next
    case (Some e)
    with step show ?thesis by (simp add: case_prod_beta)
  qed
qed

interpretation clear_temp_act: repair_action "clear_temp_execute sy" "bad_path sy clear_temp_allowed"
  for sy :: "'e system"
proof
  fix w :: "'e world" and t p
  show "keeps_clock w (snd (clear_temp_execute sy t p w))"
    using keeps_clock_trans [OF keeps_clock_time_now, of w,
        OF clear_walk_clock [where st = "(0, 0, snd (time_now w))", simplified]]
    by (auto simp: clear_temp_execute_def action_clock_simps split: option.splits)
next
  fix w :: "'e world" and t p
  assume "bad_path sy clear_temp_allowed p (w_env w)"
  then have "param p ''path'' = '''' \<or> validate_path sy clear_temp_allowed (param p ''path'') w \<noteq> None"
    unfolding validate_path_None by (auto simp: bad_path_def split: sum.splits)
  then show "\<exists>e. clear_temp_execute sy t p w = (Some e, w)"
    by (auto simp: clear_temp_execute_def Let_def)
qed

lemma rotate_clock:
  "keeps_clock w (snd (truncate_file sy path m w))"
  "keeps_clock w (snd (rotate_with_logrotate sy t path w))"
  by (auto simp: truncate_file_def rotate_with_logrotate_def action_clock_simps
      intro!: keeps_clock_env split: option.splits sum.splits)

lemma safe_truncation_clock: "keeps_clock w (snd (rotate_by_safe_truncation sy path p w))"
  using keeps_clock_trans [OF keeps_clock_env [OF keeps_clock_time_now] rotate_clock(1)]
  by (auto simp: rotate_by_safe_truncation_def action_clock_simps
      intro!: keeps_clock_env keeps_clock_time split: option.splits sum.splits)

interpretation rotate_act: repair_action "rotate_logs_execute sy" "bad_path sy rotate_logs_allowed"
  for sy :: "'e system"
proof
  fix w :: "'e world" and t p
  show "keeps_clock w (snd (rotate_logs_execute sy t p w))"
    by (auto simp: rotate_logs_execute_def Let_def rotate_clock safe_truncation_clock split: option.splits)
next
  fix w :: "'e world" and t p
  assume "bad_path sy rotate_logs_allowed p (w_env w)"
  then have "param p ''path'' = '''' \<or> validate_path sy rotate_logs_allowed (param p ''path'') w \<noteq> None"
    unfolding validate_path_None by (auto simp: bad_path_def split: sum.splits)
  then show "\<exists>e. rotate_logs_execute sy t p w = (Some e, w)"
    by (auto simp: rotate_logs_execute_def Let_def)
qed

interpretation webhook_act: repair_action "webhook_execute sy"
    "\<lambda>p e. param p ''url'' = '''' \<or> validate_url sy (param p ''url'') \<noteq> None"
  for sy :: "'e system"
  by unfold_locales
    (auto simp: webhook_execute_def action_clock_simps split: option.splits sum.splits)

text \<open>The healthcheck action runs a registered check, which keeps the clock by the checks' contract.\<close>

definition clocked_checks :: "(check_error, 'e) check_registry \<Rightarrow> bool" where
  "clocked_checks reg \<longleftrightarrow> (\<forall>n c w. check_get reg n = Some c \<longrightarrow> keeps_clock w (snd (ck_Run c w)))"

lemma healthcheck_contract:
  assumes "clocked_checks reg"
  shows "repair_action (healthcheck_execute reg)
     (\<lambda>p e. case param_opt p ''check'' of None \<Rightarrow> True | Some n \<Rightarrow> check_get reg n = None)"
  using assms
  by unfold_locales
    (auto simp: healthcheck_execute_def clocked_checks_def action_clock_simps split: option.splits)

section \<open>The registry of built-in actions\<close>

lemma builtin_names:
  "map a_Name (builtin_actions sy reg k) =
     [''wait'', ''healthcheck'', ''restart_pod'', ''restart_container'', ''start_container'',
      ''stop_container'', ''update_swarm_service'', ''restart_service'', ''start_service'',
      ''stop_service'', ''rollback_deployment'', ''scale_replicas'', ''clear_temp'', ''rotate_logs'',
      ''webhook'']"
  by (simp add: builtin_actions_def action_defs)

lemma builtin_clocked:
  assumes "clocked_checks reg"
  shows "\<forall>a \<in> set (builtin_actions sy reg k). clocked_action a"
  using repair_action.execute_clocked [OF healthcheck_contract [OF assms]]
  by (simp add: builtin_actions_def action_defs wait_act.execute_clocked start_service_act.execute_clocked
      stop_service_act.execute_clocked restart_service_act.execute_clocked
      start_container_act.execute_clocked stop_container_act.execute_clocked
      restart_container_act.execute_clocked update_swarm_act.execute_clocked
      restart_pod_act.execute_clocked scale_act.execute_clocked rollback_act.execute_clocked
      clear_temp_act.execute_clocked rotate_act.execute_clocked webhook_act.execute_clocked)

lemma builtin_registry:
  assumes "clocked_checks reg"
  shows "\<exists>r. register_builtin_actions sy reg k = Inr r \<and> action_registry_ok r
     \<and> (\<forall>n. action_get r n = find (\<lambda>a. a_Name a = n) (builtin_actions sy reg k))
     \<and> (\<forall>en. en_actions en = r \<longrightarrow> clocked_actions en)"
proof -
  let ?as = "builtin_actions sy reg k"
  have "distinct (map a_Name ?as)" by (simp add: builtin_names)
  with action_reg.register_all_ok [OF action_reg.inv_empty, of ?as] obtain r where r:
    "register_all action_register ?as new_action_registry = Inr r" "action_registry_ok r"
    "\<forall>n. action_get r n = (case find (\<lambda>a. a_Name a = n) ?as of
        None \<Rightarrow> action_get new_action_registry n | Some a \<Rightarrow> Some a)"
    by (auto simp: action_reg.get_empty)
  then have get: "action_get r n = find (\<lambda>a. a_Name a = n) ?as" for n
    by (simp add: action_reg.get_empty split: option.splits)
  have "clocked_action a" if "action_get r n = Some a" for n a
    using that builtin_clocked [OF assms] unfolding get by (metis find_Some_iff nth_mem)
  with r get show ?thesis by (auto simp: register_builtin_actions_def clocked_actions_def)
qed

section \<open>What clear_temp removes\<close>

text \<open>The entries the walk selects, and the removals in their order.\<close>

definition clear_selected :: "'e system \<Rightarrow> string \<Rightarrow> gotime \<Rightarrow> walk_entry \<Rightarrow> bool" where
  "clear_selected sy pattern cutoff d \<longleftrightarrow> we_Error d = None \<and> \<not> we_IsDir d
     \<and> (pattern = ''*'' \<or> sy_match sy pattern (we_Name d))
     \<and> (case we_Info d of Inl _ \<Rightarrow> False | Inr i \<Rightarrow> fi_ModTime i \<le> cutoff)"

definition removals :: "'e system \<Rightarrow> walk_entry list \<Rightarrow> 'e \<Rightarrow> 'e" where
  "removals sy ds e = fold (\<lambda>d e. snd (sy_remove sy (we_Path d) e)) ds e"

lemma clear_entry_env:
  "w_env (snd (snd (snd (clear_entry sy t pattern cutoff d st)))) =
     (if fst (clear_entry sy t pattern cutoff d st) = None \<and> clear_selected sy pattern cutoff d
      then snd (sy_remove sy (we_Path d) (w_env (snd (snd st)))) else w_env (snd (snd st)))"
proof (cases "we_Error d \<noteq> None \<or> sy_ctx_err sy t (w_env (snd (snd st))) \<noteq> None")
  case True
  then show ?thesis by (auto simp: clear_entry_def clear_selected_def case_prod_beta)
next
  case False
  then show ?thesis
    by (cases "we_Info d")
      (simp_all add: clear_entry_def clear_selected_def action_clock_simps on_env_def)
qed

lemma clear_walk_env:
  "\<exists>n \<le> length ds. w_env (snd (snd (snd (clear_walk sy t pattern cutoff ds st)))) =
       removals sy (filter (clear_selected sy pattern cutoff) (take n ds)) (w_env (snd (snd st)))
     \<and> (fst (clear_walk sy t pattern cutoff ds st) = None \<longrightarrow> n = length ds)"
proof (induction ds arbitrary: st)
  case Nil
  then show ?case by (simp add: removals_def)
next
  case (Cons d ds)
  let ?r = "clear_entry sy t pattern cutoff d st"
  show ?case
  proof (cases "fst ?r")
    case (Some e)
    with clear_entry_env [of sy t pattern cutoff d st] show ?thesis
      by (intro exI [of _ 0]) (simp add: case_prod_beta removals_def)
  next
    case None
    from Cons.IH [of "snd ?r"] obtain n where "n \<le> length ds"
      and n: "w_env (snd (snd (snd (clear_walk sy t pattern cutoff ds (snd ?r))))) =
         removals sy (filter (clear_selected sy pattern cutoff) (take n ds)) (w_env (snd (snd (snd ?r))))"
        "fst (clear_walk sy t pattern cutoff ds (snd ?r)) = None \<longrightarrow> n = length ds"
      by (elim exE conjE) (rule that)
    have walk: "clear_walk sy t pattern cutoff (d # ds) st = clear_walk sy t pattern cutoff ds (snd ?r)"
      using None by (simp add: case_prod_beta)
    have "removals sy (filter (clear_selected sy pattern cutoff) (take (Suc n) (d # ds))) (w_env (snd (snd st)))
        = removals sy (filter (clear_selected sy pattern cutoff) (take n ds)) (w_env (snd (snd (snd ?r))))"
      unfolding clear_entry_env by (simp add: None removals_def)
    with n \<open>n \<le> length ds\<close> show ?thesis
      unfolding walk by (intro exI [of _ "Suc n"]) simp
  qed
qed

lemma has_allowed_prefix_iff: "has_allowed_prefix ps path \<longleftrightarrow> (\<exists>p \<in> set ps. prefix p path)"
  by (induction ps) (auto simp: has_prefix_def)

section \<open>The revision a rollback goes back to\<close>

lemma is_owned_by_iff: "is_owned_by refs uid \<longleftrightarrow> uid \<in> set refs"
  by (induction refs) auto

lemma revision_loop_filter:
  "revision_loop owned f rss st = revision_loop (\<lambda>_. True) f (filter owned rss) st"
  by (induction rss arbitrary: st) auto

lemma revision_loop_append:
  "revision_loop owned f (xs @ ys) st = revision_loop owned f ys (revision_loop owned f xs st)"
  by (induction xs arbitrary: st) auto

lemma revision_step_cases:
  "revision_step r x (m, p, prev) =
     (if m < r then (r, m, None)
      else if p < r \<and> r < m then (m, r, Some x)
      else if r = p \<and> 0 < r then (m, p, Some x) else (m, p, prev))"
  by (auto simp: revision_step_def)

text \<open>Before the highest revision, the loop only has to end with a lower maximum.\<close>

lemma revision_loop_max:
  assumes "\<forall>x \<in> set xs. f x < b" and "a < b"
  shows "fst (revision_loop (\<lambda>_. True) f xs (a, p, prev)) < b
     \<and> a \<le> fst (revision_loop (\<lambda>_. True) f xs (a, p, prev))
     \<and> (\<forall>x \<in> set xs. f x \<le> fst (revision_loop (\<lambda>_. True) f xs (a, p, prev)))
     \<and> (fst (revision_loop (\<lambda>_. True) f xs (a, p, prev)) = a
        \<or> fst (revision_loop (\<lambda>_. True) f xs (a, p, prev)) \<in> f ` set xs)"
  using assms
proof (induction xs arbitrary: a p prev)
  case (Cons x xs)
  obtain a' p' prev' where st: "revision_step (f x) x (a, p, prev) = (a', p', prev')"
    by (metis prod_cases3)
  then have a': "a' = max a (f x)" by (auto simp: revision_step_cases split: if_splits)
  with Cons.prems have "a' < b" by simp
  with Cons.IH [of a' p' prev'] Cons.prems a' st show ?case by (auto simp: max_def split: if_splits)
qed simp

text \<open>After it, the loop keeps the highest revision above the one it started from.\<close>

lemma revision_loop_second:
  assumes "\<forall>x \<in> set ys. f x < m \<and> f x \<noteq> p" and "distinct (map f ys)"
  shows "snd (snd (revision_loop (\<lambda>_. True) f ys (m, p, prev))) = Some r \<longleftrightarrow>
     (if \<exists>y \<in> set ys. p < f y then r \<in> set ys \<and> (\<forall>z \<in> set ys. f z \<le> f r) else prev = Some r)"
  using assms
proof (induction ys arbitrary: p prev)
  case (Cons y ys)
  from Cons.prems have y: "f y < m" "f y \<noteq> p" by auto
  have fresh: "\<forall>z \<in> set ys. f z \<noteq> f y" using Cons.prems(2) by (auto intro: rev_image_eqI)
  show ?case
  proof (cases "p < f y")
    case True
    with y have "revision_step (f y) y (m, p, prev) = (m, f y, Some y)" by (simp add: revision_step_cases)
    moreover have "\<forall>x \<in> set ys. f x < m \<and> f x \<noteq> f y" using Cons.prems(1) fresh by auto
    ultimately have "snd (snd (revision_loop (\<lambda>_. True) f (y # ys) (m, p, prev))) = Some r \<longleftrightarrow>
       (if \<exists>z \<in> set ys. f y < f z then r \<in> set ys \<and> (\<forall>z \<in> set ys. f z \<le> f r) else y = r)"
      using Cons.IH [of "f y" "Some y"] Cons.prems(2) by simp
    also have "\<dots> \<longleftrightarrow> r \<in> set (y # ys) \<and> (\<forall>z \<in> set (y # ys). f z \<le> f r)"
    proof (cases "\<exists>z \<in> set ys. f y < f z")
      case True
      then obtain z where "z \<in> set ys" "f y < f z" by blast
      then show ?thesis using True fresh by (auto intro: order_trans less_imp_le)
    next
      case False
      then have "f z < f y" if "z \<in> set ys" for z using that fresh by (auto simp: less_le not_less)
      with False show ?thesis by (auto simp: not_less dest: leD)
    qed
    finally show ?thesis using True by simp
  next
    case False
    with y have "revision_step (f y) y (m, p, prev) = (m, p, prev)" by (simp add: revision_step_cases)
    with Cons.IH [of p prev] Cons.prems
    have "snd (snd (revision_loop (\<lambda>_. True) f (y # ys) (m, p, prev))) = Some r \<longleftrightarrow>
       (if \<exists>z \<in> set ys. p < f z then r \<in> set ys \<and> (\<forall>z \<in> set ys. f z \<le> f r) else prev = Some r)"
      by simp
    moreover have "f y \<le> p" "f y \<noteq> p" using False y by simp_all
    ultimately show ?thesis by (auto intro: order_trans dest: bspec)
  qed
qed simp

text \<open>
  So the set found is the second highest one only when it comes after the highest in the list: a
  list in ascending order has none.
\<close>

lemma find_previous_revision_eq:
  fixes sy :: "'e system"
  defines "f \<equiv> revision_of sy"
  assumes own: "filter (\<lambda>rs. is_owned_by (rs_Owners rs) (kd_UID dep)) rss = xs @ m # ys"
    and dist: "distinct (map f (xs @ m # ys))"
    and pos: "\<forall>x \<in> set (xs @ ys). 0 < f x \<and> f x < f m" and "0 < f m"
  shows "find_previous_revision sy rss dep = Some r \<longleftrightarrow>
     r \<in> set ys \<and> (\<forall>z \<in> set (xs @ ys). f z \<le> f r)"
proof -
  obtain a p prev where st: "revision_loop (\<lambda>_. True) f xs (0, 0, None) = (a, p, prev)"
    by (metis prod_cases3)
  from revision_loop_max [of xs f "f m" 0 0 None] pos \<open>0 < f m\<close> st
  have a: "a < f m" "0 \<le> a" "\<forall>x \<in> set xs. f x \<le> a" "a = 0 \<or> a \<in> f ` set xs" by auto
  then have max: "revision_step (f m) m (a, p, prev) = (f m, a, None)" by (simp add: revision_step_cases)
  have ys: "\<forall>y \<in> set ys. f y < f m \<and> f y \<noteq> a"
  proof (intro ballI conjI)
    fix y assume y: "y \<in> set ys"
    with pos show "f y < f m" by simp
    show "f y \<noteq> a"
    proof
      assume eq: "f y = a"
      with pos y have "0 < a" by auto
      with a(4) have "f y \<in> f ` set xs" by (simp add: eq)
      with y dist show False by (auto intro: rev_image_eqI)
    qed
  qed
  with revision_loop_second [of ys f "f m" a None r] dist
  have "snd (snd (revision_loop (\<lambda>_. True) f (xs @ m # ys) (0, 0, None))) = Some r \<longleftrightarrow>
     (\<exists>y \<in> set ys. a < f y) \<and> r \<in> set ys \<and> (\<forall>z \<in> set ys. f z \<le> f r)"
    by (simp add: revision_loop_append st max)
  also have "\<dots> \<longleftrightarrow> r \<in> set ys \<and> (\<forall>z \<in> set (xs @ ys). f z \<le> f r)"
  proof
    assume L: "(\<exists>y \<in> set ys. a < f y) \<and> r \<in> set ys \<and> (\<forall>z \<in> set ys. f z \<le> f r)"
    then have "a \<le> f r" by (meson less_imp_le order_trans)
    with L a(3) show "r \<in> set ys \<and> (\<forall>z \<in> set (xs @ ys). f z \<le> f r)" by (auto intro: order_trans)
  next
    assume R: "r \<in> set ys \<and> (\<forall>z \<in> set (xs @ ys). f z \<le> f r)"
    then have "0 < f r" using pos by simp
    with R a(4) have "a \<le> f r" by auto
    moreover have "f r \<noteq> a" using R ys by blast
    ultimately have "a < f r" by simp
    with R show "(\<exists>y \<in> set ys. a < f y) \<and> r \<in> set ys \<and> (\<forall>z \<in> set ys. f z \<le> f r)" by auto
  qed
  finally show ?thesis
    unfolding find_previous_revision_def revision_loop_filter [where owned = "\<lambda>rs. is_owned_by (rs_Owners rs) (kd_UID dep)"]
    by (simp add: own f_def)
qed

section \<open>Waiting\<close>

text \<open>A configured wait sleeps for exactly its duration, through the text of the parameter.\<close>

lemma wait_step_sleeps:
  assumes "sc_Duration s < 2 ^ 63" and "0 < sc_Duration s"
  shows "wait_execute sy t (st_Params (compile_step rcp i s)) w = on_env (sy_sleep sy t (sc_Duration s)) w"
  using parse_duration_string [of "sc_Duration s"] assms
  by (simp add: wait_execute_def duration_param_def param_opt_def params_of_def compile_step_def
      set_param_def Let_def)

end
