(* ===== verification/Engine_Runs.thy ===== *)
theory Engine_Runs
  imports Engine_Props
begin

text \<open>
  Runs of the agent in which no two repairs overlap: check results reach the incident manager and
  incident events reach the engine in any order, and a repair is one step, so nothing reaches the
  manager while it runs (\<open>Engine_Concurrent\<close> has the runs in which results do). The hourly limit then bounds every window of one
  hour, and an incident is repaired at most once.
\<close>

section \<open>What one repair does\<close>

text \<open>The conditions under which \<open>handle_incident\<close> starts a repair, with the rule and the recipe.\<close>

definition accepted ::
  "'e engine \<Rightarrow> incident \<Rightarrow> ('st, 'e) agent \<Rightarrow> (repair_rule_config \<times> recipe) option" where
  "accepted en inc ag =
     (case gget (en_rules en) (inc_CheckName inc) of
        None \<Rightarrow> None
      | Some rule \<Rightarrow>
          if inc_Status inc = StatusOpen
             \<and> fst (check_rate_limit (rr_Rule rule) (ag_gr ag) (ag_world ag)) = None
          then map_option (Pair rule) (gget (en_recipes en) (rr_Recipe rule))
          else None)"

definition after_rate_check :: "repair_rule_config \<Rightarrow> ('st, 'e) agent \<Rightarrow> ('st, 'e) agent" where
  "after_rate_check rule ag =
     ag\<lparr>ag_gr := fst (snd (check_rate_limit (rr_Rule rule) (ag_gr ag) (ag_world ag))),
        ag_world := snd (snd (check_rate_limit (rr_Rule rule) (ag_gr ag) (ag_world ag)))\<rparr>"

lemma handle_incident_cases:
  obtains rule rcp where "accepted en inc ag = Some (rule, rcp)"
    and "gget (en_rules en) (inc_CheckName inc) = Some rule" and "inc_Status inc = StatusOpen"
    and "fst (check_rate_limit (rr_Rule rule) (ag_gr ag) (ag_world ag)) = None"
    and "gget (en_recipes en) (rr_Recipe rule) = Some rcp"
    and "handle_incident ops en inc ag = run_repair ops en inc rule rcp (after_rate_check rule ag)"
  | rule where "accepted en inc ag = None" and "handle_incident ops en inc ag = after_rate_check rule ag"
  | "accepted en inc ag = None" and "handle_incident ops en inc ag = ag"
proof (cases "gget (en_rules en) (inc_CheckName inc)")
  case None
  with that(3) show ?thesis by (simp add: accepted_def handle_incident_def)
next
  case (Some rule)
  show ?thesis
  proof (cases "inc_Status inc = StatusOpen")
    case False
    with Some that(3) show ?thesis by (simp add: accepted_def handle_incident_def)
  next
    case True
    show ?thesis
    proof (cases "fst (check_rate_limit (rr_Rule rule) (ag_gr ag) (ag_world ag))")
      case None
      with Some True that(1,2) show ?thesis
        by (cases "gget (en_recipes en) (rr_Recipe rule)")
          (auto simp: accepted_def handle_incident_def after_rate_check_def Let_def case_prod_beta)
    next
      case (Some e)
      with \<open>gget (en_rules en) (inc_CheckName inc) = Some rule\<close> True that(2) show ?thesis
        by (auto simp: accepted_def handle_incident_def after_rate_check_def Let_def case_prod_beta)
    qed
  qed
qed

lemma engine_set_status_frame [simp, frame_simps]:
  "ag_gr (engine_set_status ops c st ag) = ag_gr ag"
  "keeps_clock (ag_world ag) (ag_world (engine_set_status ops c st ag))"
  by (simp_all add: engine_set_status_def readings_def keeps_clock_def)

lemma engine_recorder_frame [simp, frame_simps]:
  "ag_gr (engine_recorder f ag) = ag_gr ag"
  "mg_active (ag_mgr (engine_recorder f ag)) = mg_active (ag_mgr ag)"
  "mg_idCounter (ag_mgr (engine_recorder f ag)) = mg_idCounter (ag_mgr ag)"
  "mg_store (ag_mgr (engine_recorder f ag)) = mg_store (ag_mgr ag)"
  "keeps_clock (ag_world ag) (ag_world (engine_recorder f ag))"
  by (simp_all add: engine_recorder_def readings_def keeps_clock_def)

lemma persist_result_frame [simp, frame_simps]:
  "ag_gr (persist_result ops res rule ag) = ag_gr ag"
  "ag_world (persist_result ops res rule ag) = ag_world ag"
  "mg_active (ag_mgr (persist_result ops res rule ag)) = mg_active (ag_mgr ag)"
  "mg_idCounter (ag_mgr (persist_result ops res rule ag)) = mg_idCounter (ag_mgr ag)"
  by (simp_all add: persist_result_def)

lemma after_rate_check_frame [simp, frame_simps]:
  "ag_mgr (after_rate_check rule ag) = ag_mgr ag"
  "keeps_clock (ag_world ag) (ag_world (after_rate_check rule ag))"
  by (simp_all add: after_rate_check_def keeps_clock_def check_rate_limit_reads)

lemma keeps_clock_agent [inv_intros]:
  "keeps_clock w (ag_world ag) \<Longrightarrow> keeps_clock w (ag_world (engine_set_status ops c st ag))"
  "keeps_clock w (ag_world ag) \<Longrightarrow> keeps_clock w (ag_world (engine_recorder f ag))"
  by (rule keeps_clock_trans, assumption, simp)+

text \<open>
  The guardrails' part of a repair: a clock reading at which the history is pruned and a later one at
  which the repair is recorded.
\<close>

lemma run_repair_guardrails:
  fixes ag :: "('st, 'e) agent"
  assumes "clocked_actions en" and "ag' = run_repair ops en inc rule rcp ag"
  obtains j where "w_reads (ag_world ag) \<le> j" and "Suc j < w_reads (ag_world ag')"
    and "w_clock (ag_world ag') = w_clock (ag_world ag)"
    and "gr_maxRepairs (ag_gr ag') = gr_maxRepairs (ag_gr ag)"
    and "gr_allowedActions (ag_gr ag') = gr_allowedActions (ag_gr ag)"
    and "gr_forbiddenActions (ag_gr ag') = gr_forbiddenActions (ag_gr ag)"
    and "\<And>r. history (ag_gr ag') r =
          (if r = rr_Rule rule
           then filter (\<lambda>t. w_clock (ag_world ag) j - go_Hour < t) (history (ag_gr ag) r)
                @ [w_clock (ag_world ag) (Suc j)]
           else history (ag_gr ag) r)"
proof -
  define ag2 where "ag2 = engine_recorder
      (\<lambda>now. record_repair_started now (inc_ID inc) (rr_Rule rule) (wf_Name rcp))
      (engine_set_status ops (inc_CheckName inc) StatusRepairing ag)"
  define X where "X = execute_recipe en rcp (inc_ID inc) (ag_gr ag2, ag_world ag2)"
  define g3 where "g3 = fst (snd X)"
  define w3 where "w3 = snd (snd X)"
  define g4 where "g4 = fst (record_repair (rr_Rule rule) g3 w3)"
  define w4 where "w4 = snd (record_repair (rr_Rule rule) g3 w3)"
  have gr2: "ag_gr ag2 = ag_gr ag" by (simp add: ag2_def)
  have "keeps_clock (ag_world ag) (ag_world ag2)"
    unfolding ag2_def by (rule keeps_clock_trans [OF engine_set_status_frame(2) engine_recorder_frame(5)])
  also have "keeps_clock (ag_world ag2) w3"
    using execute_recipe_clock [OF assms(1), where gw = "(ag_gr ag2, ag_world ag2)"]
    by (simp add: w3_def X_def)
  finally have k3: "keeps_clock (ag_world ag) w3" .
  have lim: "same_limits (ag_gr ag) g3"
    using execute_recipe_limits [of "(ag_gr ag2, ag_world ag2)"] by (simp add: g3_def X_def gr2)
  have ag': "ag_gr ag' = g4 \<and> keeps_clock w4 (ag_world ag')"
    unfolding assms(2) run_repair_def
    by (auto simp: Let_def case_prod_beta g4_def w4_def g3_def w3_def X_def ag2_def
        intro!: keeps_clock_agent)
  show thesis
  proof (rule that [of "w_reads w3"])
    show "w_reads (ag_world ag) \<le> w_reads w3" using k3 by (simp add: keeps_clock_def)
    show "Suc (w_reads w3) < w_reads (ag_world ag')"
      using ag' by (simp add: keeps_clock_def w4_def)
    show "w_clock (ag_world ag') = w_clock (ag_world ag)"
      using ag' k3 by (simp add: keeps_clock_def w4_def)
    show "gr_maxRepairs (ag_gr ag') = gr_maxRepairs (ag_gr ag)"
      "gr_allowedActions (ag_gr ag') = gr_allowedActions (ag_gr ag)"
      "gr_forbiddenActions (ag_gr ag') = gr_forbiddenActions (ag_gr ag)"
      using ag' lim by (simp_all add: g4_def same_limits_def)
    show "history (ag_gr ag') r =
          (if r = rr_Rule rule
           then filter (\<lambda>t. w_clock (ag_world ag) (w_reads w3) - go_Hour < t) (history (ag_gr ag) r)
                @ [w_clock (ag_world ag) (Suc (w_reads w3))]
           else history (ag_gr ag) r)" for r
    proof -
      have "history g3 r = history (ag_gr ag) r" using lim by (simp add: same_limits_def history_def)
      moreover have "w_clock w3 = w_clock (ag_world ag)" using k3 by (simp add: keeps_clock_def)
      moreover have "ag_gr ag' = fst (record_repair (rr_Rule rule) g3 w3)" using ag' by (simp add: g4_def)
      ultimately show ?thesis by (auto simp: record_repair_history)
    qed
  qed
qed

section \<open>Runs\<close>

datatype 'err agent_op = AgResult "'err check_result" | AgEvent incident_event

fun agent_step ::
  "'st store_ops \<Rightarrow> 'e engine \<Rightarrow> 'err agent_op \<Rightarrow> ('st, 'e) agent \<Rightarrow> ('st, 'e) agent" where
  "agent_step ops en (AgResult r) ag =
     (let (now, ag1) = readings 4 ag in ag1\<lparr>ag_mgr := process_result now ops r (ag_mgr ag1)\<rparr>)"
| "agent_step ops en (AgEvent ev) ag = on_event ops en ev ag"

fun agent_run ::
  "'st store_ops \<Rightarrow> 'e engine \<Rightarrow> 'err agent_op list \<Rightarrow> ('st, 'e) agent \<Rightarrow> ('st, 'e) agent" where
  "agent_run ops en [] ag = ag"
| "agent_run ops en (x # xs) ag = agent_run ops en xs (agent_step ops en x ag)"

text \<open>
  The repairs of a run: the rule, the incident and the time the guardrails recorded, read off the
  state after each step that accepted an incident.
\<close>

fun accepted_by :: "'e engine \<Rightarrow> 'err agent_op \<Rightarrow> ('st, 'e) agent \<Rightarrow> (incident \<times> repair_rule_config) option" where
  "accepted_by en (AgResult r) ag = None"
| "accepted_by en (AgEvent ev) ag =
     (if triggers (ev_Type ev) then
        (case get_active (ag_mgr ag) (inc_CheckName (ev_Incident ev)) of
           None \<Rightarrow> None
         | Some snap \<Rightarrow> map_option (\<lambda>(rule, rcp). (snap, rule)) (accepted en snap ag))
      else None)"

fun repair_log ::
  "'st store_ops \<Rightarrow> 'e engine \<Rightarrow> 'err agent_op list \<Rightarrow> ('st, 'e) agent
   \<Rightarrow> (string \<times> string \<times> gotime) list" where
  "repair_log ops en [] ag = []"
| "repair_log ops en (x # xs) ag =
     (let ag' = agent_step ops en x ag
      in (case accepted_by en x ag of
            None \<Rightarrow> []
          | Some (inc, rule) \<Rightarrow> [(rr_Rule rule, inc_ID inc, last (history (ag_gr ag') (rr_Rule rule)))])
         @ repair_log ops en xs ag')"

lemma repair_log_append:
  "repair_log ops en (xs @ ys) ag = repair_log ops en xs ag @ repair_log ops en ys (agent_run ops en xs ag)"
  by (induction xs arbitrary: ag) (simp_all add: Let_def)

lemma agent_run_append: "agent_run ops en (xs @ ys) ag = agent_run ops en ys (agent_run ops en xs ag)"
  by (induction xs arbitrary: ag) simp_all

lemma agent_step_cases:
  fixes ag :: "('st, 'e) agent"
  obtains r where "x = AgResult r" and "accepted_by en x ag = None"
    and "ag_gr (agent_step ops en x ag) = ag_gr ag"
    and "keeps_clock (ag_world ag) (ag_world (agent_step ops en x ag))"
  | snap rule rcp where "accepted_by en x ag = Some (snap, rule)"
    and "gget (mg_active (ag_mgr ag)) (inc_CheckName (ev_Incident (case x of AgEvent e \<Rightarrow> e))) = Some snap"
    and "inc_Status snap = StatusOpen"
    and "fst (check_rate_limit (rr_Rule rule) (ag_gr ag) (ag_world ag)) = None"
    and "agent_step ops en x ag = run_repair ops en snap rule rcp (after_rate_check rule ag)"
  | rule where "accepted_by en x ag = None" and "agent_step ops en x ag = after_rate_check rule ag"
  | "accepted_by en x ag = None" and "agent_step ops en x ag = ag"
proof (cases x)
  case (AgResult r)
  with that(1) show ?thesis by (simp add: readings_def keeps_clock_def)
next
  case (AgEvent ev)
  show ?thesis
  proof (cases "triggers (ev_Type ev)")
    case False
    with AgEvent that(4) show ?thesis by (simp add: on_event_def)
  next
    case True
    show ?thesis
    proof (cases "get_active (ag_mgr ag) (inc_CheckName (ev_Incident ev))")
      case None
      with AgEvent True that(4) show ?thesis by (simp add: on_event_def)
    next
      case (Some snap)
      with AgEvent True that(2-4) show ?thesis
        by (cases rule: handle_incident_cases [of en snap ag ops])
          (auto simp: on_event_def get_active_def)
    qed
  qed
qed

section \<open>The hourly limit\<close>

text \<open>
  \<open>limit_inv r T ag\<close>: \<open>T\<close> are the times of the repairs of rule \<open>r\<close> so far. The
  history the guardrails hold is what pruning left of them, every one is in the past, and no window
  of one hour has more than the limit.
\<close>

definition in_window :: "gotime \<Rightarrow> gotime list \<Rightarrow> nat" where
  "in_window t ts = length (filter (\<lambda>x. t < x \<and> x \<le> t + go_Hour) ts)"

definition limit_inv :: "string \<Rightarrow> int \<Rightarrow> gotime list \<Rightarrow> ('st, 'e) agent \<Rightarrow> bool" where
  "limit_inv r L T ag \<longleftrightarrow> clock_monotone (ag_world ag)
     \<and> gget (gr_maxRepairs (ag_gr ag)) r = Some L
     \<and> (\<forall>x \<in> set T. x \<le> w_clock (ag_world ag) (w_reads (ag_world ag)))
     \<and> (\<exists>k \<le> w_clock (ag_world ag) (w_reads (ag_world ag)) - go_Hour.
           history (ag_gr ag) r = filter (\<lambda>x. k < x) T)
     \<and> (\<forall>t. in_window t T = 0 \<or> int (in_window t T) \<le> L)"

lemma clock_le:
  "clock_monotone w \<Longrightarrow> i \<le> j \<Longrightarrow> w_clock w i \<le> w_clock w j"
  by (simp add: clock_monotone_def mono_def)

lemma keeps_clock_monotone: "keeps_clock w w' \<Longrightarrow> clock_monotone w \<Longrightarrow>
    clock_monotone w' \<and> w_clock w (w_reads w) \<le> w_clock w' (w_reads w')"
  by (auto simp: keeps_clock_def clock_monotone_def mono_def)

lemma limit_inv_later:
  assumes inv: "limit_inv r L T ag" and kc: "keeps_clock (ag_world ag) (ag_world ag')"
    and mx: "gr_maxRepairs (ag_gr ag') = gr_maxRepairs (ag_gr ag)"
    and k: "k \<le> w_clock (ag_world ag) (w_reads (ag_world ag)) - go_Hour"
      "history (ag_gr ag') r = filter (\<lambda>x. k < x) T"
  shows "limit_inv r L T ag'"
proof -
  from inv have mono: "clock_monotone (ag_world ag)" by (simp add: limit_inv_def)
  note m = keeps_clock_monotone [OF kc mono]
  show ?thesis
    unfolding limit_inv_def
  proof (intro conjI ballI exI [of _ k] allI)
    show "k \<le> w_clock (ag_world ag') (w_reads (ag_world ag')) - go_Hour"
      using k m by linarith
    fix x assume "x \<in> set T"
    with inv have "x \<le> w_clock (ag_world ag) (w_reads (ag_world ag))" by (simp add: limit_inv_def)
    with m show "x \<le> w_clock (ag_world ag') (w_reads (ag_world ag'))" by linarith
  qed (use m k mx inv in \<open>auto simp: limit_inv_def\<close>)
qed

lemma limit_inv_idle:
  assumes "limit_inv r L T ag" and "keeps_clock (ag_world ag) (ag_world ag')" and "ag_gr ag' = ag_gr ag"
  shows "limit_inv r L T ag'"
proof -
  from assms(1) obtain k where "k \<le> w_clock (ag_world ag) (w_reads (ag_world ag)) - go_Hour"
    "history (ag_gr ag) r = filter (\<lambda>x. k < x) T"
    by (auto simp: limit_inv_def)
  with limit_inv_later [OF assms(1,2)] assms(3) show ?thesis by simp
qed

lemma filter_cut:
  "(k :: int) \<le> c \<Longrightarrow> filter (\<lambda>x. k < x \<and> c < x) T = filter (\<lambda>x. c < x) T"
  by (auto intro: filter_cong)

lemma limit_inv_rate_check:
  assumes "limit_inv r L T ag"
  shows "limit_inv r L T (after_rate_check rule ag)"
proof -
  let ?ag = "after_rate_check rule ag"
  let ?c = "w_clock (ag_world ag) (w_reads (ag_world ag))"
  from assms obtain k where k: "k \<le> ?c - go_Hour" "history (ag_gr ag) r = filter (\<lambda>x. k < x) T"
    and mono: "clock_monotone (ag_world ag)"
    by (auto simp: limit_inv_def)
  have "\<exists>k \<le> ?c - go_Hour. history (ag_gr ?ag) r = filter (\<lambda>x. k < x) T"
  proof (cases "r = rr_Rule rule")
    case True
    have "history (ag_gr ?ag) r = filter (\<lambda>x. ?c - go_Hour < x) T"
      using True assms k filter_cut [OF k(1), of T]
      by (simp add: after_rate_check_def check_rate_limit_history limit_inv_def)
    then show ?thesis by blast
  next
    case False
    with k show ?thesis by (auto simp: after_rate_check_def check_rate_limit_history)
  qed
  then obtain k' where "k' \<le> ?c - go_Hour" "history (ag_gr ?ag) r = filter (\<lambda>x. k' < x) T" by blast
  then show ?thesis
    by (intro limit_inv_later [OF assms]) (simp_all add: after_rate_check_def keeps_clock_def check_rate_limit_reads)
qed

text \<open>
  A repair adds one time: if the check at \<open>c0\<close> saw fewer than the limit in the hour before, and
  the record comes at \<open>n\<close> after it, no window holding \<open>n\<close> gets more than the limit.
\<close>

lemma in_window_snoc:
  "in_window t (T @ [n]) = in_window t T + (if t < n \<and> n \<le> t + go_Hour then 1 else 0)"
  by (simp add: in_window_def)

lemma filter_length_mono: "(\<And>x. P x \<Longrightarrow> Q x) \<Longrightarrow> length (filter P xs) \<le> length (filter Q xs)"
  by (induction xs) auto

lemma in_window_bound:
  assumes "c - go_Hour \<le> t"
  shows "in_window t T \<le> length (filter (\<lambda>x. c - go_Hour < x) T)"
  unfolding in_window_def by (rule filter_length_mono) (use assms in auto)

lemma limit_inv_repair:
  assumes inv: "limit_inv (rr_Rule rule) L T ag" and cl: "clocked_actions en"
    and pass: "fst (check_rate_limit (rr_Rule rule) (ag_gr ag) (ag_world ag)) = None"
    and ag': "ag' = run_repair ops en inc rule rcp (after_rate_check rule ag)"
  shows "limit_inv (rr_Rule rule) L (T @ [last (history (ag_gr ag') (rr_Rule rule))]) ag'"
proof -
  let ?r = "rr_Rule rule" and ?ag1 = "after_rate_check rule ag"
  let ?c = "w_clock (ag_world ag) (w_reads (ag_world ag))"
  have inv1: "limit_inv ?r L T ?ag1" by (rule limit_inv_rate_check [OF inv])
  obtain j where j: "w_reads (ag_world ?ag1) \<le> j" "Suc j < w_reads (ag_world ag')"
    "w_clock (ag_world ag') = w_clock (ag_world ?ag1)"
    "gr_maxRepairs (ag_gr ag') = gr_maxRepairs (ag_gr ?ag1)"
    "\<And>r. history (ag_gr ag') r = (if r = ?r
        then filter (\<lambda>t. w_clock (ag_world ?ag1) j - go_Hour < t) (history (ag_gr ?ag1) r)
             @ [w_clock (ag_world ?ag1) (Suc j)] else history (ag_gr ?ag1) r)"
    by (rule run_repair_guardrails [OF cl ag']) blast
  define C where "C = w_clock (ag_world ag)"
  have C1: "w_clock (ag_world ?ag1) = C" "w_clock (ag_world ag') = C"
    by (simp_all add: C_def after_rate_check_def j(3))
  have mono: "i \<le> i' \<Longrightarrow> C i \<le> C i'" for i i'
    using inv clock_le [of "ag_world ag"] by (simp add: limit_inv_def C_def)
  have R: "w_reads (ag_world ag) \<le> w_reads (ag_world ?ag1)"
    by (simp add: after_rate_check_def check_rate_limit_reads)
  let ?n = "C (Suc j)"
  have last: "last (history (ag_gr ag') ?r) = ?n" by (simp add: j(5) C1)
  obtain k where k: "k \<le> C (w_reads (ag_world ?ag1)) - go_Hour" "history (ag_gr ?ag1) ?r = filter (\<lambda>x. k < x) T"
    using inv1 by (auto simp: limit_inv_def C1)
  have hist: "history (ag_gr ag') ?r = filter (\<lambda>x. C j - go_Hour < x) (T @ [?n])"
    using k mono [OF j(1)] mono [of j "Suc j"] filter_cut [of k "C j - go_Hour" T] by (simp add: j(5) C1)
  have few: "int (length (filter (\<lambda>x. ?c - go_Hour < x) T)) < L"
  proof -
    from inv obtain k0 where "k0 \<le> ?c - go_Hour" "history (ag_gr ag) ?r = filter (\<lambda>x. k0 < x) T"
      by (auto simp: limit_inv_def)
    with pass inv filter_cut [of k0 "?c - go_Hour" T] show ?thesis
      by (simp add: check_rate_limit_iff limit_inv_def)
  qed
  have n_late: "?c \<le> ?n" using mono [of "w_reads (ag_world ag)" "Suc j"] R j(1) by (simp add: C_def)
  have win: "in_window t (T @ [?n]) = 0 \<or> int (in_window t (T @ [?n])) \<le> L" for t
  proof (cases "t < ?n \<and> ?n \<le> t + go_Hour")
    case True
    then have "in_window t T \<le> length (filter (\<lambda>x. ?c - go_Hour < x) T)"
      using n_late by (intro in_window_bound) simp
    with few True show ?thesis by (simp add: in_window_snoc)
  next
    case False
    then have "in_window t (T @ [?n]) = in_window t T" by (simp add: in_window_snoc split: if_splits)
    with inv show ?thesis by (simp add: limit_inv_def)
  qed
  have le: "C (Suc j) \<le> C (w_reads (ag_world ag'))" by (rule mono) (use j(2) in simp)
  show ?thesis
    unfolding limit_inv_def last
  proof (intro conjI ballI allI exI [of _ "C j - go_Hour"])
    show "clock_monotone (ag_world ag')" using inv by (simp add: limit_inv_def clock_monotone_def C1 C_def)
    show "gget (gr_maxRepairs (ag_gr ag')) ?r = Some L" using inv1 by (simp add: limit_inv_def j(4))
    show "C j - go_Hour \<le> w_clock (ag_world ag') (w_reads (ag_world ag')) - go_Hour"
      using le mono [of j "Suc j"] by (simp add: C1)
    fix x assume "x \<in> set (T @ [?n])"
    then have "x \<le> ?c \<or> x = ?n" using inv by (auto simp: limit_inv_def)
    then show "x \<le> w_clock (ag_world ag') (w_reads (ag_world ag'))"
      using le n_late by (auto simp: C1)
  qed (use hist win in auto)
qed

lemma limit_inv_other:
  assumes inv: "limit_inv r L T ag" and cl: "clocked_actions en" and ne: "rr_Rule rule \<noteq> r"
    and ag': "ag' = run_repair ops en inc rule rcp (after_rate_check rule ag)"
  shows "limit_inv r L T ag'"
proof -
  let ?ag1 = "after_rate_check rule ag"
  have inv1: "limit_inv r L T ?ag1" by (rule limit_inv_rate_check [OF inv])
  then obtain k where k: "k \<le> w_clock (ag_world ?ag1) (w_reads (ag_world ?ag1)) - go_Hour"
    "history (ag_gr ?ag1) r = filter (\<lambda>x. k < x) T"
    by (auto simp: limit_inv_def)
  show ?thesis
  proof (rule run_repair_guardrails [OF cl ag'])
    fix j
    assume "w_reads (ag_world ?ag1) \<le> j" "Suc j < w_reads (ag_world ag')"
      "w_clock (ag_world ag') = w_clock (ag_world ?ag1)"
      "gr_maxRepairs (ag_gr ag') = gr_maxRepairs (ag_gr ?ag1)"
      "\<And>r. history (ag_gr ag') r = (if r = rr_Rule rule
        then filter (\<lambda>t. w_clock (ag_world ?ag1) j - go_Hour < t) (history (ag_gr ?ag1) r)
             @ [w_clock (ag_world ?ag1) (Suc j)] else history (ag_gr ?ag1) r)"
    then show ?thesis
      using k ne by (intro limit_inv_later [OF inv1 _ _ k(1)]) (auto simp: keeps_clock_def)
  qed
qed

definition times_of :: "string \<Rightarrow> (string \<times> string \<times> gotime) list \<Rightarrow> gotime list" where
  "times_of r reps = map (\<lambda>(_, _, t). t) (filter (\<lambda>(r', _, _). r' = r) reps)"

lemma times_of_simps [simp]:
  "times_of r [] = []" "times_of r (a @ b) = times_of r a @ times_of r b"
  "times_of r [(r', i, t)] = (if r' = r then [t] else [])"
  by (simp_all add: times_of_def)

lemma repair_log_Cons:
  "repair_log ops en (x # xs) ag = repair_log ops en [x] ag @ repair_log ops en xs (agent_step ops en x ag)"
  by (simp add: Let_def)

lemma limit_inv_step:
  assumes "limit_inv r L T ag" and "clocked_actions en"
  shows "limit_inv r L (T @ times_of r (repair_log ops en [x] ag)) (agent_step ops en x ag)"
proof (cases rule: agent_step_cases [of x en ag ops])
  case (1 res)
  with limit_inv_idle [OF assms(1)] show ?thesis by (simp del: agent_step.simps)
next
  case (2 snap rule rcp)
  show ?thesis
  proof (cases "rr_Rule rule = r")
    case True
    with limit_inv_repair [OF _ assms(2) 2(4) 2(5)] assms(1) 2(1) show ?thesis
      by (simp del: agent_step.simps)
  next
    case False
    with limit_inv_other [OF assms False 2(5)] 2(1) show ?thesis by (simp del: agent_step.simps)
  qed
next
  case (3 rule)
  with limit_inv_rate_check [OF assms(1)] show ?thesis by (simp del: agent_step.simps)
next
  case 4
  with assms(1) show ?thesis by (simp del: agent_step.simps)
qed

lemma limit_inv_run:
  assumes "limit_inv r L T ag" and "clocked_actions en"
  shows "limit_inv r L (T @ times_of r (repair_log ops en xs ag)) (agent_run ops en xs ag)"
  using assms(1)
proof (induction xs arbitrary: T ag)
  case Nil
  then show ?case by simp
next
  case (Cons x xs)
  from Cons.IH [OF limit_inv_step [OF Cons.prems assms(2), of ops x]] show ?case
    by (subst repair_log_Cons) simp
qed

lemma limit_inv_start:
  assumes "clock_monotone (ag_world ag)" and "gget (gr_maxRepairs (ag_gr ag)) r = Some L"
    and "history (ag_gr ag) r = []"
  shows "limit_inv r L [] ag"
  using assms by (auto simp: limit_inv_def in_window_def intro: order_refl)

section \<open>One repair per incident\<close>

lemma ag_mgr_set_status:
  "ag_mgr (engine_set_status ops c st ag) =
     set_status (shift (w_reads (ag_world ag)) (w_clock (ag_world ag))) ops c st (ag_mgr ag)"
  by (simp add: engine_set_status_def readings_def)

lemma manager_ok_engine_recorder [inv_intros]:
  assumes "manager_ok (ag_mgr ag)" and "\<And>now r. recorder_ok r \<Longrightarrow> recorder_ok (f now r)"
  shows "manager_ok (ag_mgr (engine_recorder f ag))"
  using assms by (simp add: engine_recorder_def readings_def manager_ok_def)

lemma manager_ok_persist_result [inv_intros]:
  "manager_ok (ag_mgr ag) \<Longrightarrow> manager_ok (ag_mgr (persist_result ops res rule ag))"
  by (simp add: persist_result_def manager_ok_def)

lemma manager_ok_repair_started [inv_intros]:
  "manager_ok (ag_mgr ag) \<Longrightarrow>
     manager_ok (ag_mgr (engine_recorder (\<lambda>now. record_repair_started now i rn wn) ag))"
  by (rule manager_ok_engine_recorder) simp_all

lemma manager_ok_repair_completed [inv_intros]:
  "manager_ok (ag_mgr ag) \<Longrightarrow>
     manager_ok (ag_mgr (engine_recorder (\<lambda>now. record_repair_completed now i rn wn st d) ag))"
  by (rule manager_ok_engine_recorder) simp_all

text \<open>
  For the manager a repair is a status change of the incident of its check, to verifying or failed
  as the recipe ended, and nothing else.
\<close>

definition repair_outcome ::
  "'st store_ops \<Rightarrow> 'e engine \<Rightarrow> incident \<Rightarrow> repair_rule_config \<Rightarrow> recipe \<Rightarrow> ('st, 'e) agent
   \<Rightarrow> recipe_result" where
  "repair_outcome ops en inc rule rcp ag =
     (let ag2 = engine_recorder
            (\<lambda>now. record_repair_started now (inc_ID inc) (rr_Rule rule) (wf_Name rcp))
            (engine_set_status ops (inc_CheckName inc) StatusRepairing ag)
      in fst (execute_recipe en rcp (inc_ID inc) (ag_gr ag2, ag_world ag2)))"

lemma run_repair_manager:
  assumes ok: "manager_ok (ag_mgr ag)"
  obtains t where "manager_ok (ag_mgr (run_repair ops en inc rule rcp ag))"
    and "mg_idCounter (ag_mgr (run_repair ops en inc rule rcp ag)) = mg_idCounter (ag_mgr ag)"
    and "\<And>k. gget (mg_active (ag_mgr (run_repair ops en inc rule rcp ag))) k =
          (if k \<noteq> inc_CheckName inc then gget (mg_active (ag_mgr ag)) k
           else map_option
             (\<lambda>i. i\<lparr>inc_Status := if res_Status (repair_outcome ops en inc rule rcp ag) = RecipeSuccess
                                 then StatusVerifying else StatusFailed, inc_UpdatedAt := t\<rparr>)
             (gget (mg_active (ag_mgr ag)) k))"
proof -
  define ag1 where "ag1 = engine_set_status ops (inc_CheckName inc) StatusRepairing ag"
  define ag2 where "ag2 = engine_recorder
      (\<lambda>now. record_repair_started now (inc_ID inc) (rr_Rule rule) (wf_Name rcp)) ag1"
  define X where "X = execute_recipe en rcp (inc_ID inc) (ag_gr ag2, ag_world ag2)"
  define ok' where "ok' = (res_Status (fst X) = RecipeSuccess)"
  define Y where "Y = record_repair (rr_Rule rule) (fst (snd X)) (snd (snd X))"
  define ag4 where "ag4 = persist_result ops (fst X) rule (ag2\<lparr>ag_gr := fst Y, ag_world := snd Y\<rparr>)"
  define ag5 where "ag5 = engine_recorder
      (\<lambda>now. record_repair_completed now (inc_ID inc) (rr_Rule rule) (wf_Name rcp)
         (if ok' then ''success'' else ''failed'') (res_FinishedAt (fst X) - res_StartedAt (fst X))) ag4"
  have run: "run_repair ops en inc rule rcp ag =
      engine_set_status ops (inc_CheckName inc) (if ok' then StatusVerifying else StatusFailed) ag5"
    by (simp add: run_repair_def Let_def case_prod_beta ag1_def ag2_def X_def Y_def ag4_def ag5_def ok'_def)
  have out: "repair_outcome ops en inc rule rcp ag = fst X"
    by (simp add: repair_outcome_def Let_def X_def ag2_def ag1_def)
  have ok1: "manager_ok (ag_mgr ag1)" using ok by (simp add: ag1_def ag_mgr_set_status)
  have "manager_ok (ag_mgr ag2)"
    unfolding ag2_def by (rule manager_ok_repair_started [OF ok1])
  then have "manager_ok (ag_mgr ag4)"
    unfolding ag4_def by (intro manager_ok_persist_result) simp
  then have ok5: "manager_ok (ag_mgr ag5)"
    unfolding ag5_def by (rule manager_ok_repair_completed)
  have frame: "mg_active (ag_mgr ag5) = mg_active (ag_mgr ag1)"
    "mg_idCounter (ag_mgr ag5) = mg_idCounter (ag_mgr ag)"
    by (simp_all add: ag5_def ag4_def ag2_def ag1_def ag_mgr_set_status counter_set_status [OF ok])
  show thesis
  proof (rule that)
    show "manager_ok (ag_mgr (run_repair ops en inc rule rcp ag))"
      using ok5 by (simp add: run ag_mgr_set_status)
    show "mg_idCounter (ag_mgr (run_repair ops en inc rule rcp ag)) = mg_idCounter (ag_mgr ag)"
      by (simp add: run ag_mgr_set_status counter_set_status [OF ok5] frame)
    show "gget (mg_active (ag_mgr (run_repair ops en inc rule rcp ag))) k =
          (if k \<noteq> inc_CheckName inc then gget (mg_active (ag_mgr ag)) k
           else map_option
             (\<lambda>i. i\<lparr>inc_Status := if res_Status (repair_outcome ops en inc rule rcp ag) = RecipeSuccess
                                 then StatusVerifying else StatusFailed,
                   inc_UpdatedAt := w_clock (ag_world ag5) (w_reads (ag_world ag5))\<rparr>)
             (gget (mg_active (ag_mgr ag)) k))" for k
      by (simp add: run out ok'_def [symmetric] ag_mgr_set_status active_set_status [OF ok5] frame
          ag1_def active_set_status [OF ok] shift_def split: option.splits)
  qed
qed

text \<open>An incident in \<open>D\<close> was repaired: it is gone or no longer open.\<close>

definition once_inv :: "string list \<Rightarrow> ('st, 'e) agent \<Rightarrow> bool" where
  "once_inv D ag \<longleftrightarrow> manager_ok (ag_mgr ag) \<and> ids_ok (ag_mgr ag) \<and> distinct D
     \<and> (\<forall>i \<in> set D. (\<exists>n \<le> mg_idCounter (ag_mgr ag). i = inc_id_of n)
          \<and> (\<forall>k inc. gget (mg_active (ag_mgr ag)) k = Some inc \<longrightarrow> inc_ID inc = i \<longrightarrow>
                 inc_Status inc \<noteq> StatusOpen))"

lemma process_result_entry:
  assumes "manager_ok m" and "gget (mg_active (process_result now ops r m)) k = Some inc'"
  shows "(\<exists>inc. gget (mg_active m) k = Some inc \<and> inc_ID inc' = inc_ID inc \<and> inc_Status inc' = inc_Status inc)
     \<or> inc_ID inc' = inc_id_of (mg_idCounter m + 1)"
  using assms(2)
  by (auto simp: active_process_result [OF assms(1)] create_incident_def Let_def inc_id_of_def
      split: if_splits check_status.splits option.splits)

lemma ids_ok_process_result:
  "manager_ok m \<Longrightarrow> ids_ok m \<Longrightarrow> ids_ok (process_result now ops r m)"
  using ids_ok_step [of m ops "(now, OpResult r)"] by simp

lemma once_inv_result:
  assumes "once_inv D ag"
  shows "once_inv D (agent_step ops en (AgResult r) ag)"
proof -
  let ?m = "ag_mgr ag"
  define now where "now = shift (w_reads (ag_world ag)) (w_clock (ag_world ag))"
  let ?m' = "process_result now ops r ?m"
  from assms have ok: "manager_ok ?m" and ids: "ids_ok ?m" by (simp_all add: once_inv_def)
  have le: "mg_idCounter ?m \<le> mg_idCounter ?m'" by (simp add: counter_process_result [OF ok])
  have "(\<exists>n \<le> mg_idCounter ?m'. i = inc_id_of n)
      \<and> (\<forall>k inc. gget (mg_active ?m') k = Some inc \<longrightarrow> inc_ID inc = i \<longrightarrow> inc_Status inc \<noteq> StatusOpen)"
    if D: "i \<in> set D" for i
  proof -
    from assms D obtain n where n: "n \<le> mg_idCounter ?m" "i = inc_id_of n"
      and not_open: "\<And>k inc. gget (mg_active ?m) k = Some inc \<Longrightarrow> inc_ID inc = i \<Longrightarrow> inc_Status inc \<noteq> StatusOpen"
      unfolding once_inv_def by blast
    have "inc_Status inc' \<noteq> StatusOpen" if "gget (mg_active ?m') k = Some inc'" "inc_ID inc' = i" for k inc'
      using process_result_entry [OF ok that(1)]
    proof (elim disjE exE conjE)
      fix inc
      assume "gget (mg_active ?m) k = Some inc" "inc_ID inc' = inc_ID inc" "inc_Status inc' = inc_Status inc"
      with not_open [of k inc] that(2) show ?thesis by simp
    qed (use n that(2) in simp)
    moreover from n(1) le have "n \<le> mg_idCounter ?m'" by (rule order_trans)
    ultimately show ?thesis using n(2) by blast
  qed
  with assms ok ids_ok_process_result [OF ok ids] show ?thesis
    by (simp add: once_inv_def readings_def now_def)
qed

lemma once_inv_repair:
  assumes inv: "once_inv D ag" and snap: "gget (mg_active (ag_mgr ag)) k0 = Some snap"
    and opn: "inc_Status snap = StatusOpen"
  shows "once_inv (D @ [inc_ID snap]) (run_repair ops en snap rule rcp (after_rate_check rule ag))"
proof -
  let ?ag1 = "after_rate_check rule ag"
  let ?m = "ag_mgr ag" and ?m' = "ag_mgr (run_repair ops en snap rule rcp ?ag1)"
  from inv have ok: "manager_ok ?m" and ids: "ids_ok ?m" by (simp_all add: once_inv_def)
  have ok1: "manager_ok (ag_mgr ?ag1)" using ok by simp
  from ok have k0: "inc_CheckName snap = k0" using active_okD [OF _ snap] by (simp add: manager_ok_def)
  obtain t where m': "manager_ok ?m'" "mg_idCounter ?m' = mg_idCounter ?m"
    "\<And>k. gget (mg_active ?m') k =
       (if k \<noteq> k0 then gget (mg_active ?m) k
        else map_option
          (\<lambda>i. i\<lparr>inc_Status := if res_Status (repair_outcome ops en snap rule rcp ?ag1) = RecipeSuccess
                              then StatusVerifying else StatusFailed, inc_UpdatedAt := t\<rparr>)
          (gget (mg_active ?m) k))"
    by (rule run_repair_manager [OF ok1, of ops en snap rule rcp, unfolded k0 after_rate_check_frame(1)])
      (rule that)
  have entry: "\<exists>inc. gget (mg_active ?m) k = Some inc \<and> inc_ID inc' = inc_ID inc
      \<and> (k = k0 \<and> inc_Status inc' \<noteq> StatusOpen \<or> k \<noteq> k0 \<and> inc' = inc)"
    if "gget (mg_active ?m') k = Some inc'" for k inc'
    using that snap by (auto simp: m'(3) split: if_splits)
  have ids': "ids_ok ?m'"
    unfolding ids_ok_def
  proof (intro conjI allI impI)
    fix k inc' assume "gget (mg_active ?m') k = Some inc'"
    from entry [OF this] ids show "\<exists>n \<le> mg_idCounter ?m'. inc_ID inc' = inc_id_of n"
      unfolding ids_ok_def m'(2) by metis
  next
    fix k1 k2 i1 i2
    assume "gget (mg_active ?m') k1 = Some i1" "gget (mg_active ?m') k2 = Some i2" "inc_ID i1 = inc_ID i2"
    with entry [of k1 i1] entry [of k2 i2] ids show "k1 = k2"
      unfolding ids_ok_def by metis
  qed
  have fresh: "inc_ID snap \<notin> set D"
    using inv snap opn unfolding once_inv_def by blast
  have "(\<exists>n \<le> mg_idCounter ?m'. i = inc_id_of n)
      \<and> (\<forall>k inc'. gget (mg_active ?m') k = Some inc' \<longrightarrow> inc_ID inc' = i \<longrightarrow> inc_Status inc' \<noteq> StatusOpen)"
    if i: "i \<in> set (D @ [inc_ID snap])" for i
  proof
    show "\<exists>n \<le> mg_idCounter ?m'. i = inc_id_of n"
      using i inv ids snap unfolding once_inv_def ids_ok_def m'(2) by auto
    have "inc_Status inc' \<noteq> StatusOpen" if g: "gget (mg_active ?m') k = Some inc'" and "inc_ID inc' = i" for k inc'
    proof -
      from entry [OF g] obtain inc where inc: "gget (mg_active ?m) k = Some inc" "inc_ID inc' = inc_ID inc"
        "k = k0 \<and> inc_Status inc' \<noteq> StatusOpen \<or> k \<noteq> k0 \<and> inc' = inc" by blast
      show ?thesis
      proof (cases "k = k0")
        case False
        have "i \<noteq> inc_ID snap"
        proof
          assume "i = inc_ID snap"
          with inc that(2) snap ids have "k = k0" unfolding ids_ok_def by metis
          with False show False ..
        qed
        with i have "i \<in> set D" by simp
        with inv inc False that(2) show ?thesis unfolding once_inv_def by blast
      qed (use inc in blast)
    qed
    then show "\<forall>k inc'. gget (mg_active ?m') k = Some inc' \<longrightarrow> inc_ID inc' = i \<longrightarrow> inc_Status inc' \<noteq> StatusOpen"
      by blast
  qed
  with m'(1) ids' fresh inv show ?thesis unfolding once_inv_def by simp
qed

lemma once_inv_frame:
  "once_inv D ag \<Longrightarrow> ag_mgr ag' = ag_mgr ag \<Longrightarrow> once_inv D ag'"
  by (simp add: once_inv_def)

definition repaired_ids :: "(string \<times> string \<times> gotime) list \<Rightarrow> string list" where
  "repaired_ids reps = map (\<lambda>(_, i, _). i) reps"

lemma repaired_ids_simps [simp]:
  "repaired_ids [] = []" "repaired_ids (a @ b) = repaired_ids a @ repaired_ids b"
  "repaired_ids [(r, i, t)] = [i]"
  by (simp_all add: repaired_ids_def)

lemma once_inv_step:
  assumes "once_inv D ag"
  shows "once_inv (D @ repaired_ids (repair_log ops en [x] ag)) (agent_step ops en x ag)"
proof (cases rule: agent_step_cases [of x en ag ops])
  case (1 r)
  with once_inv_result [OF assms] show ?thesis by (simp del: agent_step.simps)
next
  case (2 snap rule rcp)
  with once_inv_repair [OF assms 2(2,3)] show ?thesis by (simp del: agent_step.simps)
next
  case (3 rule)
  with once_inv_frame [OF assms after_rate_check_frame(1)] show ?thesis by (simp del: agent_step.simps)
next
  case 4
  with assms show ?thesis by (simp del: agent_step.simps)
qed

lemma once_inv_run:
  assumes "once_inv D ag"
  shows "once_inv (D @ repaired_ids (repair_log ops en xs ag)) (agent_run ops en xs ag)"
  using assms
proof (induction xs arbitrary: D ag)
  case Nil
  then show ?case by simp
next
  case (Cons x xs)
  from Cons.IH [OF once_inv_step [OF Cons.prems, of ops en x]] show ?case
    by (subst repair_log_Cons) simp
qed

end
