(* ===== verification/Engine_Concurrent.thy ===== *)
theory Engine_Concurrent
  imports Engine_Runs
begin

text \<open>
  The engine with its goroutines (\<open>Engine.Run\<close>): every dispatched snapshot is a task that waits
  for one of ten semaphore slots and then goes through \<open>handle_incident\<close> phase by phase, each call
  into the manager, the guardrails, the recorder or the store being one atomic transition under that
  component's lock. A recipe step is looked up, attempted and recorded in transitions of their own; one
  attempt, which runs the action, is one transition. Check results and the phases of different tasks
  interleave in any order.
\<close>

section \<open>Tasks\<close>

datatype task =
    TWaiting incident
  | THandling incident
  | TAdmitted incident repair_rule_config recipe
  | TMarked incident repair_rule_config recipe
  | TRunning incident repair_rule_config recipe gotime "recipe_step list" bool "step_result list"
  | TAttempting incident repair_rule_config recipe gotime recipe_step "recipe_step list" "step_result list"
      nat int duration "goerror option"
  | TSucceeded incident repair_rule_config recipe gotime recipe_step "recipe_step list" "step_result list"
      step_result
  | TFinished incident repair_rule_config recipe recipe_result
  | TRecorded incident repair_rule_config recipe recipe_result
  | TPersisted incident repair_rule_config recipe recipe_result
  | TReported incident bool
  | TDone

text \<open>
  \<open>TAttempting\<close> is in the loop over the attempts of a step: the steps after it and the results
  before it, how many attempts are left, how many were made, for how long and the last error.
  \<open>TSucceeded\<close> has the result of a step whose execution the guardrails have not recorded yet.
\<close>

text \<open>A task holds a slot from the moment it is handled until it is done.\<close>

fun holds_slot :: "task \<Rightarrow> bool" where
  "holds_slot (TWaiting inc) \<longleftrightarrow> False"
| "holds_slot TDone \<longleftrightarrow> False"
| "holds_slot _ \<longleftrightarrow> True"

text \<open>The rule of a repair that passed the rate limit and is not recorded yet.\<close>

fun in_flight :: "task \<Rightarrow> string option" where
  "in_flight (TAdmitted inc rule rcp) = Some (rr_Rule rule)"
| "in_flight (TMarked inc rule rcp) = Some (rr_Rule rule)"
| "in_flight (TRunning inc rule rcp t steps p srs) = Some (rr_Rule rule)"
| "in_flight (TAttempting inc rule rcp t step steps srs n k dur e) = Some (rr_Rule rule)"
| "in_flight (TSucceeded inc rule rcp t step steps srs sr) = Some (rr_Rule rule)"
| "in_flight (TFinished inc rule rcp res) = Some (rr_Rule rule)"
| "in_flight _ = None"

definition max_concurrent :: nat where
  "max_concurrent = 10"

definition slots_used :: "task list \<Rightarrow> nat" where
  "slots_used ts = length (filter holds_slot ts)"

definition flying :: "string \<Rightarrow> task list \<Rightarrow> nat" where
  "flying r ts = length (filter (\<lambda>t. in_flight t = Some r) ts)"

record ('st, 'e) cagent =
  ca_agent :: "('st, 'e) agent"
  ca_tasks :: "task list"

definition set_task :: "nat \<Rightarrow> task \<Rightarrow> ('st, 'e) agent \<Rightarrow> ('st, 'e) cagent \<Rightarrow> ('st, 'e) cagent" where
  "set_task i t ag s = \<lparr>ca_agent = ag, ca_tasks = (ca_tasks s)[i := t]\<rparr>"

section \<open>Transitions\<close>

text \<open>One attempt: the error of the action and how long it took.\<close>

definition attempt_once ::
  "'e action \<Rightarrow> recipe_step \<Rightarrow> 'e world \<Rightarrow> goerror option \<times> duration \<times> 'e world" where
  "attempt_once act step w =
     (let (start, w1) = time_now w;
          (err, w2) = a_Execute act (step_timeout step) (st_Params step) w1;
          (finish, w3) = time_now w2
      in (err, finish - start, w3))"

definition step_succeeded :: "recipe_step \<Rightarrow> int \<Rightarrow> duration \<Rightarrow> step_result" where
  "step_succeeded step k dur =
     \<lparr>sr_StepName = st_Name step, sr_ActionName = st_ActionName step, sr_Status = RecipeSuccess,
      sr_Attempts = k, sr_Duration = dur, sr_Error = None\<rparr>"

definition step_exhausted :: "recipe_step \<Rightarrow> int \<Rightarrow> duration \<Rightarrow> goerror option \<Rightarrow> step_result" where
  "step_exhausted step k dur lastErr =
     \<lparr>sr_StepName = st_Name step, sr_ActionName = st_ActionName step, sr_Status = RecipeFailed,
      sr_Attempts = k, sr_Duration = dur,
      sr_Error = Some (ActionFailed (st_ActionName step) (max_attempts step) lastErr)\<rparr>"

inductive cstep ::
  "'st store_ops \<Rightarrow> 'e engine \<Rightarrow> ('st, 'e) cagent \<Rightarrow> ('st, 'e) cagent \<Rightarrow> bool"
  for ops :: "'st store_ops" and en :: "'e engine" where
  c_result:
    "cstep ops en s (s\<lparr>ca_agent := agent_step ops en (AgResult (r :: goerror check_result)) (ca_agent s)\<rparr>)"
| c_dispatch:
    "triggers (ev_Type (ev :: incident_event)) \<Longrightarrow>
     get_active (ag_mgr (ca_agent s)) (inc_CheckName (ev_Incident ev)) = Some snap \<Longrightarrow>
     cstep ops en s (s\<lparr>ca_tasks := ca_tasks s @ [TWaiting snap]\<rparr>)"
| c_give_up:
    "i < length (ca_tasks s) \<Longrightarrow> ca_tasks s ! i = TWaiting inc \<Longrightarrow>
     cstep ops en s (set_task i TDone (ca_agent s) s)"
| c_acquire:
    "i < length (ca_tasks s) \<Longrightarrow> ca_tasks s ! i = TWaiting inc \<Longrightarrow>
     slots_used (ca_tasks s) < max_concurrent \<Longrightarrow>
     cstep ops en s (set_task i (THandling inc) (ca_agent s) s)"
| c_no_rule:
    "i < length (ca_tasks s) \<Longrightarrow> ca_tasks s ! i = THandling inc \<Longrightarrow>
     gget (en_rules en) (inc_CheckName inc) = None \<or> inc_Status inc \<noteq> StatusOpen \<Longrightarrow>
     cstep ops en s (set_task i TDone (ca_agent s) s)"
| c_refuse:
    "i < length (ca_tasks s) \<Longrightarrow> ca_tasks s ! i = THandling inc \<Longrightarrow>
     gget (en_rules en) (inc_CheckName inc) = Some rule \<Longrightarrow> inc_Status inc = StatusOpen \<Longrightarrow>
     accepted en inc (ca_agent s) = None \<Longrightarrow>
     cstep ops en s (set_task i TDone (after_rate_check rule (ca_agent s)) s)"
| c_admit:
    "i < length (ca_tasks s) \<Longrightarrow> ca_tasks s ! i = THandling inc \<Longrightarrow>
     accepted en inc (ca_agent s) = Some (rule, rcp) \<Longrightarrow>
     cstep ops en s (set_task i (TAdmitted inc rule rcp) (after_rate_check rule (ca_agent s)) s)"
| c_mark:
    "i < length (ca_tasks s) \<Longrightarrow> ca_tasks s ! i = TAdmitted inc rule rcp \<Longrightarrow>
     cstep ops en s (set_task i (TMarked inc rule rcp)
       (engine_set_status ops (inc_CheckName inc) StatusRepairing (ca_agent s)) s)"
| c_start:
    "i < length (ca_tasks s) \<Longrightarrow> ca_tasks s ! i = TMarked inc rule rcp \<Longrightarrow>
     ag' = engine_recorder
       (\<lambda>now. record_repair_started now (inc_ID inc) (rr_Rule rule) (wf_Name rcp)) (ca_agent s) \<Longrightarrow>
     time_now (ag_world ag') = (t, w) \<Longrightarrow>
     cstep ops en s (set_task i (TRunning inc rule rcp t (wf_Steps rcp) False []) (ag'\<lparr>ag_world := w\<rparr>) s)"
| c_skip:
    "i < length (ca_tasks s) \<Longrightarrow> ca_tasks s ! i = TRunning inc rule rcp t (step # steps) p srs \<Longrightarrow>
     st_OnFailureOnly step \<Longrightarrow> \<not> p \<Longrightarrow>
     cstep ops en s (set_task i (TRunning inc rule rcp t steps p (srs @ [skipped_step step])) (ca_agent s) s)"
| c_blocked:
    "i < length (ca_tasks s) \<Longrightarrow> ca_tasks s ! i = TRunning inc rule rcp t (step # steps) p srs \<Longrightarrow>
     \<not> (st_OnFailureOnly step \<and> \<not> p) \<Longrightarrow>
     check_action (st_ActionName step) (ag_gr (ca_agent s)) (ag_world (ca_agent s)) = (Some e, w) \<Longrightarrow>
     cstep ops en s (set_task i
       (TRunning inc rule rcp t steps True (srs @ [failed_step step (GuardrailBlocked e)]))
       ((ca_agent s)\<lparr>ag_world := w\<rparr>) s)"
| c_missing:
    "i < length (ca_tasks s) \<Longrightarrow> ca_tasks s ! i = TRunning inc rule rcp t (step # steps) p srs \<Longrightarrow>
     \<not> (st_OnFailureOnly step \<and> \<not> p) \<Longrightarrow>
     check_action (st_ActionName step) (ag_gr (ca_agent s)) (ag_world (ca_agent s)) = (None, w) \<Longrightarrow>
     action_get (en_actions en) (st_ActionName step) = None \<Longrightarrow>
     cstep ops en s (set_task i
       (TRunning inc rule rcp t steps True (srs @ [failed_step step (ActionNotFound (st_ActionName step))]))
       ((ca_agent s)\<lparr>ag_world := w\<rparr>) s)"
| c_permit:
    "i < length (ca_tasks s) \<Longrightarrow> ca_tasks s ! i = TRunning inc rule rcp t (step # steps) p srs \<Longrightarrow>
     \<not> (st_OnFailureOnly step \<and> \<not> p) \<Longrightarrow>
     check_action (st_ActionName step) (ag_gr (ca_agent s)) (ag_world (ca_agent s)) = (None, w) \<Longrightarrow>
     action_get (en_actions en) (st_ActionName step) = Some act \<Longrightarrow>
     cstep ops en s (set_task i
       (TAttempting inc rule rcp t step steps srs (nat (max_attempts step)) 0 0 None)
       ((ca_agent s)\<lparr>ag_world := w\<rparr>) s)"
| c_attempt:
    "i < length (ca_tasks s) \<Longrightarrow> ca_tasks s ! i = TAttempting inc rule rcp t step steps srs (Suc n) k dur l \<Longrightarrow>
     action_get (en_actions en) (st_ActionName step) = Some act \<Longrightarrow>
     attempt_once act step (ag_world (ca_agent s)) = (err, d, w) \<Longrightarrow>
     cstep ops en s (set_task i
       (case err of
          Some e \<Rightarrow> TAttempting inc rule rcp t step steps srs n (k + 1) (dur + d) (Some e)
        | None \<Rightarrow> TSucceeded inc rule rcp t step steps srs (step_succeeded step (k + 1) (dur + d)))
       ((ca_agent s)\<lparr>ag_world := w\<rparr>) s)"
| c_succeed:
    "i < length (ca_tasks s) \<Longrightarrow> ca_tasks s ! i = TSucceeded inc rule rcp t step steps srs sr \<Longrightarrow>
     record_action_execution (st_ActionName step) (ag_gr (ca_agent s)) (ag_world (ca_agent s)) = (g, w) \<Longrightarrow>
     cstep ops en s (set_task i (TRunning inc rule rcp t steps False (srs @ [sr]))
       ((ca_agent s)\<lparr>ag_gr := g, ag_world := w\<rparr>) s)"
| c_exhaust:
    "i < length (ca_tasks s) \<Longrightarrow> ca_tasks s ! i = TAttempting inc rule rcp t step steps srs 0 k dur l \<Longrightarrow>
     cstep ops en s (set_task i
       (TRunning inc rule rcp t steps True (srs @ [step_exhausted step k dur l])) (ca_agent s) s)"
| c_finish:
    "i < length (ca_tasks s) \<Longrightarrow> ca_tasks s ! i = TRunning inc rule rcp t [] p srs \<Longrightarrow>
     time_now (ag_world (ca_agent s)) = (t', w) \<Longrightarrow> overall_status (rev srs) = (st, err) \<Longrightarrow>
     cstep ops en s (set_task i
       (TFinished inc rule rcp
          \<lparr>res_RecipeName = wf_Name rcp, res_IncidentID = inc_ID inc, res_Status = st,
           res_StepResults = srs, res_StartedAt = t, res_FinishedAt = t', res_Error = err\<rparr>)
       ((ca_agent s)\<lparr>ag_world := w\<rparr>) s)"
| c_record:
    "i < length (ca_tasks s) \<Longrightarrow> ca_tasks s ! i = TFinished inc rule rcp res \<Longrightarrow>
     record_repair (rr_Rule rule) (ag_gr (ca_agent s)) (ag_world (ca_agent s)) = (g, w) \<Longrightarrow>
     cstep ops en s (set_task i (TRecorded inc rule rcp res) ((ca_agent s)\<lparr>ag_gr := g, ag_world := w\<rparr>) s)"
| c_persist:
    "i < length (ca_tasks s) \<Longrightarrow> ca_tasks s ! i = TRecorded inc rule rcp res \<Longrightarrow>
     cstep ops en s (set_task i (TPersisted inc rule rcp res) (persist_result ops res rule (ca_agent s)) s)"
| c_report:
    "i < length (ca_tasks s) \<Longrightarrow> ca_tasks s ! i = TPersisted inc rule rcp res \<Longrightarrow>
     ok = (res_Status res = RecipeSuccess) \<Longrightarrow>
     cstep ops en s (set_task i (TReported inc ok)
       (engine_recorder (\<lambda>now. record_repair_completed now (inc_ID inc) (rr_Rule rule) (wf_Name rcp)
          (if ok then ''success'' else ''failed'') (res_FinishedAt res - res_StartedAt res)) (ca_agent s)) s)"
| c_done:
    "i < length (ca_tasks s) \<Longrightarrow> ca_tasks s ! i = TReported inc ok \<Longrightarrow>
     cstep ops en s (set_task i TDone
       (engine_set_status ops (inc_CheckName inc) (if ok then StatusVerifying else StatusFailed)
         (ca_agent s)) s)"

inductive creach ::
  "'st store_ops \<Rightarrow> 'e engine \<Rightarrow> ('st, 'e) cagent \<Rightarrow> ('st, 'e) cagent \<Rightarrow> bool"
  for ops :: "'st store_ops" and en :: "'e engine" where
  creach_refl: "creach ops en s s"
| creach_step: "creach ops en s s' \<Longrightarrow> cstep ops en s' s'' \<Longrightarrow> creach ops en s s''"

lemma creach_one: "cstep ops en s s' \<Longrightarrow> creach ops en s s'"
  by (rule creach_step [OF creach_refl])

section \<open>Counting tasks\<close>

lemma slots_set_task:
  assumes "i < length (ca_tasks s)"
  shows "slots_used (ca_tasks (set_task i t ag s)) + (if holds_slot (ca_tasks s ! i) then 1 else 0) =
         slots_used (ca_tasks s) + (if holds_slot t then 1 else 0)"
  using filter_update_length [OF assms] by (simp add: slots_used_def set_task_def)

lemma flying_set_task:
  assumes "i < length (ca_tasks s)"
  shows "flying r (ca_tasks (set_task i t ag s)) + (if in_flight (ca_tasks s ! i) = Some r then 1 else 0) =
         flying r (ca_tasks s) + (if in_flight t = Some r then 1 else 0)"
  using filter_update_length [OF assms, of "\<lambda>t. in_flight t = Some r"] by (simp add: flying_def set_task_def)

lemma ca_agent_set_task [simp]: "ca_agent (set_task i t ag s) = ag"
  by (simp add: set_task_def)

lemma flying_le_slots: "flying r ts \<le> slots_used ts"
proof -
  have "in_flight t = Some r \<Longrightarrow> holds_slot t" for t by (cases t) auto
  then show ?thesis unfolding flying_def slots_used_def by (rule filter_length_mono)
qed

text \<open>A task about to be admitted holds a slot without flying.\<close>

lemma flying_less_slots:
  assumes "i < length ts" and "holds_slot (ts ! i)" and "in_flight (ts ! i) = None"
  shows "Suc (flying r ts) \<le> slots_used ts"
proof -
  have "flying r ts = flying r (ts[i := TDone])" "Suc (slots_used (ts[i := TDone])) = slots_used ts"
    using filter_update_length [OF assms(1), of "\<lambda>t. in_flight t = Some r" TDone]
      filter_update_length [OF assms(1), of holds_slot TDone] assms(2,3)
    by (simp_all add: flying_def slots_used_def)
  with flying_le_slots [of r "ts[i := TDone]"] show ?thesis by simp
qed

section \<open>At most ten repairs at once\<close>

definition slots_ok :: "('st, 'e) cagent \<Rightarrow> bool" where
  "slots_ok s \<longleftrightarrow> slots_used (ca_tasks s) \<le> max_concurrent"

lemma slots_ok_set_task:
  assumes "slots_ok s" and "i < length (ca_tasks s)" and "holds_slot t \<longrightarrow> holds_slot (ca_tasks s ! i)"
  shows "slots_ok (set_task i t ag s)"
  using assms slots_set_task [OF assms(2), of t ag] by (auto simp: slots_ok_def split: if_splits)

lemma slots_ok_step:
  assumes "slots_ok s" and "cstep ops en s s'"
  shows "slots_ok s'"
  using assms(2,1)
proof cases
  case (c_dispatch ev snap)
  with assms(1) show ?thesis by (simp add: slots_ok_def slots_used_def)
next
  case (c_acquire i inc)
  with slots_set_task [of i s "THandling inc" "ca_agent s"] show ?thesis
    by (simp add: slots_ok_def)
next
  case (c_result r)
  with assms(1) show ?thesis by (simp add: slots_ok_def)
qed (auto intro!: slots_ok_set_task)

lemma creach_invariant:
  assumes "creach ops en s s'" and "P s"
    and "\<And>s s'. cstep ops en s s' \<Longrightarrow> P s \<Longrightarrow> P s'"
  shows "P s'"
  using assms(1,2) by (induction rule: creach.induct) (auto intro: assms(3))

lemma slots_ok_reach: "creach ops en s s' \<Longrightarrow> slots_ok s \<Longrightarrow> slots_ok s'"
  by (erule creach_invariant) (auto intro: slots_ok_step)

section \<open>The hourly limit under concurrency\<close>

text \<open>
  The rate limit is checked before a repair and recorded after it, so repairs in flight are not
  counted: the history and the repairs in flight together can exceed the limit by the nine other
  slots, and by no more.
\<close>

definition conc_inv :: "string \<Rightarrow> int \<Rightarrow> ('st, 'e) cagent \<Rightarrow> bool" where
  "conc_inv r L s \<longleftrightarrow> slots_ok s \<and> gget (gr_maxRepairs (ag_gr (ca_agent s))) r = Some L
     \<and> int (length (history (ag_gr (ca_agent s)) r) + flying r (ca_tasks s)) \<le> L + 9"

lemma conc_inv_task:
  assumes "conc_inv r L s" and "i < length (ca_tasks s)"
    and "holds_slot t \<longrightarrow> holds_slot (ca_tasks s ! i)"
    and "in_flight t = in_flight (ca_tasks s ! i) \<or> in_flight t = None"
    and "gr_maxRepairs (ag_gr ag) = gr_maxRepairs (ag_gr (ca_agent s))"
    and "length (history (ag_gr ag) r) \<le> length (history (ag_gr (ca_agent s)) r)"
  shows "conc_inv r L (set_task i t ag s)"
  using assms slots_ok_set_task [OF _ assms(2,3)] flying_set_task [OF assms(2), of r t ag]
  by (auto simp: conc_inv_def split: if_splits)

lemma same_limits_history: "same_limits g g' \<Longrightarrow> history g' r = history g r"
  by (simp add: same_limits_def history_def)

lemma after_rate_check_limits:
  "gr_maxRepairs (ag_gr (after_rate_check rule ag)) = gr_maxRepairs (ag_gr ag)"
  "length (history (ag_gr (after_rate_check rule ag)) r) \<le> length (history (ag_gr ag) r)"
  by (simp_all add: after_rate_check_def check_rate_limit_history)

lemma accepted_few:
  assumes "accepted en inc ag = Some (rule, rcp)" and "gget (gr_maxRepairs (ag_gr ag)) (rr_Rule rule) = Some L"
  shows "int (length (history (ag_gr (after_rate_check rule ag)) (rr_Rule rule))) < L"
proof -
  from assms(1) have "fst (check_rate_limit (rr_Rule rule) (ag_gr ag) (ag_world ag)) = None"
    by (auto simp: accepted_def split: option.splits if_splits)
  with assms(2) show ?thesis
    by (simp add: check_rate_limit_iff after_rate_check_def check_rate_limit_history)
qed

lemma conc_inv_admit:
  assumes inv: "conc_inv r L s" and i: "i < length (ca_tasks s)" "ca_tasks s ! i = THandling inc"
    and acc: "accepted en inc (ca_agent s) = Some (rule, rcp)"
  shows "conc_inv r L (set_task i (TAdmitted inc rule rcp) (after_rate_check rule (ca_agent s)) s)"
proof -
  let ?ag = "after_rate_check rule (ca_agent s)" and ?t = "TAdmitted inc rule rcp"
  have slots: "slots_ok (set_task i ?t ?ag s)"
    using inv i by (intro slots_ok_set_task) (simp_all add: conc_inv_def)
  show ?thesis
  proof (cases "rr_Rule rule = r")
    case False
    with inv i slots flying_set_task [OF i(1), of r ?t ?ag] after_rate_check_limits(2) [of rule "ca_agent s" r]
    show ?thesis by (simp add: conc_inv_def after_rate_check_limits(1))
  next
    case True
    have "Suc (flying r (ca_tasks s)) \<le> 10"
      using flying_less_slots [of i "ca_tasks s" r] i inv
      by (simp add: conc_inv_def slots_ok_def max_concurrent_def)
    moreover have "int (length (history (ag_gr ?ag) r)) < L"
      using accepted_few [OF acc] inv True by (simp add: conc_inv_def)
    ultimately show ?thesis
      using inv i slots True flying_set_task [OF i(1), of r ?t ?ag]
      by (simp add: conc_inv_def after_rate_check_limits(1))
  qed
qed

lemma conc_inv_record:
  assumes inv: "conc_inv r L s" and i: "i < length (ca_tasks s)" "ca_tasks s ! i = TFinished inc rule rcp res"
    and rc: "record_repair (rr_Rule rule) (ag_gr (ca_agent s)) (ag_world (ca_agent s)) = (g, w)"
  shows "conc_inv r L (set_task i (TRecorded inc rule rcp res) ((ca_agent s)\<lparr>ag_gr := g, ag_world := w\<rparr>) s)"
proof -
  let ?ag = "(ca_agent s)\<lparr>ag_gr := g, ag_world := w\<rparr>" and ?t = "TRecorded inc rule rcp res"
  have g: "g = fst (record_repair (rr_Rule rule) (ag_gr (ca_agent s)) (ag_world (ca_agent s)))"
    using rc by simp
  have "length (history g r) \<le> length (history (ag_gr (ca_agent s)) r) + (if r = rr_Rule rule then 1 else 0)"
    by (simp add: g record_repair_history)
  moreover have "slots_ok (set_task i ?t ?ag s)"
    using inv i by (intro slots_ok_set_task) (simp_all add: conc_inv_def)
  moreover have "gr_maxRepairs g = gr_maxRepairs (ag_gr (ca_agent s))" by (simp add: g)
  ultimately show ?thesis
    using inv i flying_set_task [OF i(1), of r ?t ?ag] by (auto simp: conc_inv_def split: if_splits)
qed

lemma conc_inv_step:
  assumes inv: "conc_inv r L s" and "cstep ops en s s'"
  shows "conc_inv r L s'"
  using assms(2)
proof cases
  case (c_result res)
  with inv show ?thesis by (simp add: conc_inv_def slots_ok_def readings_def)
next
  case (c_dispatch ev snap)
  with inv show ?thesis by (simp add: conc_inv_def slots_ok_def slots_used_def flying_def)
next
  case (c_acquire i inc)
  with inv slots_ok_step [OF _ assms(2)] flying_set_task [OF c_acquire(2), of r "THandling inc" "ca_agent s"]
  show ?thesis by (simp add: conc_inv_def)
next
  case (c_admit i inc rule rcp)
  with conc_inv_admit [OF inv] show ?thesis by simp
next
  case (c_record i inc rule rcp res g w)
  with conc_inv_record [OF inv] show ?thesis by simp
next
  case (c_attempt i inc rule rcp t step steps srs n k dur l act err d w)
  then show ?thesis by (auto intro!: conc_inv_task [OF inv] split: option.splits)
next
  case (c_succeed i inc rule rcp t step steps srs sr g w)
  then have "same_limits (ag_gr (ca_agent s)) g"
    using same_limits_record [of "ag_gr (ca_agent s)" "st_ActionName step" "ag_world (ca_agent s)"] by simp
  with c_succeed show ?thesis
    using same_limits_history [of "ag_gr (ca_agent s)" g r]
    by (auto intro!: conc_inv_task [OF inv] simp: same_limits_def)
next
  case (c_refuse i inc rule)
  then show ?thesis by (auto intro!: conc_inv_task [OF inv] simp: after_rate_check_limits)
next
  case (c_start i inc rule rcp ag' t w)
  then show ?thesis by (auto intro!: conc_inv_task [OF inv])
qed (auto intro!: conc_inv_task [OF inv])

lemma conc_inv_reach: "creach ops en s s' \<Longrightarrow> conc_inv r L s \<Longrightarrow> conc_inv r L s'"
  by (erule creach_invariant) (auto intro: conc_inv_step)

section \<open>Two repairs of one incident\<close>

text \<open>
  The status test of \<open>handle_incident\<close> reads the snapshot taken at dispatch. Two events of an open
  incident dispatched before the first repair marks it are both admitted.
\<close>

lemma accepted_unlimited:
  assumes "gget (en_rules en) (inc_CheckName snap) = Some rule" and "inc_Status snap = StatusOpen"
    and "gget (en_recipes en) (rr_Recipe rule) = Some rcp"
    and "history (ag_gr ag) (rr_Rule rule) = []"
    and "\<And>L. gget (gr_maxRepairs (ag_gr ag)) (rr_Rule rule) = Some L \<Longrightarrow> 0 < L"
  shows "accepted en snap ag = Some (rule, rcp)"
    and "history (ag_gr (after_rate_check rule ag)) (rr_Rule rule) = []"
    and "gr_maxRepairs (ag_gr (after_rate_check rule ag)) = gr_maxRepairs (ag_gr ag)"
  using assms by (auto simp: accepted_def check_rate_limit_iff after_rate_check_def
      check_rate_limit_history split: option.splits)

lemma double_admission:
  assumes snap: "get_active (ag_mgr ag) c = Some snap" and "inc_Status snap = StatusOpen"
    and "gget (en_rules en) (inc_CheckName snap) = Some rule"
    and "gget (en_recipes en) (rr_Recipe rule) = Some rcp"
    and "history (ag_gr ag) (rr_Rule rule) = []"
    and "\<And>L. gget (gr_maxRepairs (ag_gr ag)) (rr_Rule rule) = Some L \<Longrightarrow> 0 < L"
  shows "\<exists>s'. creach ops en \<lparr>ca_agent = ag, ca_tasks = []\<rparr> s' \<and>
     ca_tasks s' = [TAdmitted snap rule rcp, TAdmitted snap rule rcp]"
proof -
  define inc0 where "inc0 = snap\<lparr>inc_CheckName := c\<rparr>"
  define ev where "ev ty = \<lparr>ev_Incident = inc0, ev_Type = ty\<rparr>" for ty
  have ev: "get_active (ag_mgr ag) (inc_CheckName (ev_Incident (ev ty))) = Some snap" for ty
    using snap by (simp add: ev_def inc0_def)
  note acc = accepted_unlimited [OF assms(3,2,4,5,6)]
  let ?ag1 = "after_rate_check rule ag"
  have acc2: "accepted en snap ?ag1 = Some (rule, rcp)"
    by (rule accepted_unlimited(1)) (use assms acc in auto)
  let ?W = "TWaiting snap" and ?H = "THandling snap" and ?A = "TAdmitted snap rule rcp"
  define st where "st a ts = \<lparr>ca_agent = a, ca_tasks = ts\<rparr>" for a :: "('a, 'b) agent" and ts
  have m: "slots_used [?W, ?W] < max_concurrent" "slots_used [?H, ?W] < max_concurrent"
    by (simp_all add: slots_used_def max_concurrent_def)
  have "cstep ops en (st ag []) (st ag [?W])"
    using c_dispatch [of "ev EventOpened" "st ag []" snap] ev by (simp add: st_def ev_def triggers_def)
  moreover have "cstep ops en (st ag [?W]) (st ag [?W, ?W])"
    using c_dispatch [of "ev EventUpdated" "st ag [?W]" snap] ev by (simp add: st_def ev_def triggers_def)
  moreover have "cstep ops en (st ag [?W, ?W]) (st ag [?H, ?W])"
    using c_acquire [of 0 "st ag [?W, ?W]" snap] m by (simp add: st_def set_task_def)
  moreover have "cstep ops en (st ag [?H, ?W]) (st ag [?H, ?H])"
    using c_acquire [of 1 "st ag [?H, ?W]" snap] m by (simp add: st_def set_task_def)
  moreover have "cstep ops en (st ag [?H, ?H]) (st ?ag1 [?A, ?H])"
    using c_admit [of 0 "st ag [?H, ?H]" snap en rule rcp] acc(1) by (simp add: st_def set_task_def)
  moreover have "cstep ops en (st ?ag1 [?A, ?H]) (st (after_rate_check rule ?ag1) [?A, ?A])"
    using c_admit [of 1 "st ?ag1 [?A, ?H]" snap en rule rcp] acc2 by (simp add: st_def set_task_def)
  ultimately have "creach ops en (st ag []) (st (after_rate_check rule ?ag1) [?A, ?A])"
    by (meson creach_one creach_step)
  then show ?thesis by (auto simp: st_def)
qed

end
