(* ===== verification/Watcher.thy ===== *)
theory Watcher
  imports Builtin_Actions Engine_Runs
begin

text \<open>
  The Kubernetes watcher (\<open>internal/kubernetes\<close>): finding a cluster and making a client, turning
  failure events into check results, the watch loop and its retries. The Kubernetes client library is
  a parameter: \<open>cluster\<close> has the calls that find the configuration and make a client, \<open>kube_client\<close>
  the client. What the loop's \<open>select\<close> takes is a list of inputs, one per iteration.
\<close>

section \<open>The cluster\<close>

record 'e kube_client =
  kl_actions :: "'e kube"
  kl_watch :: "string \<Rightarrow> 'e \<Rightarrow> (goerror + nat) \<times> 'e"
  kl_stop :: "nat \<Rightarrow> 'e \<Rightarrow> 'e"

record 'e cluster =
  cu_getenv :: "string \<Rightarrow> 'e \<Rightarrow> string"
  cu_in_cluster_config :: "'e \<Rightarrow> goerror + string"
  cu_kubeconfig :: "'e \<Rightarrow> goerror + string"
  cu_new_for_config :: "string \<Rightarrow> 'e \<Rightarrow> goerror + 'e kube_client"
  cu_ctx_err :: "'e \<Rightarrow> goerror option"
  cu_sleep :: "duration \<Rightarrow> 'e \<Rightarrow> bool \<times> 'e"

definition is_running_in_cluster :: "'e cluster \<Rightarrow> 'e world \<Rightarrow> bool" where
  "is_running_in_cluster cu w \<longleftrightarrow> cu_getenv cu ''KUBERNETES_SERVICE_HOST'' (w_env w) \<noteq> ''''"

definition build_config :: "'e cluster \<Rightarrow> 'e world \<Rightarrow> goerror + string" where
  "build_config cu w =
     (case cu_in_cluster_config cu (w_env w) of
        Inr cfg \<Rightarrow> Inr cfg
      | Inl _ \<Rightarrow> cu_kubeconfig cu (w_env w))"

definition new_kube_client :: "'e cluster \<Rightarrow> 'e world \<Rightarrow> goerror + 'e kube_client" where
  "new_kube_client cu w =
     (case build_config cu w of
        Inl e \<Rightarrow> Inl (''building kubernetes config: '' @ e)
      | Inr cfg \<Rightarrow>
          (case cu_new_for_config cu cfg (w_env w) of
             Inl e \<Rightarrow> Inl (''creating kubernetes client: '' @ e)
           | Inr c \<Rightarrow> Inr c))"

section \<open>The watcher\<close>

record 'e watcher =
  wa_client :: "'e kube_client"
  wa_namespace :: string

definition new_watcher_with_client :: "'e kube_client \<Rightarrow> string \<Rightarrow> 'e watcher" where
  "new_watcher_with_client c namespace = \<lparr>wa_client = c, wa_namespace = namespace\<rparr>"

definition new_watcher :: "'e cluster \<Rightarrow> string \<Rightarrow> 'e world \<Rightarrow> goerror + 'e watcher" where
  "new_watcher cu namespace w =
     (case new_kube_client cu w of
        Inl e \<Rightarrow> Inl e
      | Inr c \<Rightarrow> Inr (new_watcher_with_client c namespace))"

definition namespace_display :: "'e watcher \<Rightarrow> string" where
  "namespace_display wa = (if wa_namespace wa = '''' then ''all'' else wa_namespace wa)"

section \<open>Events\<close>

definition failure_reasons :: "bool gmap" where
  "failure_reasons =
     [(''CrashLoopBackOff'', True), (''Failed'', True), (''FailedScheduling'', True), (''BackOff'', True),
      (''Unhealthy'', True), (''FailedMount'', True), (''OOMKilling'', True)]"

record kube_event =
  ke_Type :: string
  ke_Reason :: string
  ke_Message :: string
  ke_Kind :: string
  ke_Name :: string
  ke_Namespace :: string

datatype kube_object = KubeEvent kube_event | OtherObject

datatype watch_type = WatchAdded | WatchModified | WatchDeleted | WatchBookmark | WatchError

text \<open>The results channel of the watcher and the world.\<close>

type_synonym 'e watch_state = "check_error check_result chan \<times> 'e world"

definition kube_check_name :: "kube_event \<Rightarrow> string" where
  "kube_check_name event = ''k8s-'' @ ke_Kind event @ ''-'' @ ke_Name event"

definition event_result :: "kube_event \<Rightarrow> gotime \<Rightarrow> check_error check_result" where
  "event_result event now =
     \<lparr>cr_Name = kube_check_name event, cr_Service = ke_Namespace event @ ''/'' @ ke_Name event,
      cr_Status = CheckFailed, cr_Error = Some (KubernetesEvent (ke_Reason event) (ke_Message event)),
      cr_Timestamp = now, cr_Duration = 0,
      cr_Metadata = [(''kind'', ke_Kind event), (''name'', ke_Name event), (''namespace'', ke_Namespace event),
                     (''reason'', ke_Reason event), (''message'', ke_Message event)]\<rparr>"

lemma event_result_fields [simp]:
  "cr_Name (event_result e t) = kube_check_name e" "cr_Status (event_result e t) = CheckFailed"
  "cr_Service (event_result e t) = ke_Namespace e @ ''/'' @ ke_Name e"
  by (simp_all add: event_result_def)

fun process_event :: "kube_object \<Rightarrow> 'e watch_state \<Rightarrow> 'e watch_state" where
  "process_event OtherObject s = s"
| "process_event (KubeEvent event) (results, w) =
     (if ke_Type event \<noteq> ''Warning'' then (results, w)
      else if \<not> gget_or False failure_reasons (ke_Reason event) then (results, w)
      else
        (let (now, w1) = time_now w
         in (snd (try_send (event_result event now) results), w1)))"

text \<open>
  What one iteration of the loop receives: the end of the context, which is ready only when it has
  ended, the closing of the watch channel, or an event.
\<close>

datatype watch_input = InDone | InClosed | InEvent watch_type kube_object

fun watch_loop ::
  "'e cluster \<Rightarrow> watch_input list \<Rightarrow> 'e watch_state \<Rightarrow> goerror option option \<times> 'e watch_state" where
  "watch_loop cu [] s = (None, s)"
| "watch_loop cu (InDone # inputs) s =
     (if cu_ctx_err cu (w_env (snd s)) \<noteq> None then (Some None, s) else watch_loop cu inputs s)"
| "watch_loop cu (InClosed # inputs) s = (Some (Some ''watch channel closed''), s)"
| "watch_loop cu (InEvent ty obj # inputs) s =
     (if ty = WatchError then (Some (Some ''watch error event''), s)
      else if ty = WatchAdded \<or> ty = WatchModified then watch_loop cu inputs (process_event obj s)
      else watch_loop cu inputs s)"

text \<open>\<open>None\<close> while the loop still waits; the watch is stopped when the function returns.\<close>

definition watch_events ::
  "'e cluster \<Rightarrow> 'e watcher \<Rightarrow> watch_input list \<Rightarrow> 'e watch_state \<Rightarrow> goerror option option \<times> 'e watch_state" where
  "watch_events cu wa inputs s =
     (let (r, w) = on_env (kl_watch (wa_client wa) (wa_namespace wa)) (snd s)
      in case r of
           Inl e \<Rightarrow> (Some (Some (''watching events: '' @ e)), fst s, w)
         | Inr h \<Rightarrow>
             (case watch_loop cu inputs (fst s, w) of
                (None, s') \<Rightarrow> (None, s')
              | (Some r', s') \<Rightarrow>
                  (Some r', fst s', (snd s')\<lparr>w_env := kl_stop (wa_client wa) h (w_env (snd s'))\<rparr>)))"

datatype 'e watch_progress =
    WatchAgain "'e watch_state"
  | Watching "'e watch_state"
  | WatchExited "'e watch_state"

text \<open>One turn of \<open>Run\<close>; a return without an error goes round at once.\<close>

definition watch_turn ::
  "'e cluster \<Rightarrow> 'e watcher \<Rightarrow> watch_input list \<Rightarrow> 'e watch_state \<Rightarrow> 'e watch_progress" where
  "watch_turn cu wa inputs s =
     (case watch_events cu wa inputs s of
        (None, s1) \<Rightarrow> Watching s1
      | (Some None, s1) \<Rightarrow> WatchAgain s1
      | (Some (Some e), s1) \<Rightarrow>
          if cu_ctx_err cu (w_env (snd s1)) \<noteq> None then WatchExited s1
          else
            (let (cancelled, w) = on_env (cu_sleep cu (10 * go_Second)) (snd s1)
             in if cancelled then WatchExited (fst s1, w) else WatchAgain (fst s1, w)))"

fun watch_run ::
  "'e cluster \<Rightarrow> 'e watcher \<Rightarrow> watch_input list list \<Rightarrow> 'e watch_state \<Rightarrow> 'e watch_progress" where
  "watch_run cu wa [] s = WatchAgain s"
| "watch_run cu wa (inputs # turns) s =
     (case watch_turn cu wa inputs s of
        WatchAgain s1 \<Rightarrow> watch_run cu wa turns s1
      | out \<Rightarrow> out)"

fun watch_state_of :: "'e watch_progress \<Rightarrow> 'e watch_state" where
  "watch_state_of (WatchAgain s) = s"
| "watch_state_of (Watching s) = s"
| "watch_state_of (WatchExited s) = s"

section \<open>What the watcher delivers\<close>

definition failure_event :: "kube_event \<Rightarrow> bool" where
  "failure_event e \<longleftrightarrow> ke_Type e = ''Warning'' \<and> ke_Reason e \<in>
     {''CrashLoopBackOff'', ''Failed'', ''FailedScheduling'', ''BackOff'', ''Unhealthy'', ''FailedMount'', ''OOMKilling''}"

lemma failure_reasons_iff:
  "gget_or False failure_reasons r \<longleftrightarrow>
     r \<in> {''CrashLoopBackOff'', ''Failed'', ''FailedScheduling'', ''BackOff'', ''Unhealthy'', ''FailedMount'', ''OOMKilling''}"
  by (simp add: failure_reasons_def gget_or_def gget_def)

lemma process_event_iff:
  "process_event (KubeEvent e) (results, w) =
     (if failure_event e
      then (snd (try_send (event_result e (fst (time_now w))) results), snd (time_now w)) else (results, w))"
  by (simp add: failure_event_def failure_reasons_iff case_prod_beta Let_def)

text \<open>The events a loop processes before it returns or waits again.\<close>

definition watched :: "watch_input list \<Rightarrow> kube_event set" where
  "watched inputs = {e. failure_event e \<and>
     (InEvent WatchAdded (KubeEvent e) \<in> set inputs \<or> InEvent WatchModified (KubeEvent e) \<in> set inputs)}"

definition results_from :: "kube_event set \<Rightarrow> check_error check_result chan \<Rightarrow> bool" where
  "results_from E results \<longleftrightarrow> (\<forall>r \<in> set (ch_buf results). \<exists>e \<in> E. \<exists>t. r = event_result e t)"

lemma process_event_from:
  assumes "results_from E (fst s)" and "\<And>e. obj = KubeEvent e \<Longrightarrow> failure_event e \<Longrightarrow> e \<in> E"
  shows "results_from E (fst (process_event obj s))"
proof (cases obj)
  case OtherObject
  with assms(1) show ?thesis by simp
next
  case (KubeEvent e)
  obtain results w where s: "s = (results, w)" by (cases s)
  show ?thesis
    using assms unfolding KubeEvent s process_event_iff
    by (auto simp: results_from_def try_send_def)
qed

lemma watched_Cons:
  "watched inputs \<subseteq> watched (i # inputs)"
  "failure_event e \<Longrightarrow> ty = WatchAdded \<or> ty = WatchModified \<Longrightarrow> e \<in> watched (InEvent ty (KubeEvent e) # inputs)"
  by (auto simp: watched_def)

lemma results_from_mono: "results_from E c \<Longrightarrow> E \<subseteq> F \<Longrightarrow> results_from F c"
  unfolding results_from_def by blast

lemma watch_loop_from:
  "results_from E (fst s) \<Longrightarrow> watched inputs \<subseteq> E \<Longrightarrow> results_from E (fst (snd (watch_loop cu inputs s)))"
proof (induction cu inputs s rule: watch_loop.induct)
  case (4 cu ty obj inputs s)
  have sub: "watched inputs \<subseteq> E" using watched_Cons(1) 4(4) by (rule order_trans)
  show ?case
  proof (cases "ty = WatchAdded \<or> ty = WatchModified")
    case True
    have "results_from E (fst (process_event obj s))"
      using 4(3,4) watched_Cons(2) [OF _ True] by (intro process_event_from) auto
    with 4(1) sub True show ?thesis by auto
  next
    case False
    with 4(2,3) sub show ?thesis by simp
  qed
qed (auto simp: watched_def)

lemma watch_events_from:
  "results_from E (fst s) \<Longrightarrow> watched inputs \<subseteq> E \<Longrightarrow>
     results_from E (fst (snd (watch_events cu wa inputs s)))"
  using watch_loop_from [of E "(fst s, snd (on_env (kl_watch (wa_client wa) (wa_namespace wa)) (snd s)))" inputs cu]
  by (auto simp: watch_events_def case_prod_beta Let_def split: sum.splits option.splits)

lemma watch_turn_from:
  "results_from E (fst s) \<Longrightarrow> watched inputs \<subseteq> E \<Longrightarrow>
     results_from E (fst (watch_state_of (watch_turn cu wa inputs s)))"
  using watch_events_from [of E s inputs cu wa]
  by (auto simp: watch_turn_def case_prod_beta Let_def split: option.splits)

lemma watch_run_from:
  "results_from E (fst s) \<Longrightarrow> (\<And>inputs. inputs \<in> set turns \<Longrightarrow> watched inputs \<subseteq> E) \<Longrightarrow>
     results_from E (fst (watch_state_of (watch_run cu wa turns s)))"
proof (induction turns arbitrary: s)
  case Nil
  then show ?case by simp
next
  case (Cons inputs turns)
  have "results_from E (fst (watch_state_of (watch_turn cu wa inputs s)))"
    using Cons.prems by (intro watch_turn_from) simp_all
  with Cons show ?case by (cases "watch_turn cu wa inputs s") simp_all
qed

text \<open>The failure events of a list of inputs, in order; results up to their time.\<close>

fun reported :: "watch_input list \<Rightarrow> kube_event list" where
  "reported [] = []"
| "reported (InEvent ty (KubeEvent e) # inputs) =
     (if (ty = WatchAdded \<or> ty = WatchModified) \<and> failure_event e then e # reported inputs else reported inputs)"
| "reported (_ # inputs) = reported inputs"

definition untimed :: "check_error check_result \<Rightarrow> check_error check_result" where
  "untimed r = r\<lparr>cr_Timestamp := 0\<rparr>"

lemma untimed_event [simp]: "untimed (event_result e t) = event_result e 0"
  by (simp add: untimed_def event_result_def)

lemma process_event_reports:
  assumes "chan_ok (fst s)"
  shows "chan_ok (fst (process_event obj s)) \<and> ch_cap (fst (process_event obj s)) = ch_cap (fst s)
     \<and> map untimed (ch_buf (fst (process_event obj s))) =
         take (ch_cap (fst s)) (map untimed (ch_buf (fst s))
           @ (case obj of KubeEvent e \<Rightarrow> if failure_event e then [event_result e 0] else [] | OtherObject \<Rightarrow> []))"
proof (cases obj)
  case OtherObject
  with assms show ?thesis by (simp add: chan_ok_def)
next
  case (KubeEvent e)
  obtain results w where s: "s = (results, w)" by (cases s)
  show ?thesis using assms unfolding KubeEvent s process_event_iff by (auto simp: try_send_def chan_ok_def)
qed

lemma take_take_append: "take c (take c xs @ ys) = take c (xs @ ys)"
  by (cases "c \<le> length xs") simp_all

lemma watch_loop_reports:
  "chan_ok (fst s) \<Longrightarrow> watch_loop cu inputs s = (None, s') \<Longrightarrow>
     map untimed (ch_buf (fst s')) =
       take (ch_cap (fst s)) (map untimed (ch_buf (fst s)) @ map (\<lambda>e. event_result e 0) (reported inputs))"
proof (induction cu inputs s rule: watch_loop.induct)
  case (1 cu s)
  then show ?case by (simp add: chan_ok_def)
next
  case (2 cu inputs s)
  then show ?case by (simp split: if_splits)
next
  case (3 cu inputs s)
  then show ?case by simp
next
  case (4 cu ty obj inputs s)
  note p = process_event_reports [OF 4(3), of obj]
  show ?case
  proof (cases "ty = WatchAdded \<or> ty = WatchModified")
    case True
    then have "watch_loop cu inputs (process_event obj s) = (None, s')" using 4(4) by auto
    with 4(1) True p have "map untimed (ch_buf (fst s')) = take (ch_cap (fst s))
        ((map untimed (ch_buf (fst s)) @ (case obj of KubeEvent e \<Rightarrow> if failure_event e then [event_result e 0] else [] | OtherObject \<Rightarrow> []))
         @ map (\<lambda>e. event_result e 0) (reported inputs))"
      by (simp only: take_take_append) auto
    moreover have "map (\<lambda>e. event_result e 0) (reported (InEvent ty obj # inputs)) =
        (case obj of KubeEvent e \<Rightarrow> if failure_event e then [event_result e 0] else [] | OtherObject \<Rightarrow> [])
         @ map (\<lambda>e. event_result e 0) (reported inputs)"
      using True by (cases obj) auto
    ultimately show ?thesis by (simp only: append_assoc)
  next
    case False
    then have "reported (InEvent ty obj # inputs) = reported inputs" by (cases obj) auto
    with False 4(2-4) show ?thesis by (auto split: if_splits)
  qed
qed

section \<open>Incidents without a healthy result\<close>

text \<open>
  An incident for whose check no healthy result comes stays: failures count up, and the engine only
  moves it between repairing, verifying and failed.
\<close>

definition same_open :: "incident \<Rightarrow> incident \<Rightarrow> bool" where
  "same_open a b \<longleftrightarrow> inc_ID b = inc_ID a \<and> inc_Service b = inc_Service a \<and> inc_FailureCount a \<le> inc_FailureCount b
     \<and> (inc_Status a \<noteq> StatusOpen \<longrightarrow> inc_Status b \<noteq> StatusOpen)"

lemma same_open_trans: "same_open a b \<Longrightarrow> same_open b c \<Longrightarrow> same_open a c"
  by (auto simp: same_open_def)

definition stays :: "string \<Rightarrow> ('st, 'e) agent \<Rightarrow> ('st, 'e) agent \<Rightarrow> bool" where
  "stays n ag ag' \<longleftrightarrow> manager_ok (ag_mgr ag') \<and>
     (\<forall>inc. get_active (ag_mgr ag) n = Some inc \<longrightarrow>
        (\<exists>inc'. get_active (ag_mgr ag') n = Some inc' \<and> same_open inc inc'))"

lemma stays_refl: "manager_ok (ag_mgr ag) \<Longrightarrow> stays n ag ag"
  by (simp add: stays_def same_open_def)

lemma stays_trans: "stays n a b \<Longrightarrow> stays n b c \<Longrightarrow> stays n a c"
  unfolding stays_def by (meson same_open_trans)

lemma stays_result:
  assumes "manager_ok (ag_mgr ag)" and "cr_Name r = n \<Longrightarrow> cr_Status r \<noteq> CheckHealthy"
  shows "stays n ag (agent_step ops en (AgResult r) ag)"
  using assms
  by (auto simp: stays_def readings_def get_active_def active_process_result same_open_def
      split: check_status.splits)

lemma stays_repair:
  assumes "manager_ok (ag_mgr ag)"
  shows "stays n ag (run_repair ops en inc rule rcp ag)"
  by (rule run_repair_manager [OF assms, of ops en inc rule rcp])
    (auto simp: stays_def get_active_def same_open_def)

lemma stays_step:
  assumes "manager_ok (ag_mgr ag)" and "\<And>r. x = AgResult r \<Longrightarrow> cr_Name r = n \<Longrightarrow> cr_Status r \<noteq> CheckHealthy"
  shows "stays n ag (agent_step ops en x ag)"
proof (cases rule: agent_step_cases [of x en ag ops])
  case (1 r)
  show ?thesis unfolding 1(1) by (rule stays_result [OF assms(1) assms(2) [OF 1(1)]])
next
  case (2 snap rule rcp)
  have "stays n (after_rate_check rule ag) (run_repair ops en snap rule rcp (after_rate_check rule ag))"
    by (rule stays_repair) (simp add: assms(1))
  then show ?thesis unfolding 2(5) by (simp add: stays_def)
next
  case (3 rule)
  then show ?thesis using assms(1) by (simp add: stays_def same_open_def del: agent_step.simps)
next
  case 4
  then show ?thesis using stays_refl [OF assms(1)] by (simp del: agent_step.simps)
qed

lemma stays_run:
  "manager_ok (ag_mgr ag) \<Longrightarrow>
     (\<And>r. AgResult r \<in> set xs \<Longrightarrow> cr_Name r = n \<Longrightarrow> cr_Status r \<noteq> CheckHealthy) \<Longrightarrow>
     stays n ag (agent_run ops en xs ag)"
proof (induction xs arbitrary: ag)
  case Nil
  then show ?case by (simp add: stays_refl)
next
  case (Cons x xs)
  have s: "stays n ag (agent_step ops en x ag)"
    using Cons.prems by (intro stays_step) auto
  then have "stays n (agent_step ops en x ag) (agent_run ops en xs (agent_step ops en x ag))"
    using Cons.prems by (intro Cons.IH) (auto simp: stays_def)
  with stays_trans [OF s] show ?case by simp
qed

end
