(* ===== verification/Client_Stream.thy ===== *)
theory Client_Stream
  imports Client Checkers
begin

text \<open>
  The connection of the control plane client (\<open>pkg/client/client.go\<close>): connecting, the two loops
  over the bidirectional stream, and reconnecting with backoff. gRPC is a parameter: \<open>grpc\<close> has its
  calls as functions on the environment, with connections and streams as handles. The goroutines of
  the two loops interleave: a run takes a list of choices, each of which names the branch of a
  \<open>select\<close> or the receive that goes on next; a branch that is not ready leaves the state as it is.
\<close>

section \<open>Messages\<close>

definition int32_of :: "int \<Rightarrow> int" where
  "int32_of x = (x + 2 ^ 31) mod 2 ^ 32 - 2 ^ 31"

record heartbeat =
  hb_Timestamp :: int
  hb_Status :: string
  hb_ActiveIncidents :: int
  hb_Hostname :: string
  hb_Os :: string
  hb_Architecture :: string
  hb_Version :: string

record pb_telemetry_event =
  pe_Type :: string
  pe_Timestamp :: int
  pe_Data :: "string gmap"

record pb_incident_report =
  pi_IncidentId :: string
  pi_CheckName :: string
  pi_Service :: string
  pi_Status :: string
  pi_FailureCount :: int
  pi_EventCreatedAt :: int

record pb_repair_report =
  pr_IncidentId :: string
  pr_Rule :: string
  pr_Recipe :: string
  pr_Status :: string
  pr_EventCreatedAt :: int
  pr_Duration :: int

datatype agent_payload =
    PHeartbeat heartbeat
  | PTelemetryBatch "pb_telemetry_event list"
  | PIncidentReport pb_incident_report
  | PRepairReport pb_repair_report

record agent_message =
  am_AgentId :: string
  am_Payload :: agent_payload

datatype server_message =
    ConfigUpdate int string string
  | CommandRequest string "string gmap"
  | UnknownMessage

record 'e grpc =
  gp_new_client :: "string \<Rightarrow> bool \<Rightarrow> 'e \<Rightarrow> (goerror + nat) \<times> 'e"
  gp_close :: "nat \<Rightarrow> 'e \<Rightarrow> goerror option \<times> 'e"
  gp_open :: "nat \<Rightarrow> (string \<times> string) list \<Rightarrow> 'e \<Rightarrow> (goerror + nat) \<times> 'e"
  gp_send :: "nat \<Rightarrow> agent_message \<Rightarrow> 'e \<Rightarrow> goerror option \<times> 'e"
  gp_recv :: "nat \<Rightarrow> 'e \<Rightarrow> (goerror + server_message) \<times> 'e"
  gp_close_send :: "nat \<Rightarrow> 'e \<Rightarrow> goerror option \<times> 'e"
  gp_ctx_err :: "'e \<Rightarrow> goerror option"
  gp_sleep :: "duration \<Rightarrow> 'e \<Rightarrow> bool \<times> 'e"
  gp_hostname :: "'e \<Rightarrow> string"
  gp_platform :: "string \<times> string"
  gp_version :: string

section \<open>Connecting\<close>

definition connect :: "'e grpc \<Rightarrow> client \<times> 'e world \<Rightarrow> goerror option \<times> client \<times> 'e world" where
  "connect gp cw =
     (let (c, w) = cw
      in if cl_connected c then (None, c, w)
         else
           (let (r, w1) = on_env (gp_new_client gp (cl_endpoint c) (cl_useTLS c)) w
            in case r of
                 Inl e \<Rightarrow> (Some e, c, w1)
               | Inr conn \<Rightarrow> (None, c\<lparr>cl_conn := Some conn, cl_connected := True\<rparr>, w1)))"

definition disconnect :: "'e grpc \<Rightarrow> client \<times> 'e world \<Rightarrow> goerror option \<times> client \<times> 'e world" where
  "disconnect gp cw =
     (let (c, w) = cw
      in if \<not> cl_connected c then (None, c, w)
         else case cl_conn c of
           None \<Rightarrow> (None, c, w)
         | Some conn \<Rightarrow>
             (let (r, w1) = on_env (gp_close gp conn) w
              in (r, c\<lparr>cl_connected := False, cl_conn := None\<rparr>, w1)))"

definition is_connected :: "client \<Rightarrow> bool" where
  "is_connected c = cl_connected c"

definition auth_context :: "client \<Rightarrow> (string \<times> string) list" where
  "auth_context c =
     (if cl_agentUUID c = '''' \<or> cl_apiKey c = '''' then []
      else [(''authorization'', ''Bearer '' @ cl_agentUUID c @ '':'' @ cl_apiKey c)])"

section \<open>Sending\<close>

text \<open>
  What the stream works on: the client with its queues, the telemetry buffer, the calls of the
  configuration handler, and the world. \<open>active\<close> is the count the incident counter returns.
\<close>

record 'e link =
  lk_client :: client
  lk_buffer :: ring_buffer
  lk_updates :: "(int \<times> string \<times> string) list"
  lk_world :: "'e world"

definition send_message ::
  "'e grpc \<Rightarrow> nat \<Rightarrow> agent_payload \<Rightarrow> 'e link \<Rightarrow> goerror option \<times> 'e link" where
  "send_message gp s p lk =
     (let (r, w) = on_env (gp_send gp s \<lparr>am_AgentId = cl_agentUUID (lk_client lk), am_Payload = p\<rparr>) (lk_world lk)
      in (r, lk\<lparr>lk_world := w\<rparr>))"

definition send_heartbeat :: "'e grpc \<Rightarrow> nat \<Rightarrow> nat \<Rightarrow> 'e link \<Rightarrow> goerror option \<times> 'e link" where
  "send_heartbeat gp active s lk =
     (let activeIncidents = (if cl_incidentCounter (lk_client lk) then int32_of (int active) else 0);
          hostname = gp_hostname gp (w_env (lk_world lk));
          (now, w) = time_now (lk_world lk)
      in send_message gp s
           (PHeartbeat \<lparr>hb_Timestamp = unix_sec now, hb_Status = ''healthy'',
                        hb_ActiveIncidents = activeIncidents, hb_Hostname = hostname,
                        hb_Os = fst (gp_platform gp), hb_Architecture = snd (gp_platform gp),
                        hb_Version = gp_version gp\<rparr>)
           (lk\<lparr>lk_world := w\<rparr>))"

definition pb_event :: "telemetry_event \<Rightarrow> pb_telemetry_event" where
  "pb_event e = \<lparr>pe_Type = te_Type e, pe_Timestamp = unix_sec (te_Timestamp e), pe_Data = te_Data e\<rparr>"

definition send_telemetry :: "'e grpc \<Rightarrow> nat \<Rightarrow> 'e link \<Rightarrow> goerror option \<times> 'e link" where
  "send_telemetry gp s lk =
     (if \<not> cl_telemetryDrainer (lk_client lk) then (None, lk)
      else
        (let (events, rb) = ring_drain (lk_buffer lk);
             lk1 = lk\<lparr>lk_buffer := rb\<rparr>
         in if length events = 0 then (None, lk1)
            else send_message gp s (PTelemetryBatch (map pb_event events)) lk1))"

definition pb_incident :: "incident_report \<Rightarrow> pb_incident_report" where
  "pb_incident r =
     \<lparr>pi_IncidentId = ir_ID r, pi_CheckName = ir_CheckName r, pi_Service = ir_Service r,
      pi_Status = ir_Status r, pi_FailureCount = int32_of (ir_FailureCount r),
      pi_EventCreatedAt = unix_sec (ir_EventCreatedAt r)\<rparr>"

definition send_incident_report ::
  "'e grpc \<Rightarrow> nat \<Rightarrow> incident_report \<Rightarrow> 'e link \<Rightarrow> goerror option \<times> 'e link" where
  "send_incident_report gp s r lk = send_message gp s (PIncidentReport (pb_incident r)) lk"

definition pb_repair :: "repair_report \<Rightarrow> pb_repair_report" where
  "pb_repair r =
     \<lparr>pr_IncidentId = rp_IncidentID r, pr_Rule = rp_Rule r, pr_Recipe = rp_Recipe r,
      pr_Status = rp_Status r, pr_EventCreatedAt = unix_sec (rp_EventCreatedAt r),
      pr_Duration = float_to_int (duration_seconds (rp_Duration r))\<rparr>"

definition send_repair_report ::
  "'e grpc \<Rightarrow> nat \<Rightarrow> repair_report \<Rightarrow> 'e link \<Rightarrow> goerror option \<times> 'e link" where
  "send_repair_report gp s r lk = send_message gp s (PRepairReport (pb_repair r)) lk"

section \<open>Receiving\<close>

definition handle_config_update :: "int \<Rightarrow> string \<Rightarrow> string \<Rightarrow> 'e link \<Rightarrow> 'e link" where
  "handle_config_update version url signature lk =
     (if cl_onConfigUpdate (lk_client lk)
      then lk\<lparr>lk_updates := lk_updates lk @ [(version, url, signature)]\<rparr> else lk)"

fun handle_server_message :: "server_message \<Rightarrow> 'e link \<Rightarrow> 'e link" where
  "handle_server_message (ConfigUpdate v url sig) lk = handle_config_update v url sig lk"
| "handle_server_message (CommandRequest cmd params) lk = lk"
| "handle_server_message UnknownMessage lk = lk"

section \<open>The stream\<close>

datatype stream_error =
    OpeningStream goerror
  | SendingInitialHeartbeat goerror
  | SendingHeartbeat goerror
  | SendingTelemetry goerror
  | SendingIncidentReport goerror
  | SendingRepairReport goerror
  | ReceivingMessage goerror
  | LoopCancelled
  | OuterContext goerror

datatype loop_status = LoopStarting | LoopRunning | LoopReturned

text \<open>
  The state of a stream: the send loop first sends a heartbeat, then selects. \<open>sm_cancelled\<close> is the
  context the loops share, cancelled by the one that returns first; \<open>sm_errs\<close> is the error channel.
\<close>

record 'e stream_run =
  sm_link :: "'e link"
  sm_send :: loop_status
  sm_recv :: loop_status
  sm_cancelled :: bool
  sm_errs :: "stream_error list"

datatype loop_choice =
    ChooseStart
  | ChooseDone
  | ChooseHeartbeat
  | ChooseTelemetry
  | ChooseIncident
  | ChooseRepair
  | ChooseRecv

definition loop_done :: "'e grpc \<Rightarrow> 'e stream_run \<Rightarrow> bool" where
  "loop_done gp s \<longleftrightarrow> sm_cancelled s \<or> gp_ctx_err gp (w_env (lk_world (sm_link s))) \<noteq> None"

definition send_returns :: "stream_error \<Rightarrow> 'e stream_run \<Rightarrow> 'e stream_run" where
  "send_returns e s = s\<lparr>sm_send := LoopReturned, sm_cancelled := True, sm_errs := sm_errs s @ [e]\<rparr>"

definition recv_returns :: "stream_error \<Rightarrow> 'e stream_run \<Rightarrow> 'e stream_run" where
  "recv_returns e s = s\<lparr>sm_recv := LoopReturned, sm_cancelled := True, sm_errs := sm_errs s @ [e]\<rparr>"

definition after_send ::
  "(goerror \<Rightarrow> stream_error) \<Rightarrow> goerror option \<times> 'e link \<Rightarrow> 'e stream_run \<Rightarrow> 'e stream_run" where
  "after_send wrap r s =
     (case fst r of
        Some e \<Rightarrow> send_returns (wrap e) (s\<lparr>sm_link := snd r\<rparr>)
      | None \<Rightarrow> s\<lparr>sm_link := snd r, sm_send := LoopRunning\<rparr>)"

text \<open>One branch of the send loop.\<close>

fun send_branch ::
  "'e grpc \<Rightarrow> nat \<Rightarrow> nat \<Rightarrow> loop_choice \<Rightarrow> 'e stream_run \<Rightarrow> 'e stream_run" where
  "send_branch gp active st ChooseDone s =
     (if loop_done gp s then send_returns LoopCancelled s else s)"
| "send_branch gp active st ChooseHeartbeat s =
     after_send SendingHeartbeat (send_heartbeat gp active st (sm_link s)) s"
| "send_branch gp active st ChooseTelemetry s =
     after_send SendingTelemetry (send_telemetry gp st (sm_link s)) s"
| "send_branch gp active st ChooseIncident s =
     (case recv (cl_incidents (lk_client (sm_link s))) of
        None \<Rightarrow> s
      | Some (r, q) \<Rightarrow>
          (let lk = (sm_link s)\<lparr>lk_client := (lk_client (sm_link s))\<lparr>cl_incidents := q\<rparr>\<rparr>
           in after_send SendingIncidentReport (send_incident_report gp st r lk) s))"
| "send_branch gp active st ChooseRepair s =
     (case recv (cl_repairs (lk_client (sm_link s))) of
        None \<Rightarrow> s
      | Some (r, q) \<Rightarrow>
          (let lk = (sm_link s)\<lparr>lk_client := (lk_client (sm_link s))\<lparr>cl_repairs := q\<rparr>\<rparr>
           in after_send SendingRepairReport (send_repair_report gp st r lk) s))"
| "send_branch gp active st _ s = s"

definition recv_branch :: "'e grpc \<Rightarrow> nat \<Rightarrow> 'e stream_run \<Rightarrow> 'e stream_run" where
  "recv_branch gp st s =
     (let (m, w) = on_env (gp_recv gp st) (lk_world (sm_link s));
          s1 = s\<lparr>sm_link := (sm_link s)\<lparr>lk_world := w\<rparr>\<rparr>
      in case m of
           Inl e \<Rightarrow> recv_returns (ReceivingMessage e) s1
         | Inr msg \<Rightarrow>
             (let s2 = s1\<lparr>sm_link := handle_server_message msg (sm_link s1)\<rparr>
              in if loop_done gp s2 then recv_returns LoopCancelled s2 else s2))"

definition stream_step ::
  "'e grpc \<Rightarrow> nat \<Rightarrow> nat \<Rightarrow> loop_choice \<Rightarrow> 'e stream_run \<Rightarrow> 'e stream_run" where
  "stream_step gp active st ch s =
     (if ch = ChooseRecv then (if sm_recv s = LoopRunning then recv_branch gp st s else s)
      else if ch = ChooseStart then
        (if sm_send s = LoopStarting
         then after_send SendingInitialHeartbeat (send_heartbeat gp active st (sm_link s)) s else s)
      else if sm_send s = LoopRunning then send_branch gp active st ch s else s)"

fun stream_steps ::
  "'e grpc \<Rightarrow> nat \<Rightarrow> nat \<Rightarrow> loop_choice list \<Rightarrow> 'e stream_run \<Rightarrow> 'e stream_run" where
  "stream_steps gp active st [] s = s"
| "stream_steps gp active st (ch # chs) s = stream_steps gp active st chs (stream_step gp active st ch s)"

definition start_stream :: "'e link \<Rightarrow> 'e stream_run" where
  "start_stream lk = \<lparr>sm_link = lk, sm_send = LoopStarting, sm_recv = LoopRunning,
     sm_cancelled = False, sm_errs = []\<rparr>"

fun first_error :: "stream_error list \<Rightarrow> stream_error option" where
  "first_error [] = None"
| "first_error (e # es) = (if e \<noteq> LoopCancelled then Some e else first_error es)"

text \<open>
  \<open>runStream\<close>: \<open>Inl\<close> while a loop is still running after the choices, \<open>Inr\<close> the error it
  returns, if any, and the link.
\<close>

definition run_stream ::
  "'e grpc \<Rightarrow> nat \<Rightarrow> loop_choice list \<Rightarrow> nat \<Rightarrow> 'e link
   \<Rightarrow> 'e stream_run + stream_error option \<times> 'e link" where
  "run_stream gp active chs conn lk =
     (let (r, w) = on_env (gp_open gp conn (auth_context (lk_client lk))) (lk_world lk);
          lk1 = lk\<lparr>lk_world := w\<rparr>
      in case r of
           Inl e \<Rightarrow> Inr (Some (OpeningStream e), lk1)
         | Inr st \<Rightarrow>
             (let s = stream_steps gp active st chs (start_stream lk1)
              in if sm_send s \<noteq> LoopReturned \<or> sm_recv s \<noteq> LoopReturned then Inl s
                 else
                   (let (_, w2) = on_env (gp_close_send gp st) (lk_world (sm_link s));
                        lk2 = (sm_link s)\<lparr>lk_world := w2\<rparr>
                    in case first_error (sm_errs s) of
                         Some e \<Rightarrow> Inr (Some e, lk2)
                       | None \<Rightarrow> Inr (map_option OuterContext (gp_ctx_err gp (w_env w2)), lk2))))"

section \<open>Reconnecting\<close>

definition initial_backoff :: duration where
  "initial_backoff = 1 * go_Second"

definition max_backoff :: duration where
  "max_backoff = 60 * go_Second"

definition next_backoff :: "duration \<Rightarrow> duration" where
  "next_backoff b = (let b' = b * 2 in if max_backoff < b' then max_backoff else b')"

text \<open>Marking the client disconnected after a stream has ended; errors of closing are ignored.\<close>

definition mark_disconnected :: "'e grpc \<Rightarrow> client \<times> 'e world \<Rightarrow> client \<times> 'e world" where
  "mark_disconnected gp cw =
     (let (c, w) = cw; c1 = c\<lparr>cl_connected := False\<rparr>
      in case cl_conn c1 of
           None \<Rightarrow> (c1, w)
         | Some conn \<Rightarrow> (c1\<lparr>cl_conn := None\<rparr>, snd (on_env (gp_close gp conn) w)))"

datatype 'e reconnect_state =
    Retrying duration "'e link"
  | Streaming duration "'e stream_run"
  | Exited "'e link"

definition wait_backoff :: "'e grpc \<Rightarrow> duration \<Rightarrow> 'e link \<Rightarrow> 'e reconnect_state" where
  "wait_backoff gp backoff lk =
     (let (cancelled, w) = on_env (gp_sleep gp backoff) (lk_world lk);
          lk1 = lk\<lparr>lk_world := w\<rparr>
      in if cancelled then Exited lk1 else Retrying (next_backoff backoff) lk1)"

text \<open>
  One turn of the loop of \<open>RunWithReconnect\<close>, with the choices of its stream. The branch without a
  connection cannot be taken: a connect without error leaves one (\<open>connect_connected\<close>).
\<close>

definition reconnect_turn ::
  "'e grpc \<Rightarrow> nat \<Rightarrow> loop_choice list \<Rightarrow> duration \<Rightarrow> 'e link \<Rightarrow> 'e reconnect_state" where
  "reconnect_turn gp active chs backoff lk =
     (if gp_ctx_err gp (w_env (lk_world lk)) \<noteq> None then Exited lk
      else
        (let (err, c, w) = connect gp (lk_client lk, lk_world lk);
             lk1 = lk\<lparr>lk_client := c, lk_world := w\<rparr>
         in case err of
              Some e \<Rightarrow> wait_backoff gp backoff lk1
            | None \<Rightarrow>
                (case cl_conn c of
                   None \<Rightarrow> Exited lk1
                 | Some conn \<Rightarrow>
                     (case run_stream gp active chs conn lk1 of
                        Inl s \<Rightarrow> Streaming backoff s
                      | Inr (serr, lk2) \<Rightarrow>
                          if gp_ctx_err gp (w_env (lk_world lk2)) \<noteq> None then Exited lk2
                          else
                            (let (c3, w3) = mark_disconnected gp (lk_client lk2, lk_world lk2)
                             in wait_backoff gp backoff (lk2\<lparr>lk_client := c3, lk_world := w3\<rparr>))))))"

fun reconnect_turns ::
  "'e grpc \<Rightarrow> nat \<Rightarrow> loop_choice list list \<Rightarrow> duration \<Rightarrow> 'e link \<Rightarrow> 'e reconnect_state" where
  "reconnect_turns gp active [] backoff lk = Retrying backoff lk"
| "reconnect_turns gp active (chs # rest) backoff lk =
     (case reconnect_turn gp active chs backoff lk of
        Retrying b lk' \<Rightarrow> reconnect_turns gp active rest b lk'
      | out \<Rightarrow> out)"

definition run_with_reconnect ::
  "'e grpc \<Rightarrow> nat \<Rightarrow> loop_choice list list \<Rightarrow> 'e link \<Rightarrow> 'e reconnect_state" where
  "run_with_reconnect gp active turns lk = reconnect_turns gp active turns initial_backoff lk"

end
