(* ===== verification/Client_Props.thy ===== *)
theory Client_Props
  imports Client_Stream
begin

text \<open>
  The client keeps its invariant over connecting, streaming and reconnecting; a stream hands every
  queued report and buffered event to the connection once and in order; the backoff doubles up to a
  minute and is never reset.
\<close>

section \<open>The invariant\<close>

lemma client_ok_connect [inv_intros]:
  "client_ok (fst cw) \<Longrightarrow> client_ok (fst (snd (connect gp cw)))"
  by (cases cw) (auto simp: connect_def client_ok_def Let_def case_prod_beta split: sum.splits)

lemma connect_connected:
  "fst (connect gp cw) = None \<Longrightarrow> client_ok (fst cw) \<Longrightarrow>
     cl_connected (fst (snd (connect gp cw))) \<and> cl_conn (fst (snd (connect gp cw))) \<noteq> None"
  by (cases cw) (auto simp: connect_def client_ok_def Let_def case_prod_beta split: sum.splits if_splits)

lemma client_ok_disconnect [inv_intros]:
  "client_ok (fst cw) \<Longrightarrow> client_ok (fst (snd (disconnect gp cw)))"
  by (cases cw) (auto simp: disconnect_def client_ok_def Let_def case_prod_beta split: option.splits)

lemma disconnect_disconnects:
  "client_ok (fst cw) \<Longrightarrow> \<not> is_connected (fst (snd (disconnect gp cw)))"
  by (cases cw) (auto simp: disconnect_def client_ok_def is_connected_def Let_def case_prod_beta
      split: option.splits)

lemma mark_disconnected_ok [inv_intros]:
  "client_ok (fst cw) \<Longrightarrow> client_ok (fst (mark_disconnected gp cw)) \<and> \<not> cl_connected (fst (mark_disconnected gp cw))"
  by (cases cw) (auto simp: mark_disconnected_def client_ok_def Let_def split: option.splits)

section \<open>What a send changes\<close>

lemma send_message_frame [simp, frame_simps]:
  "lk_client (snd (send_message gp s p lk)) = lk_client lk"
  "lk_buffer (snd (send_message gp s p lk)) = lk_buffer lk"
  by (simp_all add: send_message_def Let_def case_prod_beta)

lemma send_frame [simp, frame_simps]:
  "lk_client (snd (send_heartbeat gp active s lk)) = lk_client lk"
  "lk_buffer (snd (send_heartbeat gp active s lk)) = lk_buffer lk"
  "lk_client (snd (send_telemetry gp s lk)) = lk_client lk"
  "lk_client (snd (send_incident_report gp s r lk)) = lk_client lk"
  "lk_buffer (snd (send_incident_report gp s r lk)) = lk_buffer lk"
  "lk_client (snd (send_repair_report gp s rr lk)) = lk_client lk"
  "lk_buffer (snd (send_repair_report gp s rr lk)) = lk_buffer lk"
  by (simp_all add: send_heartbeat_def send_telemetry_def send_incident_report_def
      send_repair_report_def Let_def case_prod_beta)

lemma after_send_link [simp]: "sm_link (after_send f r s) = snd r"
  by (simp add: after_send_def send_returns_def split: option.splits)

lemma handle_server_message_frame [simp, frame_simps]:
  "lk_client (handle_server_message m lk) = lk_client lk"
  "lk_buffer (handle_server_message m lk) = lk_buffer lk"
  "lk_world (handle_server_message m lk) = lk_world lk"
  by (cases m; simp add: handle_config_update_def)+

lemma recv_branch_link:
  "lk_client (sm_link (recv_branch gp st s)) = lk_client (sm_link s)"
  "lk_buffer (sm_link (recv_branch gp st s)) = lk_buffer (sm_link s)"
  "w_env (lk_world (sm_link (recv_branch gp st s))) = snd (gp_recv gp st (w_env (lk_world (sm_link s))))"
  by (auto simp: recv_branch_def recv_returns_def Let_def case_prod_beta on_env_def split: sum.splits)

section \<open>Every report once and in order\<close>

text \<open>
  The messages a stream has been handed so far are part of the environment: \<open>attempts\<close> reads them.
  A send adds its message whether or not it succeeds; nothing else on the stream adds any.
\<close>

definition logs_sends :: "'e grpc \<Rightarrow> ('e \<Rightarrow> agent_message list) \<Rightarrow> bool" where
  "logs_sends gp attempts \<longleftrightarrow>
     (\<forall>s m e. attempts (snd (gp_send gp s m e)) = attempts e @ [m])
     \<and> (\<forall>s e. attempts (snd (gp_recv gp s e)) = attempts e)"

fun incidents_in :: "agent_payload \<Rightarrow> pb_incident_report list" where
  "incidents_in (PIncidentReport r) = [r]"
| "incidents_in _ = []"

fun repairs_in :: "agent_payload \<Rightarrow> pb_repair_report list" where
  "repairs_in (PRepairReport r) = [r]"
| "repairs_in _ = []"

fun events_in :: "agent_payload \<Rightarrow> pb_telemetry_event list" where
  "events_in (PTelemetryBatch es) = es"
| "events_in _ = []"

definition sent_of :: "(agent_payload \<Rightarrow> 'a list) \<Rightarrow> agent_message list \<Rightarrow> 'a list" where
  "sent_of f msgs = concat (map (f \<circ> am_Payload) msgs)"

lemma sent_of_snoc [simp]: "sent_of f (msgs @ [m]) = sent_of f msgs @ f (am_Payload m)"
  by (simp add: sent_of_def)

text \<open>The ledger of a link: what was handed over, followed by what still waits.\<close>

definition incident_ledger :: "('e \<Rightarrow> agent_message list) \<Rightarrow> 'e link \<Rightarrow> pb_incident_report list" where
  "incident_ledger attempts lk =
     sent_of incidents_in (attempts (w_env (lk_world lk))) @ map pb_incident (ch_buf (cl_incidents (lk_client lk)))"

definition repair_ledger :: "('e \<Rightarrow> agent_message list) \<Rightarrow> 'e link \<Rightarrow> pb_repair_report list" where
  "repair_ledger attempts lk =
     sent_of repairs_in (attempts (w_env (lk_world lk))) @ map pb_repair (ch_buf (cl_repairs (lk_client lk)))"

definition event_ledger :: "('e \<Rightarrow> agent_message list) \<Rightarrow> 'e link \<Rightarrow> pb_telemetry_event list" where
  "event_ledger attempts lk =
     sent_of events_in (attempts (w_env (lk_world lk))) @ map pb_event (ring_list (lk_buffer lk))"

definition ledgers ::
  "('e \<Rightarrow> agent_message list) \<Rightarrow> 'e link
   \<Rightarrow> pb_incident_report list \<times> pb_repair_report list \<times> pb_telemetry_event list" where
  "ledgers attempts lk = (incident_ledger attempts lk, repair_ledger attempts lk, event_ledger attempts lk)"

lemmas ledger_defs = ledgers_def incident_ledger_def repair_ledger_def event_ledger_def

lemma send_message_attempts:
  "logs_sends gp attempts \<Longrightarrow>
     attempts (w_env (lk_world (snd (send_message gp s p lk)))) =
       attempts (w_env (lk_world lk)) @ [\<lparr>am_AgentId = cl_agentUUID (lk_client lk), am_Payload = p\<rparr>]"
  by (simp add: send_message_def logs_sends_def Let_def case_prod_beta on_env_def)

lemma ledgers_heartbeat:
  "logs_sends gp attempts \<Longrightarrow> ledgers attempts (snd (send_heartbeat gp active s lk)) = ledgers attempts lk"
  by (simp add: ledger_defs send_heartbeat_def Let_def case_prod_beta send_message_attempts)

lemma ledgers_telemetry:
  "logs_sends gp attempts \<Longrightarrow> ledgers attempts (snd (send_telemetry gp s lk)) = ledgers attempts lk"
  by (simp add: ledger_defs send_telemetry_def Let_def case_prod_beta send_message_attempts
      ring_drain_list ring_drain_empties)

lemma recv_buffer: "recv q = Some (x, q') \<Longrightarrow> ch_buf q = x # ch_buf q'"
  by (auto simp: recv_def split: list.splits)

lemma ledgers_incident:
  assumes "logs_sends gp attempts" and "recv (cl_incidents (lk_client lk)) = Some (r, q)"
  shows "ledgers attempts (snd (send_incident_report gp s r
      (lk\<lparr>lk_client := (lk_client lk)\<lparr>cl_incidents := q\<rparr>\<rparr>))) = ledgers attempts lk"
  using recv_buffer [OF assms(2)]
  by (simp add: ledger_defs send_incident_report_def send_message_attempts [OF assms(1)])

lemma ledgers_repair:
  assumes "logs_sends gp attempts" and "recv (cl_repairs (lk_client lk)) = Some (r, q)"
  shows "ledgers attempts (snd (send_repair_report gp s r
      (lk\<lparr>lk_client := (lk_client lk)\<lparr>cl_repairs := q\<rparr>\<rparr>))) = ledgers attempts lk"
  using recv_buffer [OF assms(2)]
  by (simp add: ledger_defs send_repair_report_def send_message_attempts [OF assms(1)])

lemma ledgers_send_branch:
  assumes "logs_sends gp attempts"
  shows "ledgers attempts (sm_link (send_branch gp active st ch s)) = ledgers attempts (sm_link s)"
  by (cases ch)
    (simp_all add: ledgers_heartbeat [OF assms] ledgers_telemetry [OF assms] ledgers_incident [OF assms]
      ledgers_repair [OF assms] send_returns_def Let_def split: option.splits)

lemma ledgers_recv_branch:
  "logs_sends gp attempts \<Longrightarrow> ledgers attempts (sm_link (recv_branch gp st s)) = ledgers attempts (sm_link s)"
  by (simp add: ledger_defs recv_branch_link logs_sends_def)

lemma ledgers_stream_step:
  "logs_sends gp attempts \<Longrightarrow>
     ledgers attempts (sm_link (stream_step gp active st ch s)) = ledgers attempts (sm_link s)"
  by (simp add: stream_step_def ledgers_recv_branch ledgers_heartbeat ledgers_send_branch)

lemma ledgers_stream_steps:
  "logs_sends gp attempts \<Longrightarrow>
     ledgers attempts (sm_link (stream_steps gp active st chs s)) = ledgers attempts (sm_link s)"
  by (induction chs arbitrary: s) (simp_all add: ledgers_stream_step)

section \<open>The invariant over a stream\<close>

lemma client_ok_recv [inv_intros]:
  "client_ok c \<Longrightarrow> recv (cl_incidents c) = Some (i, q) \<Longrightarrow> client_ok (c\<lparr>cl_incidents := q\<rparr>)"
  "client_ok c \<Longrightarrow> recv (cl_repairs c) = Some (r, p) \<Longrightarrow> client_ok (c\<lparr>cl_repairs := p\<rparr>)"
  by (auto simp: client_ok_def recv_def chan_ok_def split: list.splits)

lemma client_ok_send_branch:
  "client_ok (lk_client (sm_link s)) \<Longrightarrow> client_ok (lk_client (sm_link (send_branch gp active st ch s)))"
  by (cases ch) (auto simp: send_returns_def Let_def intro: client_ok_recv split: option.splits)

lemma client_ok_stream_step:
  "client_ok (lk_client (sm_link s)) \<Longrightarrow> client_ok (lk_client (sm_link (stream_step gp active st ch s)))"
  by (simp add: stream_step_def recv_branch_link client_ok_send_branch)

lemma client_ok_stream_steps:
  "client_ok (lk_client (sm_link s)) \<Longrightarrow> client_ok (lk_client (sm_link (stream_steps gp active st chs s)))"
  by (induction chs arbitrary: s) (simp_all add: client_ok_stream_step)

lemma run_stream_returns:
  assumes "run_stream gp active chs conn lk = Inr (err, lk')" and "client_ok (lk_client lk)"
  shows "client_ok (lk_client lk')"
proof -
  let ?s = "\<lambda>st. stream_steps gp active st chs
      (start_stream (lk\<lparr>lk_world := snd (on_env (gp_open gp conn (auth_context (lk_client lk))) (lk_world lk))\<rparr>))"
  have "client_ok (lk_client (sm_link (?s st)))" for st
    by (rule client_ok_stream_steps) (simp add: start_stream_def assms(2))
  with assms show ?thesis
    by (auto simp: run_stream_def Let_def case_prod_beta split: sum.splits if_splits option.splits)
qed

text \<open>
  A turn that goes on has left the client disconnected: a failed attempt found it so, and after a
  stream it is marked so.
\<close>

lemma reconnect_turn_ok:
  assumes "reconnect_turn gp active chs b lk = Retrying b' lk'" and "client_ok (lk_client lk)"
  shows "client_ok (lk_client lk') \<and> \<not> is_connected (lk_client lk')"
proof -
  let ?r = "connect gp (lk_client lk, lk_world lk)"
  let ?c = "fst (snd ?r)" and ?w = "snd (snd ?r)"
  have c: "client_ok ?c" using client_ok_connect [of "(lk_client lk, lk_world lk)" gp] assms(2) by simp
  have wait: "lk_client lk2 = lk_client lk1" if "wait_backoff gp b lk1 = Retrying b' lk2" for lk1 lk2
    using that by (auto simp: wait_backoff_def Let_def case_prod_beta split: if_splits)
  show ?thesis
  proof (cases "fst ?r")
    case (Some e)
    then have "wait_backoff gp b (lk\<lparr>lk_client := ?c, lk_world := ?w\<rparr>) = Retrying b' lk'"
      using assms(1) by (auto simp: reconnect_turn_def Let_def case_prod_beta split: if_splits)
    moreover have "\<not> cl_connected ?c"
      using Some by (auto simp: connect_def Let_def case_prod_beta split: sum.splits if_splits)
    ultimately show ?thesis using c wait by (auto simp: is_connected_def)
  next
    case None
    then obtain conn where conn: "cl_conn ?c = Some conn"
      using connect_connected [of gp "(lk_client lk, lk_world lk)"] assms(2) by auto
    let ?lk1 = "lk\<lparr>lk_client := ?c, lk_world := ?w\<rparr>"
    obtain e lk2 where r: "run_stream gp active chs conn ?lk1 = Inr (e, lk2)"
      and m: "wait_backoff gp b (lk2\<lparr>lk_client := fst (mark_disconnected gp (lk_client lk2, lk_world lk2)),
          lk_world := snd (mark_disconnected gp (lk_client lk2, lk_world lk2))\<rparr>) = Retrying b' lk'"
      using assms(1) None conn
      by (auto simp: reconnect_turn_def Let_def case_prod_beta split: if_splits sum.splits)
    have "client_ok (lk_client lk2)" using run_stream_returns [OF r] c by simp
    then show ?thesis
      using wait [OF m] mark_disconnected_ok [of "(lk_client lk2, lk_world lk2)" gp]
      by (simp add: is_connected_def)
  qed
qed

lemma reconnect_turns_ok:
  "reconnect_turns gp active turns b lk = Retrying b' lk' \<Longrightarrow> client_ok (lk_client lk) \<Longrightarrow>
     client_ok (lk_client lk') \<and> (turns \<noteq> [] \<longrightarrow> \<not> is_connected (lk_client lk'))"
proof (induction turns arbitrary: b lk)
  case Nil
  then show ?case by simp
next
  case (Cons chs turns)
  then obtain b1 lk1 where t: "reconnect_turn gp active chs b lk = Retrying b1 lk1"
    "reconnect_turns gp active turns b1 lk1 = Retrying b' lk'"
    by (auto split: reconnect_state.splits)
  from reconnect_turn_ok [OF t(1) Cons.prems(2)] have "client_ok (lk_client lk1)" "\<not> is_connected (lk_client lk1)"
    by simp_all
  with Cons.IH [OF t(2)] t(2) show ?case by (cases turns) auto
qed

section \<open>Backoff\<close>

lemma backoff_after: "(next_backoff ^^ n) initial_backoff = min max_backoff (2 ^ n * go_Second)"
proof (induction n)
  case 0
  then show ?case by (simp add: initial_backoff_def max_backoff_def)
next
  case (Suc n)
  have "next_backoff (min max_backoff x) = min max_backoff (2 * x)" if "0 \<le> x" for x
    using that by (auto simp: next_backoff_def max_backoff_def Let_def)
  from this [of "2 ^ n * go_Second"] show ?case by (simp add: Suc)
qed

lemma wait_backoff_Retrying: "wait_backoff gp b lk = Retrying b' lk' \<Longrightarrow> b' = next_backoff b"
  by (simp add: wait_backoff_def Let_def case_prod_beta split: if_splits)

lemma reconnect_turn_backoff: "reconnect_turn gp active chs b lk = Retrying b' lk' \<Longrightarrow> b' = next_backoff b"
  by (auto simp: reconnect_turn_def Let_def case_prod_beta dest: wait_backoff_Retrying
      split: if_splits option.splits sum.splits)

lemma reconnect_turns_backoff:
  "reconnect_turns gp active turns b lk = Retrying b' lk' \<Longrightarrow> b' = (next_backoff ^^ length turns) b"
proof (induction turns arbitrary: b lk)
  case Nil
  then show ?case by simp
next
  case (Cons chs turns)
  then obtain b1 lk1 where "reconnect_turn gp active chs b lk = Retrying b1 lk1"
    "reconnect_turns gp active turns b1 lk1 = Retrying b' lk'"
    by (auto split: reconnect_state.splits)
  with reconnect_turn_backoff Cons.IH show ?case by (fastforce simp: funpow_swap1)
qed

end
