(* ===== verification/Platform.thy ===== *)
theory Platform
  imports Checkers
begin

text \<open>
  Making the logger (\<open>internal/logging/logger.go\<close>) and the metrics endpoint
  (\<open>internal/telemetry/exporter.go\<close>). Zap and \<open>net/http\<close> are parameters: parsing a level and
  building a logger, serving an address until it stops and shutting a server down.
\<close>

section \<open>Logging\<close>

datatype zap_preset = ZapDevelopment | ZapProduction

record zap_config =
  zc_Preset :: zap_preset
  zc_Level :: int

datatype logger_error = InvalidLogLevel string goerror | BuildingLogger goerror

record zap_api =
  zp_unmarshal_level :: "string \<Rightarrow> goerror + int"
  zp_build :: "zap_config \<Rightarrow> goerror option"

definition new_logger :: "zap_api \<Rightarrow> string \<Rightarrow> string \<Rightarrow> logger_error + zap_config" where
  "new_logger zp level format =
     (let preset = (if format = ''console'' then ZapDevelopment else ZapProduction)
      in case zp_unmarshal_level zp level of
           Inl e \<Rightarrow> Inl (InvalidLogLevel level e)
         | Inr lvl \<Rightarrow>
             (let cfg = \<lparr>zc_Preset = preset, zc_Level = lvl\<rparr>
              in case zp_build zp cfg of
                   Some e \<Rightarrow> Inl (BuildingLogger e)
                 | None \<Rightarrow> Inr cfg))"

section \<open>The metrics endpoint\<close>

datatype serve_error = ServerClosed | ServeFailed goerror

record 'e http_server =
  hs_serve :: "string \<Rightarrow> 'e \<Rightarrow> serve_error \<times> 'e"
  hs_shutdown :: "string \<Rightarrow> 'e \<Rightarrow> goerror option \<times> 'e"

record exporter =
  ex_Addr :: string

definition new_exporter :: "int \<Rightarrow> exporter" where
  "new_exporter port = \<lparr>ex_Addr = '':'' @ show_int port\<rparr>"

text \<open>The answer to a request for a path; the metrics themselves are rendered by Prometheus.\<close>

definition exporter_handle :: "'resp \<Rightarrow> (string \<Rightarrow> 'resp) \<Rightarrow> 'resp \<Rightarrow> string \<Rightarrow> 'resp" where
  "exporter_handle metrics ok not_found path =
     (if path = ''/metrics'' then metrics else if path = ''/healthz'' then ok ''ok'' else not_found)"

definition exporter_start :: "'e http_server \<Rightarrow> exporter \<Rightarrow> 'e world \<Rightarrow> goerror option \<times> 'e world" where
  "exporter_start hs ex w =
     (let (err, w1) = on_env (hs_serve hs (ex_Addr ex)) w
      in case err of
           ServerClosed \<Rightarrow> (None, w1)
         | ServeFailed e \<Rightarrow> (Some (''metrics server: '' @ e), w1))"

definition exporter_shutdown :: "'e http_server \<Rightarrow> exporter \<Rightarrow> 'e world \<Rightarrow> goerror option \<times> 'e world" where
  "exporter_shutdown hs ex w = on_env (hs_shutdown hs (ex_Addr ex)) w"

end
