(* ===== verification/Runtime.thy ===== *)
theory Runtime
  imports Build Actions_Props Engine_Concurrent Watcher Client_Props Platform
begin

text \<open>
  The supervisor (\<open>internal/runtime/runtime.go\<close>): \<open>New\<close> wires the components from a configuration,
  \<open>Start\<close> runs their goroutines side by side, \<open>Shutdown\<close> stops them. The recorder, its buffer and
  the control plane client are shared by pointer; in the model they live in the incident manager.
\<close>

section \<open>Wiring\<close>

text \<open>What lies outside the repository, in one place.\<close>

record ('db, 'e) platform =
  pf_zap :: zap_api
  pf_bolt :: "'db bolt_api"
  pf_mkdir :: "string \<Rightarrow> goerror option"
  pf_open_db :: "string \<Rightarrow> goerror + 'db"
  pf_probes :: "'e probes"
  pf_system :: "'e system"
  pf_cluster :: "'e cluster"
  pf_http :: "'e http_server"
  pf_grpc :: "'e grpc"

record ('db, 'e) runtime =
  rt_Config :: config
  rt_Logger :: zap_config
  rt_CheckRegistry :: "(check_error, 'e) check_registry"
  rt_CheckScheduler :: "(check_error, 'e) scheduler"
  rt_RepairEngine :: "'e engine"
  rt_Agent :: "('db bolt_store, 'e) agent"
  rt_MetricsExporter :: exporter
  rt_KubeWatcher :: "'e watcher option"
  rt_checkResults :: "check_error check_result chan"

datatype new_error =
    NewLogger logger_error
  | NewStorage open_error
  | NewBufferPanic
  | NewChecks registry_error
  | NewAction registry_error

definition kube_available :: "'e cluster \<Rightarrow> config \<Rightarrow> 'e world \<Rightarrow> bool" where
  "kube_available cu cfg w \<longleftrightarrow>
     (if kc_Enabled (c_Kubernetes cfg) = KubeDisabled then False else is_running_in_cluster cu w)"

definition runtime_kube_client :: "'e cluster \<Rightarrow> config \<Rightarrow> 'e world \<Rightarrow> 'e kube_client option" where
  "runtime_kube_client cu cfg w =
     (if kube_available cu cfg w
      then (case new_kube_client cu w of Inl e \<Rightarrow> None | Inr c \<Rightarrow> Some c)
      else None)"

definition runtime_watcher :: "'e kube_client option \<Rightarrow> config \<Rightarrow> 'e watcher option" where
  "runtime_watcher kc cfg =
     (case kc of
        None \<Rightarrow> None
      | Some c \<Rightarrow>
          if kc_Enabled (c_Kubernetes cfg) \<noteq> KubeDisabled
          then Some (new_watcher_with_client c (kc_Namespace (c_Kubernetes cfg))) else None)"

definition client_options :: "config \<Rightarrow> client_option list" where
  "client_options cfg =
     [WithTelemetryDrainer, WithActiveIncidentCounter, WithConfigUpdateHandler]
     @ (if tls_enabled (c_ControlPlane cfg) then [WithTLS] else [])"

definition runtime_client :: "config \<Rightarrow> client option" where
  "runtime_client cfg =
     (let cp = c_ControlPlane cfg
      in if cp_enabled cp \<and> cp_Endpoint cp \<noteq> ''''
         then Some (new_control_plane_client (cp_Endpoint cp) (cp_AgentUUID cp) (cp_APIKey cp) (client_options cfg))
         else None)"

text \<open>
  \<open>New\<close>: an error comes with the store if it was opened by then, in the state \<open>New\<close> leaves it.
  A failure to load the stored incidents is only logged.
\<close>

definition new_runtime ::
  "('db, 'e) platform \<Rightarrow> config \<Rightarrow> 'e world
   \<Rightarrow> (new_error \<times> 'db bolt_store option) + ('db, 'e) runtime" where
  "new_runtime pf cfg w =
     (case new_logger (pf_zap pf) (lc_Level (c_Logging cfg)) (lc_Format (c_Logging cfg)) of
        Inl e \<Rightarrow> Inl (NewLogger e, None)
      | Inr logger \<Rightarrow>
          (case new_bolt_store (pf_bolt pf) (pf_mkdir pf) (pf_open_db pf) (stc_Path (c_Storage cfg)) of
             Inl e \<Rightarrow> Inl (NewStorage e, None)
           | Inr store \<Rightarrow>
               (case new_ring_buffer (tc_BufferSize (c_Telemetry cfg)) of
                  None \<Rightarrow> Inl (NewBufferPanic, Some store)
                | Some buffer \<Rightarrow>
                    (case build_from_config (pf_probes pf) (c_Checks cfg)
                            (new_registry, new_scheduler (ac_WorkerPoolSize (c_Agent cfg))) of
                       (Some e, _) \<Rightarrow> Inl (NewChecks e, Some (snd (bolt_close (pf_bolt pf) store)))
                     | (None, registry, scheduler) \<Rightarrow>
                         (let recorder = new_recorder new_metrics buffer;
                              (now, w1) = time_now w;
                              mgr = snd (rehydrate (bolt_store_ops (pf_bolt pf))
                                (new_manager (\<lambda>_. now) store (make_chan 256) recorder));
                              kube = runtime_kube_client (pf_cluster pf) cfg w1
                          in case register_builtin_actions (pf_system pf) registry (map_option kl_actions kube) of
                               Inl e \<Rightarrow> Inl (NewAction e, Some (snd (bolt_close (pf_bolt pf) (mg_store mgr))))
                             | Inr acts \<Rightarrow>
                                 (let (engine, guardrails) =
                                        load_config (c_Repairs cfg) (c_Recipes cfg) (new_engine acts, new_guardrails);
                                      mgr' = (case runtime_client cfg of
                                                None \<Rightarrow> mgr
                                              | Some c \<Rightarrow> mgr\<lparr>mg_recorder := set_reporter c (mg_recorder mgr)\<rparr>)
                                  in Inr \<lparr>rt_Config = cfg, rt_Logger = logger, rt_CheckRegistry = registry,
                                          rt_CheckScheduler = scheduler, rt_RepairEngine = engine,
                                          rt_Agent = \<lparr>ag_mgr = mgr', ag_gr = guardrails, ag_world = w1\<rparr>,
                                          rt_MetricsExporter = new_exporter (tc_MetricsPort (c_Telemetry cfg)),
                                          rt_KubeWatcher = runtime_watcher kube cfg,
                                          rt_checkResults = make_chan 256\<rparr>))))))"

section \<open>Running\<close>

text \<open>
  The agent at work: the scheduler with the results channel, and the repair engine with the manager,
  the guardrails and the world. The scheduler's copy of the world is set from the engine's before
  each of its steps.
\<close>

record ('db, 'e) live =
  lv_sched :: "(check_error, 'e) sched_run"
  lv_eng :: "('db bolt_store, 'e) cagent"

abbreviation lv_world :: "('db, 'e) live \<Rightarrow> 'e world" where
  "lv_world s \<equiv> ag_world (ca_agent (lv_eng s))"

abbreviation lv_mgr :: "('db, 'e) live \<Rightarrow> 'db bolt_store manager" where
  "lv_mgr s \<equiv> ag_mgr (ca_agent (lv_eng s))"

definition set_world :: "'e world \<Rightarrow> ('db, 'e) live \<Rightarrow> ('db, 'e) live" where
  "set_world w s = s\<lparr>lv_eng := (lv_eng s)\<lparr>ca_agent := (ca_agent (lv_eng s))\<lparr>ag_world := w\<rparr>\<rparr>\<rparr>"

definition set_mgr :: "'db bolt_store manager \<Rightarrow> ('db, 'e) live \<Rightarrow> ('db, 'e) live" where
  "set_mgr m s = s\<lparr>lv_eng := (lv_eng s)\<lparr>ca_agent := (ca_agent (lv_eng s))\<lparr>ag_mgr := m\<rparr>\<rparr>\<rparr>"

definition set_results :: "check_error check_result chan \<Rightarrow> ('db, 'e) live \<Rightarrow> ('db, 'e) live" where
  "set_results c s = s\<lparr>lv_sched := (lv_sched s)\<lparr>sn_results := c\<rparr>\<rparr>"

text \<open>
  \<open>Start\<close> runs each part in a goroutine of its own, the \<open>Start\<close> of the scheduler too: at first the
  scheduler has not started, and \<open>Shutdown\<close>, which \<open>main\<close> calls without waiting, may stop it at
  any point of its start.
\<close>

definition start_runtime :: "('db, 'e) runtime \<Rightarrow> ('db, 'e) live" where
  "start_runtime rt =
     \<lparr>lv_sched = new_run (rt_CheckScheduler rt) (rt_checkResults rt) (ag_world (rt_Agent rt)),
      lv_eng = \<lparr>ca_agent = rt_Agent rt, ca_tasks = []\<rparr>\<rparr>"

text \<open>What the engine does with the event it receives.\<close>

definition dispatch :: "incident_event \<Rightarrow> ('st, 'e) cagent \<Rightarrow> ('st, 'e) cagent" where
  "dispatch ev s =
     (if triggers (ev_Type ev) then
        (case get_active (ag_mgr (ca_agent s)) (inc_CheckName (ev_Incident ev)) of
           None \<Rightarrow> s
         | Some snap \<Rightarrow> s\<lparr>ca_tasks := ca_tasks s @ [TWaiting snap]\<rparr>)
      else s)"

text \<open>The link the client works on is made of the recorder's client and buffer.\<close>

definition set_client :: "client \<Rightarrow> ring_buffer \<Rightarrow> 'e world \<Rightarrow> ('db, 'e) live \<Rightarrow> ('db, 'e) live" where
  "set_client c rb w s =
     set_world w (set_mgr ((lv_mgr s)\<lparr>mg_recorder :=
        (mg_recorder (lv_mgr s))\<lparr>rec_reporter := Some c, rec_buffer := rb\<rparr>\<rparr>) s)"

definition link_of :: "client \<Rightarrow> ('db, 'e) live \<Rightarrow> 'e link \<Rightarrow> bool" where
  "link_of c s lk \<longleftrightarrow> rec_reporter (mg_recorder (lv_mgr s)) = Some c
     \<and> lk_client lk = c \<and> lk_buffer lk = rec_buffer (mg_recorder (lv_mgr s)) \<and> lk_world lk = lv_world s"

text \<open>
  One step of one goroutine: the scheduler (which does not take results), the manager receiving a
  result, the engine receiving an event, a repair going on, the watcher seeing an object, the client
  connecting, streaming or disconnecting, the uptime ticker.
\<close>

inductive live_step ::
  "('db, 'e) platform \<Rightarrow> ('db, 'e) runtime \<Rightarrow> ('db, 'e) live \<Rightarrow> ('db, 'e) live \<Rightarrow> bool"
  for pf :: "('db, 'e) platform" and rt :: "('db, 'e) runtime" where
  l_sched:
    "sched_step ((lv_sched s)\<lparr>sn_world := lv_world s\<rparr>) sch \<Longrightarrow>
     length (ch_buf (sn_results (lv_sched s))) \<le> length (ch_buf (sn_results sch)) \<Longrightarrow>
     live_step pf rt s (set_world (sn_world sch) (s\<lparr>lv_sched := sch\<rparr>))"
| l_result:
    "recv (sn_results (lv_sched s)) = Some (r, c) \<Longrightarrow>
     ag = agent_step (bolt_store_ops (pf_bolt pf)) (rt_RepairEngine rt) (AgResult r) (ca_agent (lv_eng s)) \<Longrightarrow>
     live_step pf rt s ((set_results c s)\<lparr>lv_eng := (lv_eng s)\<lparr>ca_agent := ag\<rparr>\<rparr>)"
| l_event:
    "recv (mg_events (lv_mgr s)) = Some (ev, c) \<Longrightarrow>
     s1 = set_mgr ((lv_mgr s)\<lparr>mg_events := c\<rparr>) s \<Longrightarrow>
     live_step pf rt s (s1\<lparr>lv_eng := dispatch ev (lv_eng s1)\<rparr>)"
| l_task:
    "cstep (bolt_store_ops (pf_bolt pf)) (rt_RepairEngine rt) (lv_eng s) e \<Longrightarrow>
     length (ca_tasks e) = length (ca_tasks (lv_eng s)) \<Longrightarrow> ca_tasks e \<noteq> ca_tasks (lv_eng s) \<Longrightarrow>
     live_step pf rt s (s\<lparr>lv_eng := e\<rparr>)"
| l_watch:
    "rt_KubeWatcher rt = Some wa \<Longrightarrow>
     process_event obj (sn_results (lv_sched s), lv_world s) = (c, w) \<Longrightarrow>
     live_step pf rt s (set_world w (set_results c s))"
| l_stream:
    "link_of c s (sm_link run) \<Longrightarrow>
     lk = sm_link (stream_step (pf_grpc pf) (active_count (lv_mgr s)) st ch run) \<Longrightarrow>
     live_step pf rt s (set_client (lk_client lk) (lk_buffer lk) (lk_world lk) s)"
| l_connect:
    "rec_reporter (mg_recorder (lv_mgr s)) = Some c \<Longrightarrow>
     cw = connect (pf_grpc pf) (c, lv_world s) \<Longrightarrow>
     live_step pf rt s (set_client (fst (snd cw)) (rec_buffer (mg_recorder (lv_mgr s))) (snd (snd cw)) s)"
| l_disconnect:
    "rec_reporter (mg_recorder (lv_mgr s)) = Some c \<Longrightarrow>
     cw = mark_disconnected (pf_grpc pf) (c, lv_world s) \<Longrightarrow>
     live_step pf rt s (set_client (fst cw) (rec_buffer (mg_recorder (lv_mgr s))) (snd cw) s)"
| l_uptime:
    "live_step pf rt s (set_mgr ((lv_mgr s)\<lparr>mg_recorder := increment_uptime (mg_recorder (lv_mgr s))\<rparr>) s)"

inductive live_reach ::
  "('db, 'e) platform \<Rightarrow> ('db, 'e) runtime \<Rightarrow> ('db, 'e) live \<Rightarrow> ('db, 'e) live \<Rightarrow> bool"
  for pf :: "('db, 'e) platform" and rt :: "('db, 'e) runtime" where
  live_refl: "live_reach pf rt s s"
| live_next: "live_reach pf rt s s' \<Longrightarrow> live_step pf rt s' s'' \<Longrightarrow> live_reach pf rt s s''"

section \<open>Shutting down\<close>

text \<open>
  After \<open>Stop\<close> of the scheduler has returned: the exporter if there is one, the client, the store;
  their errors are logged and \<open>Shutdown\<close> returns nil.
\<close>

definition shutdown ::
  "('db, 'e) platform \<Rightarrow> ('db, 'e) runtime \<Rightarrow> ('db bolt_store, 'e) agent
   \<Rightarrow> goerror option \<times> ('db bolt_store, 'e) agent" where
  "shutdown pf rt ag =
     (let w1 = (if tc_Enabled (c_Telemetry (rt_Config rt))
                then snd (exporter_shutdown (pf_http pf) (rt_MetricsExporter rt) (ag_world ag)) else ag_world ag);
          m = ag_mgr ag;
          (m1, w2) = (case rec_reporter (mg_recorder m) of
             None \<Rightarrow> (m, w1)
           | Some c \<Rightarrow>
               (let (_, c', w') = disconnect (pf_grpc pf) (c, w1)
                in (m\<lparr>mg_recorder := (mg_recorder m)\<lparr>rec_reporter := Some c'\<rparr>\<rparr>, w')));
          m2 = m1\<lparr>mg_store := snd (bolt_close (pf_bolt pf) (mg_store m1))\<rparr>
      in (None, ag\<lparr>ag_mgr := m2, ag_world := w2\<rparr>))"

end
