(* ===== verification/Runtime_Props.thy ===== *)
theory Runtime_Props
  imports Runtime
begin

text \<open>
  A valid configuration makes a well-formed agent: what \<open>New\<close> builds, which errors it can meet, and
  the invariant of the running agent, in which the scheduler, the manager, the engine, the watcher and
  the client interleave.
\<close>

section \<open>The configuration in the engine\<close>

lemma find_snoc:
  "find P (xs @ [x]) = (case find P xs of None \<Rightarrow> if P x then Some x else None | Some y \<Rightarrow> Some y)"
  by (induction xs) auto

lemma find_rev_set: "find P (rev xs) = Some x \<Longrightarrow> x \<in> set xs \<and> P x"
  by (auto simp: find_Some_iff) (metis nth_mem length_rev set_rev)

lemma load_rules_rules:
  "gget (en_rules (fst (load_rules rs (en, g)))) k =
     (case find (\<lambda>r. rr_Check r = k) (rev rs) of None \<Rightarrow> gget (en_rules en) k | Some r \<Rightarrow> Some r)"
proof (induction rs arbitrary: en g)
  case Nil
  then show ?case by simp
next
  case (Cons r rs)
  then show ?case by (auto simp: find_snoc split: option.splits)
qed

lemma load_rules_frame [simp]:
  "en_actions (fst (load_rules rs (en, g))) = en_actions en"
  "en_recipes (fst (load_rules rs (en, g))) = en_recipes en"
  "gr_repairHistory (snd (load_rules rs (en, g))) = gr_repairHistory g"
  by (induction rs arbitrary: en g) (simp_all add: set_max_repairs_per_hour_def)

lemma load_rules_limits:
  "gget (gr_maxRepairs (snd (load_rules rs (en, g)))) n =
     (case find (\<lambda>r. rr_Rule r = n \<and> 0 < rr_MaxRepairsPerHour r) (rev rs) of
        None \<Rightarrow> gget (gr_maxRepairs g) n | Some r \<Rightarrow> Some (rr_MaxRepairsPerHour r))"
proof (induction rs arbitrary: en g)
  case Nil
  then show ?case by simp
next
  case (Cons r rs)
  then show ?case by (auto simp: find_snoc set_max_repairs_per_hour_def split: option.splits)
qed

lemma load_recipes_frame [simp]:
  "en_actions (load_recipes rs en) = en_actions en" "en_rules (load_recipes rs en) = en_rules en"
  by (induction rs arbitrary: en) simp_all

lemma load_recipes_present:
  "gget (en_recipes (load_recipes rs en)) k \<noteq> None \<longleftrightarrow> gget (en_recipes en) k \<noteq> None \<or> k \<in> rc_Name ` set rs"
  by (induction rs arbitrary: en) auto

lemma load_config_simps [simp]:
  "en_actions (fst (load_config rules recipes (en, g))) = en_actions en"
  "en_rules (fst (load_config rules recipes (en, g))) = en_rules (fst (load_rules rules (en, g)))"
  "en_recipes (fst (load_config rules recipes (en, g))) =
     en_recipes (load_recipes recipes (fst (load_rules rules (en, g))))"
  "snd (load_config rules recipes (en, g)) = snd (load_rules rules (en, g))"
  by (simp_all add: load_config_def case_prod_beta)

text \<open>A recipe of the configuration as the engine runs it: its steps in order, each compiled.\<close>

definition configured_recipe :: "recipe_config \<Rightarrow> recipe" where
  "configured_recipe r =
     \<lparr>wf_Name = rc_Name r, wf_Steps = map (\<lambda>(i, s). compile_step (rc_Name r) i s) (List.enumerate 0 (rc_Steps r))\<rparr>"

lemma compile_steps_enumerate:
  "compile_steps r i ss = map (\<lambda>(j, s). compile_step r j s) (List.enumerate i ss)"
  by (induction ss arbitrary: i) simp_all

lemma load_recipes_lookup:
  "gget (en_recipes (load_recipes rs en)) n =
     (case find (\<lambda>r. rc_Name r = n) (rev rs) of
        None \<Rightarrow> gget (en_recipes en) n | Some r \<Rightarrow> Some (configured_recipe r))"
proof (induction rs arbitrary: en)
  case Nil
  then show ?case by simp
next
  case (Cons r rs)
  then show ?case
    by (auto simp: find_snoc configured_recipe_def compile_steps_enumerate split: option.splits)
qed

text \<open>
  What the engine and the guardrails hold after loading: for each check its rule, for each name its
  recipe, for each rule its limit, of several entries the last, and nothing else.
\<close>

definition repairs_wired :: "config \<Rightarrow> 'e engine \<Rightarrow> guardrails \<Rightarrow> bool" where
  "repairs_wired cfg en g \<longleftrightarrow>
     (\<forall>k. gget (en_rules en) k = find (\<lambda>r. rr_Check r = k) (rev (c_Repairs cfg)))
     \<and> (\<forall>n. gget (en_recipes en) n =
          map_option configured_recipe (find (\<lambda>r. rc_Name r = n) (rev (c_Recipes cfg))))
     \<and> (\<forall>n. gget (gr_maxRepairs g) n = map_option rr_MaxRepairsPerHour
          (find (\<lambda>r. rr_Rule r = n \<and> 0 < rr_MaxRepairsPerHour r) (rev (c_Repairs cfg))))"

lemma repairs_wired_loaded:
  fixes acts :: "'e action_registry"
  assumes "eg = load_config (c_Repairs cfg) (c_Recipes cfg) (new_engine acts, new_guardrails)"
  shows "repairs_wired cfg (fst eg) (snd eg)"
  unfolding repairs_wired_def assms
  by (auto simp: load_rules_rules load_rules_limits load_recipes_lookup new_engine_def new_guardrails_def
      split: option.splits)

section \<open>What New builds\<close>

lemma built_clocked:
  fixes pb :: "'e probes"
  assumes "distinct (map cc_Name ccs)"
    and "build_from_config pb ccs (new_registry, new_scheduler n) = (r, reg, sch)"
  shows "r = None \<and> sd_checks sch = scheduled pb ccs \<and> sd_workers sch = n \<and> clocked_checks reg"
proof -
  from build_ok [OF check_reg.inv_empty assms(1), of pb "new_scheduler n"] obtain reg' where reg:
    "build_from_config pb ccs (new_registry, new_scheduler n) =
       (None, reg', (new_scheduler n)\<lparr>sd_checks := sd_checks (new_scheduler n) @ scheduled pb ccs\<rparr>)"
    "\<forall>m. check_get reg' m = (case find (\<lambda>x. ck_Name (fst x) = m) (scheduled pb ccs) of
              None \<Rightarrow> check_get new_registry m | Some x \<Rightarrow> Some (fst x))"
    by (auto simp: check_reg.get_empty)
  have "keeps_clock w (snd (ck_Run c w))" if "check_get reg' m = Some c" for m c w
  proof -
    have "c \<in> fst ` set (scheduled pb ccs)"
      using that reg(2) by (force simp: check_reg.get_empty find_Some_iff split: option.splits)
    then obtain cc where "build_check pb cc = Some c" using scheduled_contract by fastforce
    from checker.run_clock [OF build_check_contract [OF this]] show ?thesis .
  qed
  with reg(1) assms(2) show ?thesis by (auto simp: clocked_checks_def new_scheduler_def)
qed

text \<open>The store and the manager \<open>New\<close> starts from.\<close>

lemma rehydrate_frame [simp]:
  "mg_store (snd (rehydrate ops m)) = mg_store m" "mg_recorder (snd (rehydrate ops m)) = mg_recorder m"
  "mg_events (snd (rehydrate ops m)) = mg_events m"
  by (simp_all add: rehydrate_def case_prod_beta split: option.splits)

lemma runtime_client_ok: "runtime_client cfg = Some c \<Longrightarrow> client_ok c"
  by (auto simp: runtime_client_def Let_def client_ok_new split: if_splits)

lemma manager_ok_set_reporter [inv_intros]:
  "manager_ok m \<Longrightarrow> client_ok c \<Longrightarrow> manager_ok (m\<lparr>mg_recorder := set_reporter c (mg_recorder m)\<rparr>)"
  by (simp add: manager_ok_def recorder_ok_def set_reporter_def)

definition agent_wired :: "config \<Rightarrow> ('db, 'e) runtime \<Rightarrow> bool" where
  "agent_wired cfg rt \<longleftrightarrow>
     manager_ok (ag_mgr (rt_Agent rt)) \<and> clocked_actions (rt_RepairEngine rt)
     \<and> repairs_wired cfg (rt_RepairEngine rt) (ag_gr (rt_Agent rt))
     \<and> (rec_reporter (mg_recorder (ag_mgr (rt_Agent rt))) \<noteq> None \<longleftrightarrow> cp_enabled (c_ControlPlane cfg))
     \<and> (kc_Enabled (c_Kubernetes cfg) = KubeDisabled \<longrightarrow> rt_KubeWatcher rt = None)"

lemma new_runtime_cases:
  fixes pf :: "('db, 'e) platform"
  assumes "valid_config cfg" and "1 \<le> tc_BufferSize (c_Telemetry cfg)"
  obtains e where "new_runtime pf cfg w = Inl (NewLogger e, None)"
  | e where "new_runtime pf cfg w = Inl (NewStorage e, None)"
  | rt where "new_runtime pf cfg w = Inr rt" and "agent_wired cfg rt"
    and "sd_checks (rt_CheckScheduler rt) = scheduled (pf_probes pf) (c_Checks cfg)"
    and "sd_workers (rt_CheckScheduler rt) = ac_WorkerPoolSize (c_Agent cfg)"
    and "rt_checkResults rt = make_chan 256" and "rt_Config rt = cfg"
proof -
  show thesis
  proof (cases "new_logger (pf_zap pf) (lc_Level (c_Logging cfg)) (lc_Format (c_Logging cfg))")
    case (Inl e)
    then show ?thesis by (intro that(1)) (simp add: new_runtime_def)
  next
    case logger: (Inr logger)
    show ?thesis
    proof (cases "new_bolt_store (pf_bolt pf) (pf_mkdir pf) (pf_open_db pf) (stc_Path (c_Storage cfg))")
      case (Inl e)
      with logger show ?thesis by (intro that(2)) (simp add: new_runtime_def)
    next
      case store: (Inr store)
      obtain buffer where buffer: "new_ring_buffer (tc_BufferSize (c_Telemetry cfg)) = Some buffer" "ring_ok buffer"
        using assms(2) ring_ok_new [of "tc_BufferSize (c_Telemetry cfg)"] by (auto simp: new_ring_buffer_def)
      obtain r reg sch where b0: "build_from_config (pf_probes pf) (c_Checks cfg)
          (new_registry, new_scheduler (ac_WorkerPoolSize (c_Agent cfg))) = (r, reg, sch)"
        by (metis prod.collapse)
      have "distinct (map cc_Name (c_Checks cfg))" using assms(1) by (simp add: valid_config_def)
      note built = built_clocked [OF this b0]
      let ?now = "fst (time_now w)" and ?w1 = "snd (time_now w)"
      let ?rec = "new_recorder new_metrics buffer"
      let ?m = "snd (rehydrate (bolt_store_ops (pf_bolt pf))
                 (new_manager (\<lambda>_. ?now) store (make_chan 256) ?rec))"
      let ?kube = "runtime_kube_client (pf_cluster pf) cfg ?w1"
      obtain acts where acts: "register_builtin_actions (pf_system pf) reg (map_option kl_actions ?kube) = Inr acts"
        "\<forall>en. en_actions en = acts \<longrightarrow> clocked_actions en"
        using builtin_registry [of reg "pf_system pf" "map_option kl_actions ?kube"] built by blast
      let ?lc = "load_config (c_Repairs cfg) (c_Recipes cfg) (new_engine acts, new_guardrails)"
      let ?m' = "case runtime_client cfg of None \<Rightarrow> ?m | Some c \<Rightarrow> ?m\<lparr>mg_recorder := set_reporter c (mg_recorder ?m)\<rparr>"
      let ?rt = "\<lparr>rt_Config = cfg, rt_Logger = logger, rt_CheckRegistry = reg, rt_CheckScheduler = sch,
          rt_RepairEngine = fst ?lc, rt_Agent = \<lparr>ag_mgr = ?m', ag_gr = snd ?lc, ag_world = ?w1\<rparr>,
          rt_MetricsExporter = new_exporter (tc_MetricsPort (c_Telemetry cfg)),
          rt_KubeWatcher = runtime_watcher ?kube cfg, rt_checkResults = make_chan 256\<rparr>"
      have eq: "new_runtime pf cfg w = Inr ?rt"
        using logger store buffer b0 built acts(1) by (simp add: new_runtime_def case_prod_beta Let_def)
      have rec: "recorder_ok ?rec"
        using buffer(2) by (simp add: recorder_ok_def new_recorder_def new_metrics_def)
      have ok: "manager_ok ?m" by (intro manager_ok_rehydrate manager_ok_new rec) simp
      have "manager_ok ?m'"
        using ok manager_ok_set_reporter [OF ok runtime_client_ok] by (simp split: option.splits)
      moreover have "clocked_actions (fst ?lc)" using acts(2) by (simp add: new_engine_def)
      moreover have "repairs_wired cfg (fst ?lc) (snd ?lc)" by (rule repairs_wired_loaded [OF refl])
      moreover have "rec_reporter (mg_recorder ?m') \<noteq> None \<longleftrightarrow> cp_enabled (c_ControlPlane cfg)"
        using assms(1)
        by (auto simp: runtime_client_def Let_def set_reporter_def new_manager_def new_recorder_def valid_config_def
            split: option.splits if_splits)
      moreover have "kc_Enabled (c_Kubernetes cfg) = KubeDisabled \<Longrightarrow> runtime_watcher ?kube cfg = None"
        by (simp add: runtime_watcher_def split: option.splits)
      ultimately have "agent_wired cfg ?rt" by (simp add: agent_wired_def)
      with eq show ?thesis by (rule that(3)) (use built in simp_all)
    qed
  qed
qed

text \<open>Whatever the configuration, an error after the store was opened closes it.\<close>

lemma new_runtime_closes:
  assumes "new_runtime pf cfg w = Inl (e, Some st)" and "e \<noteq> NewBufferPanic"
  shows "bs_closed_once st"
  using assms
  by (auto simp: new_runtime_def case_prod_beta Let_def bolt_close_def with_db_def
      split: sum.splits option.splits if_splits)

section \<open>Where incidents come from\<close>

text \<open>The names a check of the configuration or an event of the watcher can report under.\<close>

definition sourced :: "'e probes \<Rightarrow> config \<Rightarrow> 'e watcher option \<Rightarrow> string \<Rightarrow> bool" where
  "sourced pb cfg wa n \<longleftrightarrow>
     n \<in> cc_Name ` {cc \<in> set (c_Checks cfg). build_check pb cc \<noteq> None}
     \<or> (wa \<noteq> None \<and> (\<exists>e. failure_event e \<and> n = kube_check_name e))"

lemma of_check_sourced:
  assumes "of_check (map fst (scheduled pb (c_Checks cfg))) r"
  shows "sourced pb cfg wa (cr_Name r)"
proof -
  from assms obtain x w where x: "x \<in> set (scheduled pb (c_Checks cfg))" "r = fst (ck_Run (fst x) w)"
    by (auto simp: of_check_def)
  from scheduled_contract [OF x(1)] obtain cc where cc: "cc \<in> set (c_Checks cfg)" "build_check pb cc = Some (fst x)"
    by blast
  have "cr_Name r = cc_Name cc" using checker.run_name [OF build_check_contract [OF cc(2)]] x(2) by simp
  with cc show ?thesis by (auto simp: sourced_def)
qed

text \<open>Steps of a repair change the status of active incidents and nothing else about which are active.\<close>

definition same_active :: "('st, 'e) agent \<Rightarrow> ('st, 'e) agent \<Rightarrow> bool" where
  "same_active ag ag' \<longleftrightarrow> manager_ok (ag_mgr ag') \<and>
     (\<forall>k. get_active (ag_mgr ag') k = None \<longleftrightarrow> get_active (ag_mgr ag) k = None)"

lemma same_active_frame:
  "manager_ok (ag_mgr ag') \<Longrightarrow> mg_active (ag_mgr ag') = mg_active (ag_mgr ag) \<Longrightarrow> same_active ag ag'"
  by (simp add: same_active_def get_active_def)

lemma same_active_set_status:
  "manager_ok (ag_mgr ag) \<Longrightarrow> st \<noteq> StatusResolved \<Longrightarrow> same_active ag (engine_set_status ops c st ag)"
  by (auto simp: same_active_def ag_mgr_set_status get_active_def active_set_status split: option.splits)

lemma cstep_same_active:
  assumes "cstep ops en s e" and "ca_tasks e \<noteq> ca_tasks s" and ok: "manager_ok (ag_mgr (ca_agent s))"
  shows "same_active (ca_agent s) (ca_agent e)"
  using assms(1)
proof cases
  case (c_result r)
  with assms(2) show ?thesis by simp
next
  case (c_mark i inc rule rcp)
  then show ?thesis using same_active_set_status [OF ok] by simp
next
  case (c_done i inc b)
  then show ?thesis using same_active_set_status [OF ok] by simp
next
  case (c_start i inc rule rcp ag' t w)
  then show ?thesis by (intro same_active_frame) (simp_all add: manager_ok_repair_started [OF ok])
next
  case (c_persist i inc rule rcp res)
  then show ?thesis by (intro same_active_frame) (simp_all add: manager_ok_persist_result [OF ok])
next
  case (c_report i inc rule rcp res b)
  then show ?thesis by (intro same_active_frame) (simp_all add: manager_ok_repair_completed [OF ok])
qed (auto intro!: same_active_frame simp: ok)

section \<open>The invariant of the running agent\<close>

definition live_inv ::
  "('db, 'e) platform \<Rightarrow> ('db, 'e) runtime \<Rightarrow> string set \<Rightarrow> ('db, 'e) live \<Rightarrow> bool" where
  "live_inv pf rt A s \<longleftrightarrow>
     sched_ok (lv_sched s) \<and> sn_checks (lv_sched s) = map fst (sd_checks (rt_CheckScheduler rt))
     \<and> (\<forall>r \<in> set (ch_buf (sn_results (lv_sched s))).
          sourced (pf_probes pf) (rt_Config rt) (rt_KubeWatcher rt) (cr_Name r))
     \<and> manager_ok (lv_mgr s) \<and> slots_ok (lv_eng s)
     \<and> (\<forall>k. get_active (lv_mgr s) k \<noteq> None \<longrightarrow>
          k \<in> A \<or> sourced (pf_probes pf) (rt_Config rt) (rt_KubeWatcher rt) k)"

lemma live_simps [simp]:
  "lv_sched (set_world w s) = lv_sched s" "lv_sched (set_mgr m s) = lv_sched s"
  "lv_sched (set_client c rb w s) = lv_sched s"
  "lv_eng (set_results c' s) = lv_eng s" "sn_results (lv_sched (set_results c' s)) = c'"
  "sn_checks (lv_sched (set_results c' s)) = sn_checks (lv_sched s)"
  "lv_mgr (set_world w s) = lv_mgr s" "lv_mgr (set_mgr m s) = m"
  "ca_tasks (lv_eng (set_world w s)) = ca_tasks (lv_eng s)"
  "ca_tasks (lv_eng (set_mgr m s)) = ca_tasks (lv_eng s)"
  "ca_tasks (lv_eng (set_client c rb w s)) = ca_tasks (lv_eng s)"
  "lv_mgr (set_client c rb w s) =
     (lv_mgr s)\<lparr>mg_recorder := (mg_recorder (lv_mgr s))\<lparr>rec_reporter := Some c, rec_buffer := rb\<rparr>\<rparr>"
  by (simp_all add: set_world_def set_mgr_def set_results_def set_client_def)

lemma sched_ok_results [simp]:
  "sched_ok (lv_sched (set_results c s)) = sched_ok (lv_sched s)"
  "sched_ok (sr\<lparr>sn_world := w\<rparr>) = sched_ok sr"
  by (simp_all add: set_results_def sched_ok_def stop_ok_def early_ok_def orderly_def launched_def data_ok_def)

lemma slots_ok_tasks: "ca_tasks a = ca_tasks b \<Longrightarrow> slots_ok a = slots_ok b"
  by (simp add: slots_ok_def)

text \<open>What a step of the client does to the manager: another well-formed client and buffer.\<close>

lemma manager_ok_client:
  "manager_ok m \<Longrightarrow> client_ok c \<Longrightarrow> ring_ok rb \<Longrightarrow>
     manager_ok (m\<lparr>mg_recorder := (mg_recorder m)\<lparr>rec_reporter := Some c, rec_buffer := rb\<rparr>\<rparr>)"
  by (simp add: manager_ok_def recorder_ok_def)

lemma live_inv_client:
  assumes "live_inv pf rt A s" and "client_ok c" and "ring_ok rb"
  shows "live_inv pf rt A (set_client c rb w s)"
proof -
  have "slots_ok (lv_eng (set_client c rb w s)) = slots_ok (lv_eng s)" by (rule slots_ok_tasks) simp
  with assms manager_ok_client [OF _ assms(2,3), of "lv_mgr s"] show ?thesis
    by (simp add: live_inv_def get_active_def)
qed

lemma stream_step_buffer:
  assumes "ring_ok (lk_buffer (sm_link run))"
  shows "ring_ok (lk_buffer (sm_link (stream_step gp active st ch run)))"
proof -
  have "ring_ok (lk_buffer (snd (send_telemetry gp st lk)))" if "ring_ok (lk_buffer lk)" for lk
    using that by (simp add: send_telemetry_def Let_def case_prod_beta ring_drain_ok)
  with assms have "ring_ok (lk_buffer (sm_link (send_branch gp active st ch run)))"
    by (cases ch) (auto simp: send_returns_def Let_def split: option.splits)
  with assms show ?thesis by (simp add: stream_step_def recv_branch_link)
qed

lemma live_reporter:
  assumes "live_inv pf rt A s" and "rec_reporter (mg_recorder (lv_mgr s)) = Some c"
  shows "client_ok c" and "ring_ok (rec_buffer (mg_recorder (lv_mgr s)))"
  using assms by (simp_all add: live_inv_def manager_ok_def recorder_ok_def)


section \<open>Every step keeps the invariant\<close>

lemma live_inv_sched:
  assumes inv: "live_inv pf rt A s" and rt: "sd_checks (rt_CheckScheduler rt) = scheduled (pf_probes pf) (c_Checks (rt_Config rt))"
    and st: "sched_step ((lv_sched s)\<lparr>sn_world := w\<rparr>) sch"
  shows "live_inv pf rt A (set_world w' (s\<lparr>lv_sched := sch\<rparr>))"
proof -
  let ?a = "(lv_sched s)\<lparr>sn_world := w\<rparr>"
  have a: "sched_ok ?a" using inv by (simp add: live_inv_def)
  have "sched_ok sch" using sched_ok_step [OF st] a by blast
  moreover have "sn_checks sch = map fst (sd_checks (rt_CheckScheduler rt))"
    using sched_checks_reach [OF sched_reach_one [OF st]] inv by (simp add: live_inv_def)
  moreover have "sourced (pf_probes pf) (rt_Config rt) (rt_KubeWatcher rt) (cr_Name r)"
    if "r \<in> set (ch_buf (sn_results sch))" for r
  proof -
    have "r \<in> set (ch_buf (sn_results (lv_sched s)))
        \<or> of_check (map fst (scheduled (pf_probes pf) (c_Checks (rt_Config rt)))) r"
      using subsetD [OF delivered_step [OF st a] that] inv by (auto simp: live_inv_def rt)
    then show ?thesis using inv of_check_sourced unfolding live_inv_def by blast
  qed
  moreover have "slots_ok (lv_eng (set_world w' (s\<lparr>lv_sched := sch\<rparr>))) = slots_ok (lv_eng s)"
    by (rule slots_ok_tasks) (simp add: set_world_def)
  ultimately show ?thesis using inv by (simp add: live_inv_def)
qed

lemma live_inv_result:
  assumes inv: "live_inv pf rt A s" and rc: "recv (sn_results (lv_sched s)) = Some (r, c)"
  shows "live_inv pf rt A ((set_results c s)\<lparr>lv_eng := (lv_eng s)\<lparr>ca_agent := agent_step ops en (AgResult r) (ca_agent (lv_eng s))\<rparr>\<rparr>)"
    (is "live_inv pf rt A ?s'")
proof -
  have ok: "manager_ok (lv_mgr s)" using inv by (simp add: live_inv_def)
  have src: "sourced (pf_probes pf) (rt_Config rt) (rt_KubeWatcher rt) (cr_Name x)"
    if "x = r \<or> x \<in> set (ch_buf c)" for x
    using rc inv that unfolding live_inv_def recv_Some by auto
  have "slots_ok (lv_eng ?s') = slots_ok (lv_eng s)" by (rule slots_ok_tasks) simp
  moreover have "get_active (lv_mgr ?s') k \<noteq> None \<Longrightarrow> get_active (lv_mgr s) k \<noteq> None \<or> k = cr_Name r" for k
    by (auto simp: readings_def get_active_def active_process_result [OF ok] split: if_splits)
  moreover have "manager_ok (lv_mgr ?s')" using ok by (simp add: readings_def)
  moreover have "sched_ok (lv_sched ?s')" "sn_checks (lv_sched ?s') = sn_checks (lv_sched s)"
    "sn_results (lv_sched ?s') = c"
    using inv by (simp_all add: live_inv_def)
  ultimately show ?thesis using inv src unfolding live_inv_def by metis
qed

lemma live_inv_eng:
  assumes inv: "live_inv pf rt A s" and "slots_ok e" and "same_active (ca_agent (lv_eng s)) (ca_agent e)"
  shows "live_inv pf rt A (s\<lparr>lv_eng := e\<rparr>)"
  using assms by (simp add: live_inv_def same_active_def)

lemma slots_ok_dispatch: "slots_ok e \<Longrightarrow> slots_ok (dispatch ev e)"
  by (simp add: dispatch_def slots_ok_def slots_used_def split: option.splits)

lemma dispatch_agent [simp]: "ca_agent (dispatch ev e) = ca_agent e"
  by (simp add: dispatch_def split: option.splits)

lemma live_inv_event:
  assumes inv: "live_inv pf rt A s" and rc: "recv (mg_events (lv_mgr s)) = Some (ev, c)"
    and s1: "s1 = set_mgr ((lv_mgr s)\<lparr>mg_events := c\<rparr>) s"
  shows "live_inv pf rt A (s1\<lparr>lv_eng := dispatch ev (lv_eng s1)\<rparr>)"
proof -
  have "manager_ok (lv_mgr s)" using inv by (simp add: live_inv_def)
  then have ok: "manager_ok (lv_mgr s1)"
    using rc by (simp add: s1 manager_ok_def chan_ok_def recv_Some)
  have "slots_ok (lv_eng s1) = slots_ok (lv_eng s)" by (rule slots_ok_tasks) (simp add: s1)
  with inv slots_ok_dispatch have "slots_ok (dispatch ev (lv_eng s1))" by (simp add: live_inv_def)
  moreover have "lv_sched s1 = lv_sched s" "get_active (lv_mgr s1) = get_active (lv_mgr s)"
    by (simp_all add: s1 get_active_def fun_eq_iff)
  ultimately show ?thesis using inv ok by (simp add: live_inv_def)
qed

lemma live_inv_watch:
  assumes inv: "live_inv pf rt A s" and wa: "rt_KubeWatcher rt = Some wa"
    and ev: "process_event obj (sn_results (lv_sched s), w0) = (c, w)"
  shows "live_inv pf rt A (set_world w (set_results c s))"
proof -
  have "sourced (pf_probes pf) (rt_Config rt) (rt_KubeWatcher rt) (cr_Name r)" if new: "r \<in> set (ch_buf c)" for r
  proof (cases "r \<in> set (ch_buf (sn_results (lv_sched s)))")
    case True
    with inv show ?thesis by (simp add: live_inv_def)
  next
    case False
    obtain e where e: "obj = KubeEvent e" using ev new False by (cases obj) auto
    with ev new False have "failure_event e" "r = event_result e (fst (time_now w0))"
      unfolding e process_event_iff by (auto simp: try_send_def split: if_splits)
    with wa show ?thesis by (auto simp: sourced_def event_result_def)
  qed
  moreover have "slots_ok (lv_eng (set_world w (set_results c s))) = slots_ok (lv_eng s)"
    by (rule slots_ok_tasks) simp
  ultimately show ?thesis using inv by (simp add: live_inv_def)
qed

lemma live_inv_step:
  assumes "live_step pf rt s s'" and inv: "live_inv pf rt A s"
    and rt: "sd_checks (rt_CheckScheduler rt) = scheduled (pf_probes pf) (c_Checks (rt_Config rt))"
  shows "live_inv pf rt A s'"
  using assms(1)
proof cases
  case (l_sched sch)
  with live_inv_sched [OF inv rt] show ?thesis by blast
next
  case (l_result r c ag)
  with live_inv_result [OF inv] show ?thesis by blast
next
  case (l_event ev c s1)
  with live_inv_event [OF inv] show ?thesis by blast
next
  case (l_task e)
  have "manager_ok (lv_mgr s)" "slots_ok (lv_eng s)" using inv by (simp_all add: live_inv_def)
  with l_task cstep_same_active slots_ok_step show ?thesis
    by (metis live_inv_eng [OF inv])
next
  case (l_watch wa obj c w)
  with live_inv_watch [OF inv] show ?thesis by blast
next
  case (l_stream c run lk st ch)
  then have "rec_reporter (mg_recorder (lv_mgr s)) = Some c" "lk_client (sm_link run) = c"
    "lk_buffer (sm_link run) = rec_buffer (mg_recorder (lv_mgr s))" by (simp_all add: link_of_def)
  with live_reporter [OF inv this(1)] l_stream show ?thesis
    by (auto intro!: live_inv_client [OF inv] client_ok_stream_step stream_step_buffer)
next
  case (l_connect c cw)
  with live_reporter [OF inv l_connect(2)] client_ok_connect [of "(c, lv_world s)" "pf_grpc pf"] show ?thesis
    by (auto intro!: live_inv_client [OF inv])
next
  case (l_disconnect c cw)
  with live_reporter [OF inv l_disconnect(2)] mark_disconnected_ok [of "(c, lv_world s)" "pf_grpc pf"] show ?thesis
    by (auto intro!: live_inv_client [OF inv])
next
  case l_uptime
  have "slots_ok (lv_eng s') = slots_ok (lv_eng s)" by (rule slots_ok_tasks) (simp add: l_uptime)
  with inv show ?thesis by (simp add: l_uptime live_inv_def manager_ok_def get_active_def)
qed

lemma live_inv_reach:
  assumes "live_reach pf rt s s'" and "live_inv pf rt A s"
    and "sd_checks (rt_CheckScheduler rt) = scheduled (pf_probes pf) (c_Checks (rt_Config rt))"
  shows "live_inv pf rt A s'"
  using assms(1,2) by (induction rule: live_reach.induct) (auto intro: live_inv_step assms(3))

lemma live_inv_start:
  assumes "manager_ok (ag_mgr (rt_Agent rt))" and "rt_checkResults rt = make_chan 256"
  shows "live_inv pf rt {k. get_active (ag_mgr (rt_Agent rt)) k \<noteq> None} (start_runtime rt)"
  using assms
  by (simp add: live_inv_def start_runtime_def sched_ok_new slots_ok_def slots_used_def)
    (simp add: make_chan_def)


end
