(* ===== verification/Cli.thy ===== *)
theory Cli
  imports Runtime_Props
begin

text \<open>
  The commands of the binary (\<open>cmd/agent/main.go\<close>): \<open>run\<close> with its flags from loading the file to
  the exit, \<open>validate\<close>, \<open>init\<close> and \<open>version\<close>. Parsing the command line is left to its package:
  the definitions start from the values of the flags.
\<close>

section \<open>run\<close>

text \<open>The file system, the environment and the YAML decoder.\<close>

record files =
  fl_read :: "string \<Rightarrow> goerror + string"
  fl_getenv :: "string \<Rightarrow> string"
  fl_yaml :: "string \<Rightarrow> config \<Rightarrow> goerror + config"

datatype run_error =
    LoadingConfig load_error
  | InitializingRuntime new_error
  | AgentError goerror
  | ShutdownError goerror

definition override_level :: "string \<Rightarrow> config \<Rightarrow> config" where
  "override_level level cfg =
     (if level \<noteq> '''' then cfg\<lparr>c_Logging := (c_Logging cfg)\<lparr>lc_Level := level\<rparr>\<rparr> else cfg)"

definition run_setup ::
  "files \<Rightarrow> ('db, 'e) platform \<Rightarrow> string \<Rightarrow> string \<Rightarrow> 'e world
   \<Rightarrow> run_error + ('db, 'e) runtime" where
  "run_setup fl pf configPath logLevel w =
     (case load_from_file (fl_read fl) (fl_getenv fl) (fl_yaml fl) configPath of
        Inl e \<Rightarrow> Inl (LoadingConfig e)
      | Inr cfg \<Rightarrow>
          (case new_runtime pf (override_level logLevel cfg) w of
             Inl (e, _) \<Rightarrow> Inl (InitializingRuntime e)
           | Inr rt \<Rightarrow> Inr rt))"

text \<open>What ends the wait: \<open>Start\<close> returning, or the signal.\<close>

datatype run_end = StartReturned "goerror option" | Signalled

definition run_finish ::
  "('db, 'e) platform \<Rightarrow> ('db, 'e) runtime \<Rightarrow> run_end \<Rightarrow> ('db bolt_store, 'e) agent
   \<Rightarrow> run_error option \<times> ('db bolt_store, 'e) agent" where
  "run_finish pf rt ending ag =
     (case ending of
        StartReturned (Some e) \<Rightarrow> (Some (AgentError e), ag)
      | _ \<Rightarrow>
          (case shutdown pf rt ag of
             (Some e, ag') \<Rightarrow> (Some (ShutdownError e), ag')
           | (None, ag') \<Rightarrow> (None, ag')))"

section \<open>The other commands\<close>

definition validate_command :: "files \<Rightarrow> string \<Rightarrow> load_error + string" where
  "validate_command fl configPath =
     (case load_from_file (fl_read fl) (fl_getenv fl) (fl_yaml fl) configPath of
        Inl e \<Rightarrow> Inl e
      | Inr _ \<Rightarrow> Inr ''Configuration is valid.'')"

datatype init_error = MarshalingConfig goerror | WritingConfig string goerror

text \<open>\<open>Inr\<close>: the text printed and what was written to the file.\<close>

definition init_command ::
  "(config \<Rightarrow> goerror + string) \<Rightarrow> (string \<Rightarrow> string \<Rightarrow> goerror option) \<Rightarrow> string
   \<Rightarrow> init_error + string \<times> (string \<times> string) option" where
  "init_command marshal write_file out =
     (case marshal default_config of
        Inl e \<Rightarrow> Inl (MarshalingConfig e)
      | Inr data \<Rightarrow>
          if out \<noteq> '''' then
            (case write_file out data of
               Some e \<Rightarrow> Inl (WritingConfig out e)
             | None \<Rightarrow> Inr (''Configuration written to '' @ out, Some (out, data)))
          else Inr (data, None))"

definition version_lines :: "string \<Rightarrow> string \<Rightarrow> string \<Rightarrow> string list" where
  "version_lines version commit built =
     [''uptimy-agent '' @ version, ''  commit: '' @ commit, ''  built:  '' @ built]"

section \<open>From a file to an agent\<close>

lemma loaded_config:
  assumes "load_from_file rf ge yaml path = Inr cfg"
  shows "valid_config cfg \<and> 1 \<le> tc_BufferSize (c_Telemetry cfg)"
proof -
  from assms obtain c0 where d: "validate c0 = (None, cfg)"
    by (auto simp: load_from_file_def split: sum.splits prod.splits option.splits)
  have cfg: "cfg = with_buffer_size c0" by (rule validate_Some_config [OF d])
  have "valid_config c0" using validate_None [of c0] d by simp
  then have "valid_config (with_buffer_size c0)"
    by (auto simp: valid_config_def with_buffer_size_def rule_config_ok_def)
  then show ?thesis unfolding cfg by (simp add: with_buffer_size_def)
qed

lemma override_level_ok:
  "valid_config (override_level l cfg) = valid_config cfg"
  "c_Telemetry (override_level l cfg) = c_Telemetry cfg" "c_Checks (override_level l cfg) = c_Checks cfg"
  "c_Kubernetes (override_level l cfg) = c_Kubernetes cfg" "c_Agent (override_level l cfg) = c_Agent cfg"
  "c_Repairs (override_level l cfg) = c_Repairs cfg" "c_Recipes (override_level l cfg) = c_Recipes cfg"
  "c_ControlPlane (override_level l cfg) = c_ControlPlane cfg"
  by (simp_all add: override_level_def valid_config_def rule_config_ok_def)

lemma run_setup_Inr:
  assumes "run_setup fl pf path level w = Inr rt"
  obtains cfg where "load_from_file (fl_read fl) (fl_getenv fl) (fl_yaml fl) path = Inr cfg"
    and "new_runtime pf (override_level level cfg) w = Inr rt"
    and "valid_config (override_level level cfg)"
    and "1 \<le> tc_BufferSize (c_Telemetry (override_level level cfg))"
proof -
  from assms obtain cfg where "load_from_file (fl_read fl) (fl_getenv fl) (fl_yaml fl) path = Inr cfg"
    "new_runtime pf (override_level level cfg) w = Inr rt"
    by (auto simp: run_setup_def split: sum.splits prod.splits)
  with loaded_config [OF this(1)] that show thesis by (simp add: override_level_ok)
qed

text \<open>A file that loads becomes an agent unless the logger or the store fails.\<close>

lemma run_setup_Inl:
  assumes "run_setup fl pf path level w = Inl e"
  shows "(\<exists>x. e = LoadingConfig x) \<or> (\<exists>x. e = InitializingRuntime (NewLogger x))
     \<or> (\<exists>x. e = InitializingRuntime (NewStorage x))"
proof (cases "load_from_file (fl_read fl) (fl_getenv fl) (fl_yaml fl) path")
  case (Inl x)
  with assms show ?thesis by (auto simp: run_setup_def)
next
  case (Inr cfg)
  have v: "valid_config (override_level level cfg)" "1 \<le> tc_BufferSize (c_Telemetry (override_level level cfg))"
    using loaded_config [OF Inr] by (simp_all add: override_level_ok)
  show ?thesis
    by (rule new_runtime_cases [OF v, of pf w]) (use Inr assms in \<open>auto simp: run_setup_def\<close>)
qed

text \<open>After a clean end the client is disconnected and the store closed; an agent error skips both.\<close>

lemma shutdown_result: "fst (shutdown pf rt ag) = None"
  by (simp add: shutdown_def Let_def case_prod_beta split: option.splits)

lemma shutdown_closes:
  assumes "manager_ok (ag_mgr ag)"
  shows "bs_closed_once (mg_store (ag_mgr (snd (shutdown pf rt ag))))
     \<and> (\<forall>c. rec_reporter (mg_recorder (ag_mgr (snd (shutdown pf rt ag)))) = Some c \<longrightarrow> \<not> is_connected c)"
proof -
  have "\<not> is_connected (fst (snd (disconnect (pf_grpc pf) (c, w))))"
    if "rec_reporter (mg_recorder (ag_mgr ag)) = Some c" for c w
    using assms that disconnect_disconnects [of "(c, w)" "pf_grpc pf"]
    by (simp add: manager_ok_def recorder_ok_def)
  then show ?thesis
    by (auto simp: shutdown_def Let_def case_prod_beta bolt_close_def with_db_def split: option.splits)
qed

lemma run_finish_cases:
  assumes "manager_ok (ag_mgr ag)"
  shows "(\<exists>e. ending = StartReturned (Some e) \<and> run_finish pf rt ending ag = (Some (AgentError e), ag))
     \<or> fst (run_finish pf rt ending ag) = None
        \<and> bs_closed_once (mg_store (ag_mgr (snd (run_finish pf rt ending ag))))"
  using shutdown_result [of pf rt ag] shutdown_closes [OF assms, of pf rt]
  by (auto simp: run_finish_def case_prod_beta split: run_end.splits option.splits)

end
