(* ===== verification/Json_Views.thy ===== *)
theory Json_Views
  imports Storage Checks Telemetry
begin

text \<open>
  The JSON renderings of check results (\<open>internal/checks/check.go\<close>) and of the telemetry buffer
  (\<open>internal/telemetry/buffer.go\<close>): an absent error and absent metadata are left out, the buffer is
  written oldest first and keeps its events. \<open>es\<close> is the text of an error.
\<close>

definition string_fields :: "string gmap \<Rightarrow> jvalue" where
  "string_fields m = JObject (map (\<lambda>(k, v). (k, JString v)) m)"

definition marshal_check_result :: "('err \<Rightarrow> string) \<Rightarrow> 'err check_result \<Rightarrow> store_error + jvalue" where
  "marshal_check_result es r =
     (let err = (case cr_Error r of None \<Rightarrow> '''' | Some e \<Rightarrow> es e)
      in if \<not> time_writable (cr_Timestamp r)
         then Inl (MarshalError ''year outside of range [0,9999]'')
         else Inr (JObject
           ([(''name'', JString (cr_Name r)), (''service'', JString (cr_Service r)),
             (''status'', JString (check_status_string (cr_Status r))),
             (''timestamp'', JTime (cr_Timestamp r)), (''duration'', JNumber (cr_Duration r))]
            @ (if cr_Metadata r = [] then [] else [(''metadata'', string_fields (cr_Metadata r))])
            @ (if err = '''' then [] else [(''error'', JString err)]))))"

definition marshal_event :: "telemetry_event \<Rightarrow> store_error + jvalue" where
  "marshal_event e =
     (if \<not> time_writable (te_Timestamp e)
      then Inl (MarshalError ''year outside of range [0,9999]'')
      else Inr (JObject [(''type'', JString (te_Type e)), (''timestamp'', JTime (te_Timestamp e)),
                         (''data'', string_fields (te_Data e))]))"

fun marshal_events :: "telemetry_event list \<Rightarrow> store_error + jvalue list" where
  "marshal_events [] = Inr []"
| "marshal_events (e # es) =
     (case marshal_event e of
        Inl x \<Rightarrow> Inl x
      | Inr j \<Rightarrow> (case marshal_events es of Inl x \<Rightarrow> Inl x | Inr js \<Rightarrow> Inr (j # js)))"

definition marshal_ring :: "ring_buffer \<Rightarrow> store_error + jvalue list" where
  "marshal_ring rb = marshal_events (ring_snapshot rb)"

text \<open>The error text can be read back from the document: it is there exactly when it is not empty.\<close>

lemma marshalled_error:
  assumes "marshal_check_result es r = Inr (JObject fs)"
  shows "field_string ''error'' fs = Inr (case cr_Error r of None \<Rightarrow> '''' | Some e \<Rightarrow> es e)"
  using assms by (auto simp: marshal_check_result_def field_string_def Let_def split: if_splits option.splits)

lemma marshal_events_length: "marshal_events es = Inr js \<Longrightarrow> length js = length es"
  by (induction es arbitrary: js) (auto split: sum.splits)

lemma marshal_ring_all:
  "marshal_ring rb = Inr js \<Longrightarrow> length js = ring_len rb"
  using marshal_events_length [of "ring_snapshot rb" js]
  by (simp add: marshal_ring_def ring_snapshot_def ring_len_def)

end
