(* ===== verification/Engine_Schedules.thy ===== *)
theory Engine_Schedules
  imports Engine_Concurrent
begin

text \<open>
  \<open>run_repair\<close> leaves out the results and events that reach the manager during a repair; the engine
  with goroutines has them. The engine without overlap is one schedule of the engine with goroutines: a waiting task that gets a
  slot can run to its end, and with nothing in between it does to the agent what \<open>handle_incident\<close>
  does. So every run of \<open>Engine_Runs\<close> is a run of \<open>Engine_Concurrent\<close>. The
  last section has what a repair does when results do come in between.
\<close>

lemma creach_trans:
  assumes "creach ops en a b" and "creach ops en b c"
  shows "creach ops en a c"
  using assms(2,1) by (induction rule: creach.induct) (auto intro: creach_step)

lemma set_task_overwrite [simp]:
  "i < length (ca_tasks s) \<Longrightarrow> set_task i t ag (set_task i t' ag' s) = set_task i t ag s"
  by (simp add: set_task_def)

lemma ca_tasks_set_task [simp]: "ca_tasks (set_task i t ag s) = (ca_tasks s)[i := t]"
  by (simp add: set_task_def)

lemma set_task_same: "ca_tasks s ! i = t \<Longrightarrow> set_task i t (ca_agent s) s = s"
  by (auto simp: set_task_def)

section \<open>One task alone\<close>

lemma attempts_schedule:
  assumes i: "i < length (ca_tasks s)" and act: "action_get (en_actions en) (st_ActionName step) = Some act"
    and "attempt_loop act step n k dur l (ag_gr ag, ag_world ag) = (sr, g, w)"
  shows "creach ops en (set_task i (TAttempting inc rule rcp t step steps srs n k dur l) ag s)
     (set_task i (TRunning inc rule rcp t steps (sr_Status sr = RecipeFailed) (srs @ [sr]))
        (ag\<lparr>ag_gr := g, ag_world := w\<rparr>) s)"
  using assms(3)
proof (induction n arbitrary: k dur l ag)
  case 0
  let ?at = "set_task i (TAttempting inc rule rcp t step steps srs 0 k dur l) ag s"
  from 0 have "sr = step_exhausted step k dur l" "ag\<lparr>ag_gr := g, ag_world := w\<rparr> = ag"
    by (auto simp: step_exhausted_def)
  with c_exhaust [of i ?at inc rule rcp t step steps srs k dur l ops en] i show ?case
    by (simp add: creach_one step_exhausted_def)
next
  case (Suc n)
  let ?at = "set_task i (TAttempting inc rule rcp t step steps srs (Suc n) k dur l) ag s"
  obtain err d w3 where once: "attempt_once act step (ag_world ag) = (err, d, w3)" by (metis prod.collapse)
  note attempt = c_attempt [of i ?at inc rule rcp t step steps srs n k dur l en act err d w3 ops]
  show ?case
  proof (cases err)
    case (Some e)
    with Suc.prems once have "attempt_loop act step n (k + 1) (dur + d) (Some e)
        (ag_gr (ag\<lparr>ag_world := w3\<rparr>), ag_world (ag\<lparr>ag_world := w3\<rparr>)) = (sr, g, w)"
      by (auto simp: attempt_once_def Let_def split: prod.splits)
    from creach_trans [OF creach_one Suc.IH [OF this]] attempt i act once Some show ?thesis by simp
  next
    case None
    obtain g4 w4 where rec: "record_action_execution (st_ActionName step) (ag_gr ag) w3 = (g4, w4)"
      by (metis prod.collapse)
    with Suc.prems once None have sr: "sr = step_succeeded step (k + 1) (dur + d)" "g = g4" "w = w4"
      by (auto simp: attempt_once_def step_succeeded_def Let_def split: prod.splits)
    let ?ok = "set_task i (TSucceeded inc rule rcp t step steps srs sr) (ag\<lparr>ag_world := w3\<rparr>) s"
    have "cstep ops en ?at ?ok" using attempt i act once None sr by simp
    moreover have "cstep ops en ?ok (set_task i (TRunning inc rule rcp t steps False (srs @ [sr]))
        (ag\<lparr>ag_gr := g, ag_world := w\<rparr>) s)"
      using c_succeed [of i ?ok inc rule rcp t step steps srs sr g w ops en] i rec sr by simp
    moreover have "sr_Status sr \<noteq> RecipeFailed" by (simp add: sr(1) step_succeeded_def)
    ultimately show ?thesis by (auto intro: creach_step creach_one)
  qed
qed

lemma step_schedule:
  assumes i: "i < length (ca_tasks s)" and run: "\<not> (st_OnFailureOnly step \<and> \<not> p)"
    and ex: "execute_step en step (ag_gr ag, ag_world ag) = (sr, g, w)"
  shows "creach ops en (set_task i (TRunning inc rule rcp t (step # steps) p srs) ag s)
     (set_task i (TRunning inc rule rcp t steps (sr_Status sr = RecipeFailed) (srs @ [sr]))
        (ag\<lparr>ag_gr := g, ag_world := w\<rparr>) s)"
proof -
  let ?at = "set_task i (TRunning inc rule rcp t (step # steps) p srs) ag s"
  obtain blocked w1 where check: "check_action (st_ActionName step) (ag_gr ag) (ag_world ag) = (blocked, w1)"
    by (metis prod.collapse)
  show ?thesis
  proof (cases blocked)
    case (Some e)
    with ex check have sr: "sr = failed_step step (GuardrailBlocked e)" "ag_gr ag = g" "w1 = w"
      by (auto simp: execute_step_def)
    with c_blocked [of i ?at inc rule rcp t step steps p srs e w1 ops en] i run check Some show ?thesis
      by (auto intro: creach_one simp: failed_step_def)
  next
    case None
    show ?thesis
    proof (cases "action_get (en_actions en) (st_ActionName step)")
      case missing: None
      with None ex check have sr: "sr = failed_step step (ActionNotFound (st_ActionName step))" "ag_gr ag = g" "w1 = w"
        by (auto simp: execute_step_def)
      with c_missing [of i ?at inc rule rcp t step steps p srs w1 en ops] i run check None missing show ?thesis
        by (auto intro: creach_one simp: failed_step_def)
    next
      case (Some act)
      let ?ag = "ag\<lparr>ag_world := w1\<rparr>"
      have "attempt_loop act step (nat (max_attempts step)) 0 0 None (ag_gr ?ag, ag_world ?ag) = (sr, g, w)"
        using ex check None Some by (simp add: execute_step_def)
      from attempts_schedule [OF i Some this, of ops inc rule rcp t steps srs]
        c_permit [of i ?at inc rule rcp t step steps p srs w1 en act ops] i run check None Some
      show ?thesis by (auto intro: creach_trans [OF creach_one])
    qed
  qed
qed

lemma steps_schedule:
  assumes "i < length (ca_tasks s)"
    and "run_steps en steps p (ag_gr ag, ag_world ag) = (rs, g, w)"
  shows "\<exists>q. creach ops en (set_task i (TRunning inc rule rcp t steps p srs) ag s)
     (set_task i (TRunning inc rule rcp t [] q (srs @ rs)) (ag\<lparr>ag_gr := g, ag_world := w\<rparr>) s)"
  using assms(2)
proof (induction steps arbitrary: p ag srs rs)
  case Nil
  then have "rs = []" "ag\<lparr>ag_gr := g, ag_world := w\<rparr> = ag" by auto
  then show ?case by (auto intro: creach_refl)
next
  case (Cons step steps)
  let ?at = "\<lambda>p xs. TRunning inc rule rcp t xs p"
  show ?case
  proof (cases "st_OnFailureOnly step \<and> \<not> p")
    case True
    obtain rs' gw where "run_steps en steps p (ag_gr ag, ag_world ag) = (rs', gw)" by (metis prod.collapse)
    with True Cons.prems have rs: "run_steps en steps p (ag_gr ag, ag_world ag) = (rs', g, w)"
      "rs = skipped_step step # rs'" by (simp_all add: run_steps_skip)
    have "cstep ops en (set_task i (?at p (step # steps) srs) ag s)
        (set_task i (?at p steps (srs @ [skipped_step step])) ag s)"
      using c_skip [of i "set_task i (?at p (step # steps) srs) ag s" inc rule rcp t step steps p srs] True assms(1) by simp
    with Cons.IH [OF rs(1), of "srs @ [skipped_step step]"] rs(2) show ?thesis
      by (auto intro: creach_trans [OF creach_one])
  next
    case False
    obtain sr g1 w1 where ex: "execute_step en step (ag_gr ag, ag_world ag) = (sr, g1, w1)"
      by (metis prod.collapse)
    let ?ag1 = "ag\<lparr>ag_gr := g1, ag_world := w1\<rparr>" and ?p1 = "sr_Status sr = RecipeFailed"
    have "run_steps en (step # steps) p (ag_gr ag, ag_world ag) =
        (case run_steps en steps ?p1 (g1, w1) of (rs', gw') \<Rightarrow> (sr # rs', gw'))"
      using False ex by (subst run_steps_exec) (auto simp: case_prod_beta)
    with Cons.prems obtain rs' where rs: "run_steps en steps ?p1 (ag_gr ?ag1, ag_world ?ag1) = (rs', g, w)"
      "rs = sr # rs'" by (auto split: prod.splits)
    have "creach ops en (set_task i (?at p (step # steps) srs) ag s)
        (set_task i (?at ?p1 steps (srs @ [sr])) ?ag1 s)"
      by (rule step_schedule [OF assms(1) False ex])
    with Cons.IH [OF rs(1), of "srs @ [sr]"] rs(2) show ?thesis
      by (auto intro: creach_trans)
  qed
qed

text \<open>
  From admission to the last transition, and what the manager is by then: the incident of the check is
  marked as repairing and nothing else has changed.
\<close>

lemma repair_reported:
  assumes i: "i < length (ca_tasks s)"
  obtains ok ag' where
    "creach ops en (set_task i (TAdmitted inc rule rcp) ag s) (set_task i (TReported inc ok) ag' s)"
    and "run_repair ops en inc rule rcp ag =
      engine_set_status ops (inc_CheckName inc) (if ok then StatusVerifying else StatusFailed) ag'"
    and "mg_active (ag_mgr ag') = mg_active (ag_mgr (engine_set_status ops (inc_CheckName inc) StatusRepairing ag))"
    and "manager_ok (ag_mgr ag) \<Longrightarrow> manager_ok (ag_mgr ag') \<and> mg_idCounter (ag_mgr ag') = mg_idCounter (ag_mgr ag)"
proof -
  let ?st = "\<lambda>t ag. set_task i t ag s"
  define ag1 where "ag1 = engine_set_status ops (inc_CheckName inc) StatusRepairing ag"
  define ag2 where "ag2 = engine_recorder
    (\<lambda>now. record_repair_started now (inc_ID inc) (rr_Rule rule) (wf_Name rcp)) ag1"
  obtain t1 w1 where t1: "time_now (ag_world ag2) = (t1, w1)" by (metis prod.collapse)
  obtain rs g2 w2 where rs: "run_steps en (wf_Steps rcp) False (ag_gr ag2, w1) = (rs, g2, w2)"
    by (metis prod.collapse)
  obtain t3 w3 where t3: "time_now w2 = (t3, w3)" by (metis prod.collapse)
  obtain stat err where ov: "overall_status (rev rs) = (stat, err)" by (metis prod.collapse)
  define res where "res = \<lparr>res_RecipeName = wf_Name rcp, res_IncidentID = inc_ID inc, res_Status = stat,
           res_StepResults = rs, res_StartedAt = t1, res_FinishedAt = t3, res_Error = err\<rparr>"
  have ex: "execute_recipe en rcp (inc_ID inc) (ag_gr ag2, ag_world ag2) = (res, g2, w3)"
    by (simp add: execute_recipe_def t1 rs t3 ov res_def)
  obtain g4 w4 where rec: "record_repair (rr_Rule rule) g2 w3 = (g4, w4)" by (metis prod.collapse)
  define ag4 where "ag4 = persist_result ops res rule (ag2\<lparr>ag_gr := g4, ag_world := w4\<rparr>)"
  define ok where "ok = (res_Status res = RecipeSuccess)"
  define ag5 where "ag5 = engine_recorder
    (\<lambda>now. record_repair_completed now (inc_ID inc) (rr_Rule rule) (wf_Name rcp)
       (if ok then ''success'' else ''failed'') (res_FinishedAt res - res_StartedAt res)) ag4"
  have goal: "run_repair ops en inc rule rcp ag =
      engine_set_status ops (inc_CheckName inc) (if ok then StatusVerifying else StatusFailed) ag5"
    by (simp only: run_repair_def Let_def ag1_def [symmetric] ag2_def [symmetric] ex rec prod.case
        ag4_def [symmetric] ok_def [symmetric] ag5_def [symmetric])
  have mark: "cstep ops en (?st (TAdmitted inc rule rcp) ag) (?st (TMarked inc rule rcp) ag1)"
    using c_mark [of i "?st (TAdmitted inc rule rcp) ag"] i by (simp add: ag1_def)
  have begin_run: "cstep ops en (?st (TMarked inc rule rcp) ag1)
      (?st (TRunning inc rule rcp t1 (wf_Steps rcp) False []) (ag2\<lparr>ag_world := w1\<rparr>))"
    using c_start [of i "?st (TMarked inc rule rcp) ag1" inc rule rcp ag2 t1 w1] i t1 by (simp add: ag2_def)
  obtain q where run: "creach ops en (?st (TRunning inc rule rcp t1 (wf_Steps rcp) False []) (ag2\<lparr>ag_world := w1\<rparr>))
      (?st (TRunning inc rule rcp t1 [] q rs) (ag2\<lparr>ag_gr := g2, ag_world := w2\<rparr>))"
    using steps_schedule [OF i, of en "wf_Steps rcp" False "ag2\<lparr>ag_world := w1\<rparr>" rs g2 w2 ops inc rule rcp t1 "[]"] rs
    by auto
  have finish: "cstep ops en (?st (TRunning inc rule rcp t1 [] q rs) (ag2\<lparr>ag_gr := g2, ag_world := w2\<rparr>))
      (?st (TFinished inc rule rcp res) (ag2\<lparr>ag_gr := g2, ag_world := w3\<rparr>))"
    using c_finish [of i "?st (TRunning inc rule rcp t1 [] q rs) (ag2\<lparr>ag_gr := g2, ag_world := w2\<rparr>)"
        inc rule rcp t1 q rs t3 w3 stat err] i t3 ov by (simp add: res_def)
  have recorded: "cstep ops en (?st (TFinished inc rule rcp res) (ag2\<lparr>ag_gr := g2, ag_world := w3\<rparr>))
      (?st (TRecorded inc rule rcp res) (ag2\<lparr>ag_gr := g4, ag_world := w4\<rparr>))"
    using c_record [of i "?st (TFinished inc rule rcp res) (ag2\<lparr>ag_gr := g2, ag_world := w3\<rparr>)"] i rec by simp
  have persist: "cstep ops en (?st (TRecorded inc rule rcp res) (ag2\<lparr>ag_gr := g4, ag_world := w4\<rparr>))
      (?st (TPersisted inc rule rcp res) ag4)"
    using c_persist [of i "?st (TRecorded inc rule rcp res) (ag2\<lparr>ag_gr := g4, ag_world := w4\<rparr>)"] i
    by (simp add: ag4_def)
  have report: "cstep ops en (?st (TPersisted inc rule rcp res) ag4) (?st (TReported inc ok) ag5)"
    using c_report [of i "?st (TPersisted inc rule rcp res) ag4" inc rule rcp res ok] i
    by (simp add: ag5_def ok_def)
  have reach: "creach ops en (?st (TAdmitted inc rule rcp) ag) (?st (TReported inc ok) ag5)"
    by (rule creach_step [OF creach_step [OF creach_step [OF creach_step
        [OF creach_trans [OF creach_step [OF creach_one [OF mark] begin_run] run]
        finish] recorded] persist] report])
  have active: "mg_active (ag_mgr ag5) = mg_active (ag_mgr ag1)"
    by (simp add: ag5_def ag4_def ag2_def)
  have "manager_ok (ag_mgr ag5) \<and> mg_idCounter (ag_mgr ag5) = mg_idCounter (ag_mgr ag)" if m: "manager_ok (ag_mgr ag)"
  proof
    have "manager_ok (ag_mgr ag1)" using m by (simp add: ag1_def ag_mgr_set_status)
    then have "manager_ok (ag_mgr ag2)" unfolding ag2_def by (rule manager_ok_repair_started)
    then have "manager_ok (ag_mgr ag4)" unfolding ag4_def by (intro manager_ok_persist_result) simp
    then show "manager_ok (ag_mgr ag5)" unfolding ag5_def by (rule manager_ok_repair_completed)
    show "mg_idCounter (ag_mgr ag5) = mg_idCounter (ag_mgr ag)"
      by (simp add: ag5_def ag4_def ag2_def ag1_def ag_mgr_set_status counter_set_status [OF m])
  qed
  then show thesis by (rule that [OF reach goal active [unfolded ag1_def]])
qed

lemma repair_schedule:
  assumes i: "i < length (ca_tasks s)"
  shows "creach ops en (set_task i (TAdmitted inc rule rcp) ag s)
     (set_task i TDone (run_repair ops en inc rule rcp ag) s)"
proof (rule repair_reported [OF i, of ops en inc rule rcp ag])
  fix ok ag'
  assume reach: "creach ops en (set_task i (TAdmitted inc rule rcp) ag s) (set_task i (TReported inc ok) ag' s)"
    and run: "run_repair ops en inc rule rcp ag =
      engine_set_status ops (inc_CheckName inc) (if ok then StatusVerifying else StatusFailed) ag'"
  have "cstep ops en (set_task i (TReported inc ok) ag' s) (set_task i TDone (run_repair ops en inc rule rcp ag) s)"
    using c_done [of i "set_task i (TReported inc ok) ag' s" inc ok] i by (simp add: run)
  with reach show ?thesis by (rule creach_step)
qed

lemma task_schedule:
  assumes i: "i < length (ca_tasks s)" and "ca_tasks s ! i = TWaiting snap"
    and "slots_used (ca_tasks s) < max_concurrent"
  shows "creach ops en s (set_task i TDone (handle_incident ops en snap (ca_agent s)) s)"
proof -
  let ?h = "set_task i (THandling snap) (ca_agent s) s"
  have acquire: "creach ops en s ?h" by (rule creach_one [OF c_acquire [OF assms]])
  have "creach ops en ?h (set_task i TDone (handle_incident ops en snap (ca_agent s)) s)"
  proof (cases "gget (en_rules en) (inc_CheckName snap) = None \<or> inc_Status snap \<noteq> StatusOpen")
    case True
    have "cstep ops en ?h (set_task i TDone (ca_agent s) s)"
      using c_no_rule [of i ?h snap en] True i by simp
    moreover have "handle_incident ops en snap (ca_agent s) = ca_agent s"
      using True by (auto simp: handle_incident_def split: option.splits)
    ultimately show ?thesis by (simp add: creach_one)
  next
    case False
    then obtain rule where rule: "gget (en_rules en) (inc_CheckName snap) = Some rule"
      "inc_Status snap = StatusOpen" by auto
    show ?thesis
    proof (cases "accepted en snap (ca_agent s)")
      case None
      have "cstep ops en ?h (set_task i TDone (after_rate_check rule (ca_agent s)) s)"
        using c_refuse [of i ?h snap en rule] None rule i by simp
      moreover have "handle_incident ops en snap (ca_agent s) = after_rate_check rule (ca_agent s)"
        using None rule
        by (auto simp: accepted_def handle_incident_def after_rate_check_def Let_def case_prod_beta
            split: option.splits if_splits)
      ultimately show ?thesis by (simp add: creach_one)
    next
      case (Some x)
      then obtain rule' rcp where acc: "accepted en snap (ca_agent s) = Some (rule', rcp)" by (cases x) simp
      have "cstep ops en ?h (set_task i (TAdmitted snap rule' rcp) (after_rate_check rule' (ca_agent s)) s)"
        using c_admit [of i ?h snap en rule' rcp] acc i by simp
      moreover have "handle_incident ops en snap (ca_agent s) =
          run_repair ops en snap rule' rcp (after_rate_check rule' (ca_agent s))"
        by (rule handle_incident_cases [of en snap "ca_agent s" ops]) (simp_all add: acc)
      ultimately show ?thesis using creach_trans [OF creach_one repair_schedule [OF i]] by simp
    qed
  qed
  with acquire show ?thesis by (rule creach_trans)
qed

section \<open>A run without overlap\<close>

text \<open>The tasks that are done do not count, so each operation of a run can follow the one before.\<close>

lemma op_schedule:
  fixes x :: "goerror agent_op"
  assumes "\<forall>t \<in> set ts. t = TDone"
  shows "\<exists>ts'. (\<forall>t \<in> set ts'. t = TDone)
     \<and> creach ops en \<lparr>ca_agent = ag, ca_tasks = ts\<rparr> \<lparr>ca_agent = agent_step ops en x ag, ca_tasks = ts'\<rparr>"
proof (cases x)
  case (AgResult r)
  have "cstep ops en \<lparr>ca_agent = ag, ca_tasks = ts\<rparr> \<lparr>ca_agent = agent_step ops en x ag, ca_tasks = ts\<rparr>"
    using c_result [of ops en "\<lparr>ca_agent = ag, ca_tasks = ts\<rparr>" r] by (simp add: AgResult)
  with assms creach_one show ?thesis by blast
next
  case (AgEvent ev)
  let ?s = "\<lparr>ca_agent = ag, ca_tasks = ts\<rparr>"
  show ?thesis
  proof (cases "triggers (ev_Type ev) \<and> get_active (ag_mgr ag) (inc_CheckName (ev_Incident ev)) \<noteq> None")
    case False
    then have "agent_step ops en x ag = ag"
      by (auto simp: AgEvent on_event_def split: option.splits)
    with assms show ?thesis by (auto intro: creach_refl)
  next
    case True
    then obtain snap where snap: "get_active (ag_mgr ag) (inc_CheckName (ev_Incident ev)) = Some snap" by blast
    let ?s1 = "\<lparr>ca_agent = ag, ca_tasks = ts @ [TWaiting snap]\<rparr>"
    have "cstep ops en ?s ?s1" using c_dispatch [of ev ?s snap] True snap by simp
    moreover have "filter holds_slot ts = []" using assms by (auto simp: filter_empty_conv)
    then have "creach ops en ?s1 (set_task (length ts) TDone (handle_incident ops en snap ag) ?s1)"
      using task_schedule [of "length ts" ?s1 snap ops en] by (simp add: slots_used_def max_concurrent_def)
    moreover have "agent_step ops en x ag = handle_incident ops en snap ag"
      using True snap by (simp add: AgEvent on_event_def)
    ultimately have "creach ops en ?s \<lparr>ca_agent = agent_step ops en x ag, ca_tasks = ts @ [TDone]\<rparr>"
      using creach_trans [OF creach_one] by (fastforce simp: set_task_def)
    with assms show ?thesis by (intro exI [of _ "ts @ [TDone]"]) simp
  qed
qed

lemma run_schedule:
  fixes xs :: "goerror agent_op list"
  assumes "\<forall>t \<in> set ts. t = TDone"
  shows "\<exists>ts'. (\<forall>t \<in> set ts'. t = TDone)
     \<and> creach ops en \<lparr>ca_agent = ag, ca_tasks = ts\<rparr> \<lparr>ca_agent = agent_run ops en xs ag, ca_tasks = ts'\<rparr>"
  using assms
proof (induction xs arbitrary: ag ts)
  case Nil
  then show ?case by (auto intro: creach_refl)
next
  case (Cons x xs)
  from op_schedule [OF Cons.prems, of ops en ag x] obtain ts1 where t1: "\<forall>t \<in> set ts1. t = TDone"
    "creach ops en \<lparr>ca_agent = ag, ca_tasks = ts\<rparr> \<lparr>ca_agent = agent_step ops en x ag, ca_tasks = ts1\<rparr>" by blast
  from Cons.IH [OF t1(1), of "agent_step ops en x ag"] creach_trans [OF t1(2)] show ?case by auto
qed

section \<open>Results during a repair\<close>

lemma active_own_name: "manager_ok m \<Longrightarrow> get_active m k = Some inc \<Longrightarrow> inc_CheckName inc = k"
  by (simp add: manager_ok_def active_ok_def get_active_def)

text \<open>
  The last transition sets the status by the name of the check: it moves whichever incident is active
  under it by then.
\<close>

lemma last_transition:
  assumes "manager_ok (ag_mgr (ca_agent s))" and "i < length (ca_tasks s)" and "ca_tasks s ! i = TReported inc ok"
  shows "\<exists>s' t. cstep ops en s s' \<and> ca_tasks s' = (ca_tasks s)[i := TDone]
     \<and> (\<forall>k. get_active (ag_mgr (ca_agent s')) k =
          (if k = inc_CheckName inc
           then map_option (\<lambda>x. x\<lparr>inc_Status := if ok then StatusVerifying else StatusFailed, inc_UpdatedAt := t\<rparr>)
                  (get_active (ag_mgr (ca_agent s)) k)
           else get_active (ag_mgr (ca_agent s)) k))"
proof -
  let ?s' = "set_task i TDone (engine_set_status ops (inc_CheckName inc)
      (if ok then StatusVerifying else StatusFailed) (ca_agent s)) s"
  have "cstep ops en s ?s'" by (rule c_done [OF assms(2,3)])
  moreover have "\<exists>t. \<forall>k. get_active (ag_mgr (ca_agent ?s')) k =
          (if k = inc_CheckName inc
           then map_option (\<lambda>x. x\<lparr>inc_Status := if ok then StatusVerifying else StatusFailed, inc_UpdatedAt := t\<rparr>)
                  (get_active (ag_mgr (ca_agent s)) k)
           else get_active (ag_mgr (ca_agent s)) k)"
    by (intro exI allI) (auto simp: ag_mgr_set_status get_active_def active_set_status [OF assms(1)]
        split: option.splits)
  moreover have "ca_tasks ?s' = (ca_tasks s)[i := TDone]" by simp
  ultimately show ?thesis by blast
qed

text \<open>
  While a recipe runs, its check may recover and fail again. The incident that was repaired is then
  resolved, and the end of the repair moves its successor, which is still open.
\<close>

definition check_report :: "string \<Rightarrow> check_status \<Rightarrow> goerror check_result" where
  "check_report c st = \<lparr>cr_Name = c, cr_Service = '''', cr_Status = st, cr_Error = None,
     cr_Timestamp = 0, cr_Duration = 0, cr_Metadata = []\<rparr>"

lemma agent_result_active:
  "manager_ok (ag_mgr ag) \<Longrightarrow> manager_ok (ag_mgr (agent_step ops en (AgResult r) ag))"
  "manager_ok (ag_mgr ag) \<Longrightarrow> mg_idCounter (ag_mgr ag) \<le> mg_idCounter (ag_mgr (agent_step ops en (AgResult r) ag))"
  "manager_ok (ag_mgr ag) \<Longrightarrow> cr_Status r = CheckHealthy \<Longrightarrow>
     get_active (ag_mgr (agent_step ops en (AgResult r) ag)) (cr_Name r) = None"
  "manager_ok (ag_mgr ag) \<Longrightarrow> cr_Status r = CheckFailed \<Longrightarrow> get_active (ag_mgr ag) (cr_Name r) = None \<Longrightarrow>
     \<exists>new. get_active (ag_mgr (agent_step ops en (AgResult r) ag)) (cr_Name r) = Some new
       \<and> inc_ID new = inc_id_of (mg_idCounter (ag_mgr ag) + 1) \<and> inc_Status new = StatusOpen"
  by (auto simp: readings_def get_active_def active_process_result counter_process_result create_incident_def
      Let_def inc_id_of_def)

lemma repair_moves_successor:
  assumes ok: "manager_ok (ag_mgr ag)" and ids: "ids_ok (ag_mgr ag)"
    and cur: "get_active (ag_mgr ag) (inc_CheckName cur) = Some cur"
    and acc: "accepted en cur ag = Some (rule, rcp)"
  shows "\<exists>s new b. creach ops en \<lparr>ca_agent = ag, ca_tasks = []\<rparr> s
     \<and> manager_ok (ag_mgr (ca_agent s)) \<and> ca_tasks s = [TReported cur b]
     \<and> get_active (ag_mgr (ca_agent s)) (inc_CheckName cur) = Some new
     \<and> inc_ID new \<noteq> inc_ID cur \<and> inc_Status new = StatusOpen"
proof -
  let ?c = "inc_CheckName cur" and ?ag1 = "after_rate_check rule ag"
  define st where "st a t = \<lparr>ca_agent = a, ca_tasks = [t]\<rparr>" for a :: "('a, 'b) agent" and t
  define ev where "ev = \<lparr>ev_Incident = cur, ev_Type = EventOpened\<rparr>"
  have "cstep ops en \<lparr>ca_agent = ag, ca_tasks = []\<rparr> (st ag (TWaiting cur))"
    using c_dispatch [of ev "\<lparr>ca_agent = ag, ca_tasks = []\<rparr>" cur] cur by (simp add: st_def ev_def triggers_def)
  moreover have "cstep ops en (st ag (TWaiting cur)) (st ag (THandling cur))"
    using c_acquire [of 0 "st ag (TWaiting cur)" cur] by (simp add: st_def set_task_def slots_used_def max_concurrent_def)
  moreover have "cstep ops en (st ag (THandling cur)) (st ?ag1 (TAdmitted cur rule rcp))"
    using c_admit [of 0 "st ag (THandling cur)" cur en rule rcp] acc by (simp add: st_def set_task_def)
  ultimately have r1: "creach ops en \<lparr>ca_agent = ag, ca_tasks = []\<rparr> (st ?ag1 (TAdmitted cur rule rcp))"
    by (meson creach_one creach_step)
  have ok1: "manager_ok (ag_mgr ?ag1)" "mg_idCounter (ag_mgr ?ag1) = mg_idCounter (ag_mgr ag)"
    using ok by (simp_all add: after_rate_check_frame)
  obtain b ag2 where r2: "creach ops en (st ?ag1 (TAdmitted cur rule rcp)) (st ag2 (TReported cur b))"
    and ok2: "manager_ok (ag_mgr ag2)" "mg_idCounter (ag_mgr ag2) = mg_idCounter (ag_mgr ag)"
    by (rule repair_reported [of 0 "st ?ag1 TDone" ops en cur rule rcp ?ag1]) (use ok1 in \<open>simp_all add: st_def set_task_def\<close>)
  let ?ag3 = "agent_step ops en (AgResult (check_report ?c CheckHealthy)) ag2"
  let ?ag4 = "agent_step ops en (AgResult (check_report ?c CheckFailed)) ?ag3"
  have "cstep ops en (st ag2 (TReported cur b)) (st ?ag3 (TReported cur b))"
    using c_result [of ops en "st ag2 (TReported cur b)" "check_report ?c CheckHealthy"] by (simp add: st_def del: agent_step.simps)
  moreover have "cstep ops en (st ?ag3 (TReported cur b)) (st ?ag4 (TReported cur b))"
    using c_result [of ops en "st ?ag3 (TReported cur b)" "check_report ?c CheckFailed"] by (simp add: st_def del: agent_step.simps)
  ultimately have r4: "creach ops en (st ag2 (TReported cur b)) (st ?ag4 (TReported cur b))"
    by (meson creach_one creach_step)
  note ok3 = agent_result_active(1,2) [OF ok2(1), of ops en "check_report ?c CheckHealthy"]
  have none: "get_active (ag_mgr ?ag3) ?c = None"
    using agent_result_active(3) [OF ok2(1), of "check_report ?c CheckHealthy" ops en]
    by (simp add: check_report_def del: agent_step.simps)
  obtain new where new: "get_active (ag_mgr ?ag4) ?c = Some new"
    "inc_ID new = inc_id_of (mg_idCounter (ag_mgr ?ag3) + 1)" "inc_Status new = StatusOpen"
    using agent_result_active(4) [OF ok3(1), of "check_report ?c CheckFailed" ops en] none
    by (auto simp: check_report_def simp del: agent_step.simps)
  obtain n where "inc_ID cur = inc_id_of n" "n \<le> mg_idCounter (ag_mgr ag)"
    using ids cur unfolding ids_ok_def get_active_def by blast
  with new(2) ok3(2) ok2(2) have "inc_ID new \<noteq> inc_ID cur" by simp
  moreover have "manager_ok (ag_mgr ?ag4)" by (rule agent_result_active(1) [OF ok3(1)])
  ultimately show ?thesis
    using creach_trans [OF r1 creach_trans [OF r2 r4]] new(1,3)
    by (intro exI [of _ "st ?ag4 (TReported cur b)"] exI [of _ new] exI [of _ b]) (simp add: st_def del: agent_step.simps)
qed

end
