(* ===== verification/Scheduler_Stop.thy ===== *)
theory Scheduler_Stop
  imports Scheduler
begin

text \<open>
  That \<open>Stop\<close> returns. The \<open>select\<close> of a ticker may go on taking ticks after the context is
  cancelled, so a run after \<open>Stop\<close> has been called has no bound of its own; but a measure of the
  work left, goroutines still to be launched included, grows by at most five with a tick and falls with
  every other step, and there is always such a step until \<open>Stop\<close> has returned.
\<close>

section \<open>The work left\<close>

fun ticker_work :: "ticker \<Rightarrow> nat" where
  "ticker_work TkExited = 0"
| "ticker_work TkWaiting = 1"
| "ticker_work TkSending = 6"

fun worker_work :: "'err worker \<Rightarrow> nat" where
  "worker_work WkExited = 0"
| "worker_work WkIdle = 1"
| "worker_work (WkDelivering r) = 3"
| "worker_work (WkRunning i) = 4"

fun phase_work :: "stop_phase \<Rightarrow> nat" where
  "phase_work Stopped = 0"
| "phase_work AwaitWorkers = 1"
| "phase_work ClosingJobs = 2"
| "phase_work AwaitTickers = 3"
| "phase_work NotStopping = 4"

definition work_left :: "('err, 'e) sched_run \<Rightarrow> nat" where
  "work_left s =
     phase_work (sn_phase s) + (if sn_started s then 0 else 1) + (if sn_panicked s then 0 else 1)
     + 2 * (sn_pool s - length (sn_workers s)) + 7 * (length (sn_checks s) - length (sn_tickers s))
     + sum_list (map ticker_work (sn_tickers s))
     + 4 * length (ch_buf (sn_jobs s)) + sum_list (map worker_work (sn_workers s))
     + length (ch_buf (sn_results s))"

text \<open>A repeated cancellation, or a tick.\<close>

definition idle_step :: "('err, 'e) sched_run \<Rightarrow> ('err, 'e) sched_run \<Rightarrow> bool" where
  "idle_step s s' \<longleftrightarrow> s' = s\<lparr>sn_cancelled := True\<rparr>
     \<or> (\<exists>i < length (sn_tickers s). sn_tickers s ! i = TkWaiting \<and> s' = set_ticker i TkSending s)"

lemma idle_frame:
  assumes "idle_step s s'"
  shows "sn_phase s' = sn_phase s" and "sn_workers s' = sn_workers s"
    and "\<And>i. i < length (sn_tickers s) \<Longrightarrow> sn_tickers s' ! i = TkExited \<Longrightarrow> sn_tickers s ! i = TkExited"
  using assms by (auto simp: idle_step_def nth_list_update split: if_splits)

lemma sum_list_map_update:
  fixes f :: "'a \<Rightarrow> nat"
  assumes "i < length xs"
  shows "sum_list (map f (xs[i := y])) + f (xs ! i) = sum_list (map f xs) + f y"
  using assms by (induction xs arbitrary: i) (auto simp: less_Suc_eq_0_disj)

lemma work_set_ticker:
  assumes "i < length (sn_tickers s)"
  shows "work_left (set_ticker i t s) + ticker_work (sn_tickers s ! i) = work_left s + ticker_work t"
  using sum_list_map_update [OF assms, of ticker_work t] by (simp add: work_left_def)

lemma work_set_worker:
  assumes "j < length (sn_workers s)"
  shows "work_left (set_worker j wk s) + worker_work (sn_workers s ! j) = work_left s + worker_work wk"
  using sum_list_map_update [OF assms, of worker_work wk] by (simp add: work_left_def)

lemma work_idle:
  assumes "idle_step s s'"
  shows "work_left s' \<le> work_left s + 5"
  using assms unfolding idle_step_def
proof (elim disjE exE conjE)
  assume "s' = s\<lparr>sn_cancelled := True\<rparr>"
  then show ?thesis by (simp add: work_left_def)
next
  fix i
  assume "i < length (sn_tickers s)" "sn_tickers s ! i = TkWaiting" "s' = set_ticker i TkSending s"
  with work_set_ticker [of i s TkSending] show ?thesis by simp
qed

lemma work_step:
  assumes "sched_step s s'" and "\<not> idle_step s s'"
  shows "work_left s' < work_left s"
  using assms(1)
proof cases
  case s_begin
  then show ?thesis by (simp add: work_left_def begin_start_def make_chan_def)
next
  case s_stop
  then show ?thesis by (simp add: work_left_def begin_stop_def)
next
  case s_cancel
  with assms(2) show ?thesis by (simp add: idle_step_def)
next
  case (s_tick i)
  with assms(2) show ?thesis by (auto simp: idle_step_def)
next
  case (s_send i c)
  with work_set_ticker [of i "s\<lparr>sn_jobs := c\<rparr>" TkWaiting] show ?thesis
    by (auto simp: try_send_True work_left_def)
next
  case (s_ticker_exit i)
  with work_set_ticker [of i s TkExited] show ?thesis by (cases "sn_tickers s ! i") simp_all
next
  case (s_take j i c)
  with work_set_worker [of j "s\<lparr>sn_jobs := c\<rparr>" "WkRunning i"] show ?thesis
    by (auto simp: recv_Some work_left_def)
next
  case (s_no_more j)
  with work_set_worker [of j s WkExited] show ?thesis by simp
next
  case (s_run j i r w)
  with work_set_worker [of j "s\<lparr>sn_world := w\<rparr>" "WkDelivering r"] show ?thesis
    by (auto simp: work_left_def)
next
  case (s_deliver j r c)
  with work_set_worker [of j "s\<lparr>sn_results := c\<rparr>" WkIdle] show ?thesis
    by (auto simp: try_send_True work_left_def)
next
  case (s_worker_exit j r)
  with work_set_worker [of j s WkExited] show ?thesis by auto
next
  case (s_consume r c)
  then show ?thesis by (auto simp: recv_Some work_left_def)
qed (simp_all add: work_left_def)

section \<open>Runs\<close>

text \<open>A run of \<open>n\<close> steps, \<open>k\<close> of them idle.\<close>

inductive sched_run_of ::
  "('err, 'e) sched_run \<Rightarrow> nat \<Rightarrow> nat \<Rightarrow> ('err, 'e) sched_run \<Rightarrow> bool" for s where
  run_none: "sched_run_of s 0 0 s"
| run_idle: "sched_run_of s n k s' \<Longrightarrow> sched_step s' s'' \<Longrightarrow> idle_step s' s'' \<Longrightarrow>
    sched_run_of s (Suc n) (Suc k) s''"
| run_work: "sched_run_of s n k s' \<Longrightarrow> sched_step s' s'' \<Longrightarrow> \<not> idle_step s' s'' \<Longrightarrow>
    sched_run_of s (Suc n) k s''"

lemma run_bound:
  assumes "sched_run_of s n k s'"
  shows "n + work_left s' \<le> work_left s + 6 * k"
  using assms
proof (induction rule: sched_run_of.induct)
  case (run_idle n k s' s'')
  with work_idle [OF run_idle.hyps(3)] show ?case by auto
next
  case (run_work n k s' s'')
  with work_step [OF run_work.hyps(2,3)] show ?case by auto
qed simp

lemma stop_progress:
  assumes ok: "data_ok s" and c: "sn_cancelled s" and p: "sn_phase s \<noteq> NotStopping" "sn_phase s \<noteq> Stopped"
  shows "\<exists>s'. sched_step s s' \<and> \<not> idle_step s s'"
proof -
  have phase: "\<not> idle_step s s'" if "sn_phase s' \<noteq> sn_phase s" for s'
    using idle_frame(1) [of s s'] that by auto
  consider "sn_phase s = AwaitTickers" | "sn_phase s = ClosingJobs" | "sn_phase s = AwaitWorkers"
    using p by (cases "sn_phase s") auto
  then show ?thesis
  proof cases
    case 1
    show ?thesis
    proof (cases "\<forall>t \<in> set (sn_tickers s). t = TkExited")
      case True
      with s_tickers_done [OF 1] phase [of "s\<lparr>sn_phase := ClosingJobs\<rparr>"] 1 show ?thesis by auto
    next
      case False
      then obtain i where i: "i < length (sn_tickers s)" "sn_tickers s ! i \<noteq> TkExited"
        by (metis in_set_conv_nth)
      with s_ticker_exit [OF i c] idle_frame(3) [of s "set_ticker i TkExited s" i] show ?thesis by auto
    qed
  next
    case 2
    with s_close [OF 2] phase [of "s\<lparr>sn_closed := sn_taken s, sn_phase := AwaitWorkers\<rparr>"] show ?thesis by auto
  next
    case 3
    show ?thesis
    proof (cases "\<forall>w \<in> set (sn_workers s). w = WkExited")
      case True
      with s_workers_done [OF 3] phase [of "s\<lparr>sn_phase := Stopped\<rparr>"] 3 show ?thesis by auto
    next
      case False
      then obtain j where j: "j < length (sn_workers s)" "sn_workers s ! j \<noteq> WkExited"
        by (metis in_set_conv_nth)
      have w: "\<not> idle_step s s'" if "sn_workers s' ! j \<noteq> sn_workers s ! j" for s'
        using idle_frame(2) [of s s'] that by auto
      show ?thesis
      proof (cases "\<exists>i. sn_workers s ! j = WkRunning i")
        case True
        then obtain i where r: "sn_workers s ! j = WkRunning i" by blast
        obtain res w1 where run: "ck_Run (sn_checks s ! i) (sn_world s) = (res, w1)"
          by (cases "ck_Run (sn_checks s ! i) (sn_world s)")
        have "i < length (sn_checks s)"
          using data_ok_worker [OF ok j(1)] r by (simp add: worker_ok_def)
        from s_run [OF j(1) r this run] w [of "set_worker j (WkDelivering res) (s\<lparr>sn_world := w1\<rparr>)"] j r
        show ?thesis by auto
      next
        case False
        then obtain r where "sn_workers s ! j = WkIdle \<or> sn_workers s ! j = WkDelivering r"
          using j(2) by (cases "sn_workers s ! j") auto
        from s_worker_exit [OF j(1) this c] w [of "set_worker j WkExited s"] j show ?thesis by auto
      qed
    qed
  qed
qed

end
