(* ===== verification/Samples.thy ===== *)
theory Samples
  imports Manager_Persistence Cli Json_Views Engine_Schedules Scheduler_Stop "HOL-Library.AList"
begin

text \<open>
  Concrete surroundings on which the properties are applied: a database in memory that keeps the
  documented laws of BoltDB, a small manager, an agent with one rule, actions that do nothing.
\<close>

section \<open>A database in memory\<close>

type_synonym mem_db = "string \<Rightarrow> (string \<times> stored) list"

definition mem_api :: "mem_db bolt_api" where
  "mem_api =
     \<lparr>ba_put = (\<lambda>bk k v db.
        if k = '''' then (Some ''key required'', db)
        else if 32768 < length k then (Some ''key too large'', db)
        else (None, db(bk := AList.update k v (db bk)))),
      ba_delete = (\<lambda>bk k db. (None, db(bk := AList.delete k (db bk)))),
      ba_get = (\<lambda>bk k db. Inr (map_of (db bk) k)),
      ba_list = (\<lambda>bk db. Inr (AList.clearjunk (db bk))),
      ba_create_bucket = (\<lambda>bk db. (None, db)),
      ba_close = (\<lambda>db. (None, db))\<rparr>"

definition mem_content :: "mem_db \<Rightarrow> string \<Rightarrow> string \<Rightarrow> stored option" where
  "mem_content db bk = map_of (db bk)"

lemma mem_update:
  "mem_content (db(bk := AList.update k v (db bk))) = (mem_content db)(bk := (mem_content db bk)(k \<mapsto> v))"
  "mem_content (db(bk := AList.delete k (db bk))) = (mem_content db)(bk := (mem_content db bk)(k := None))"
  by (simp_all add: mem_content_def fun_eq_iff update_conv' delete_conv')

lemma mem_laws: "bolt_laws mem_api mem_content"
  unfolding bolt_laws_def
  by (auto simp: mem_api_def mem_update split: if_splits) (simp_all add: mem_content_def map_of_clearjunk)

definition mem_store :: "mem_db bolt_store" where
  "mem_store = \<lparr>bs_db = (\<lambda>bk. []), bs_closed_once = False\<rparr>"

lemma mem_inv: "bolt_inv mem_api mem_content mem_store"
  by (simp add: bolt_inv_def mem_laws mem_store_def mem_content_def)

lemma mem_content_empty: "bolt_content mem_content mem_store = Map.empty"
  by (simp add: bolt_content_def mem_store_def mem_content_def fun_eq_iff)

lemma mem_save:
  assumes "marshal_incident i = Inr d" and "si_ID i \<noteq> []" and "length (si_ID i) \<le> 32768"
  shows "fst (bolt_save_incident mem_api i s) = None"
  using assms by (simp add: bolt_save_incident_def with_db_def mem_api_def)

lemma mem_list_no_error: "bolt_inv mem_api mem_content s \<Longrightarrow> snd (bolt_list_incidents mem_api s) = None"
  by (rule bolt_list_no_error) (simp_all add: mem_api_def)

section \<open>A manager\<close>

definition sample_recorder :: recorder where
  "sample_recorder = new_recorder new_metrics (the (new_ring_buffer 4))"

lemma sample_recorder_ok [simp]: "recorder_ok sample_recorder"
  by (simp add: sample_recorder_def new_recorder_def recorder_ok_def new_ring_buffer_def ring_ok_def
      new_metrics_def)

definition sample_clock :: "nat \<Rightarrow> gotime" where
  "sample_clock n = int n * go_Second"

lemma sample_clock_mono: "mono sample_clock"
  by (simp add: mono_def sample_clock_def)

definition sample_manager :: "mem_db bolt_store manager" where
  "sample_manager = new_manager sample_clock mem_store (make_chan 8) sample_recorder"

lemma sample_manager_ok: "manager_ok sample_manager"
  by (simp add: sample_manager_def manager_ok_new)

lemma sample_manager_ids: "ids_ok sample_manager"
  by (simp add: sample_manager_def ids_ok_new)

lemma sample_manager_simps [simp]:
  "mg_active sample_manager = []" "mg_idCounter sample_manager = 0" "mg_store sample_manager = mem_store"
  by (simp_all add: sample_manager_def new_manager_def sample_clock_def unix_milli_def)

definition sample_result :: "check_status \<Rightarrow> goerror check_result" where
  "sample_result st =
     \<lparr>cr_Name = ''api'', cr_Service = ''web'', cr_Status = st,
      cr_Error = (if st = CheckHealthy then None else Some ''down''), cr_Timestamp = 0,
      cr_Duration = go_Second, cr_Metadata = []\<rparr>"

section \<open>An agent\<close>

definition sample_rule :: repair_rule_config where
  "sample_rule = \<lparr>rr_Rule = ''r'', rr_Check = ''api'', rr_Recipe = ''fix'', rr_MaxRepairsPerHour = 2\<rparr>"

definition sample_step :: recipe_step where
  "sample_step = \<lparr>st_Name = ''fix-step-0'', st_ActionName = ''wait'', st_Retries = 1, st_Timeout = 0,
     st_OnFailureOnly = False, st_Params = None\<rparr>"

definition sample_recipe :: recipe where
  "sample_recipe = \<lparr>wf_Name = ''fix'', wf_Steps = [sample_step]\<rparr>"

definition noop_action :: "string \<Rightarrow> unit action" where
  "noop_action n = \<lparr>a_Name = n, a_Execute = (\<lambda>t p w. (None, w))\<rparr>"

definition sample_engine :: "unit engine" where
  "sample_engine = \<lparr>en_actions = [(''wait'', noop_action ''wait'')], en_rules = [(''api'', sample_rule)],
     en_recipes = [(''fix'', sample_recipe)]\<rparr>"

lemma sample_engine_clocked: "clocked_actions sample_engine"
  by (auto simp: clocked_actions_def sample_engine_def action_get_def gget_def noop_action_def
      clocked_action_def keeps_clock_def split: if_splits)

definition sample_world :: "unit world" where
  "sample_world = \<lparr>w_clock = sample_clock, w_reads = 0, w_env = ()\<rparr>"

definition sample_agent :: "(mem_db bolt_store, unit) agent" where
  "sample_agent = \<lparr>ag_mgr = sample_manager, ag_gr = set_max_repairs_per_hour ''r'' 2 new_guardrails,
     ag_world = sample_world\<rparr>"

lemma sample_agent_simps [simp]:
  "clock_monotone (ag_world sample_agent)" "gget (gr_maxRepairs (ag_gr sample_agent)) ''r'' = Some 2"
  "history (ag_gr sample_agent) ''r'' = []" "ag_mgr sample_agent = sample_manager"
  by (simp_all add: sample_agent_def sample_world_def clock_monotone_def sample_clock_mono
      set_max_repairs_per_hour_def new_guardrails_def history_def gget_def gset_def gget_or_def)

text \<open>The check fails, and the event of its incident leads to one repair.\<close>

definition sample_opened :: incident_event where
  "sample_opened = \<lparr>ev_Incident = fst (create_incident sample_clock (sample_result CheckFailed) sample_manager),
     ev_Type = EventOpened\<rparr>"

lemma sample_admitted:
  fixes ops :: "mem_db bolt_store store_ops"
  defines "ag \<equiv> agent_step ops sample_engine (AgResult (sample_result CheckFailed)) sample_agent"
  obtains snap where "get_active (ag_mgr ag) ''api'' = Some snap" and "inc_CheckName snap = ''api''"
    and "inc_Status snap = StatusOpen" and "accepted sample_engine snap ag = Some (sample_rule, sample_recipe)"
    and "history (ag_gr ag) ''r'' = []" and "gget (gr_maxRepairs (ag_gr ag)) ''r'' = Some 2"
proof -
  have g: "ag_gr ag = ag_gr sample_agent" by (simp add: ag_def readings_def)
  obtain snap where s: "get_active (ag_mgr ag) ''api'' = Some snap" "inc_CheckName snap = ''api''"
    "inc_Status snap = StatusOpen"
    by (auto simp: ag_def readings_def get_active_def active_process_result [OF sample_manager_ok]
        sample_result_def create_incident_def Let_def)
  have "accepted sample_engine snap ag = Some (sample_rule, sample_recipe)"
    by (rule accepted_unlimited(1))
      (use s g in \<open>simp_all add: sample_engine_def sample_rule_def gget_def sample_agent_def
        history_def set_max_repairs_per_hour_def new_guardrails_def gset_def gget_or_def\<close>)
  with that s g show thesis by simp
qed

lemma sample_repair:
  fixes ops :: "mem_db bolt_store store_ops"
  shows "\<exists>i t. repair_log ops sample_engine [AgResult (sample_result CheckFailed), AgEvent sample_opened]
     sample_agent = [(''r'', i, t)]"
proof (rule sample_admitted [of ops])
  fix snap
  let ?ag = "agent_step ops sample_engine (AgResult (sample_result CheckFailed)) sample_agent"
  assume snap: "get_active (ag_mgr ?ag) ''api'' = Some snap"
    and acc: "accepted sample_engine snap ?ag = Some (sample_rule, sample_recipe)"
  have "accepted_by sample_engine (AgEvent sample_opened :: goerror agent_op) ?ag = Some (snap, sample_rule)"
    using snap acc
    by (simp add: sample_opened_def triggers_def create_incident_def Let_def sample_result_def
        del: agent_step.simps)
  then show ?thesis by (simp add: Let_def sample_rule_def del: agent_step.simps accepted_by.simps(2))
qed

section \<open>Probes and a system on which nothing happens\<close>

definition sample_probes :: "'e probes" where
  "sample_probes =
     \<lparr>pb_new_request = (\<lambda>m u. None), pb_http_do = (\<lambda>t m u h e. (Inr 200, e)),
      pb_tcp_dial = (\<lambda>t a e. (Some ''refused'', e)), pb_cpu_percent = (\<lambda>t e. (([Fin 5], None), e)),
      pb_memory = (\<lambda>t e. (Inl ''no memory statistics'', e)),
      pb_disk = (\<lambda>t p e. (Inl ''no disk statistics'', e)),
      pb_is_active = (\<lambda>t s e. ((''active'', None), e)), pb_processes = (\<lambda>t e. (Inr [], e)),
      pb_split_host = (\<lambda>u. None), pb_tls_dial = (\<lambda>t h u e. (Inr None, e)),
      pb_read_file = (\<lambda>p e. (Inl ''no such file'', e)), pb_pem_decode = (\<lambda>d. None),
      pb_parse_cert = (\<lambda>d. Inl ''bad certificate''), pb_rfc3339 = (\<lambda>t. ''1970-01-01T00:00:00Z''),
      pb_docker_client = (\<lambda>e. (None, e)), pb_inspect = (\<lambda>t n e. (Inl ''no such container'', e)),
      pb_docker_info = (\<lambda>t e. (Inl ''no docker'', e))\<rparr>"

text \<open>The environment of this system is the list of the files removed and the commands run.\<close>

definition sample_number :: "string \<Rightarrow> int option" where
  "sample_number s = (if s \<noteq> [] \<and> list_all is_digit s then Some (int (dec_val s)) else None)"

definition sample_system :: "string list system" where
  "sample_system =
     \<lparr>sy_sleep = (\<lambda>t d e. (None, e)), sy_command = (\<lambda>t argv e. (([], None), e @ argv)),
      sy_docker_client = (\<lambda>e. (None, e)), sy_container_start = (\<lambda>t c e. (None, e)),
      sy_container_stop = (\<lambda>t c d e. (None, e)), sy_container_restart = (\<lambda>t c d e. (None, e)),
      sy_container_inspect = (\<lambda>t c e. (Inr None, e)), sy_service_inspect = (\<lambda>t s e. (Inl ''none'', e)),
      sy_service_update = (\<lambda>t s e. (None, e)),
      sy_sscan = (\<lambda>s d. case sample_number s of Some n \<Rightarrow> (n, None) | None \<Rightarrow> (d, Some ''expected integer'')),
      sy_sscanf_d = sample_number,
      sy_abs = (\<lambda>p e. Inr p), sy_ctx_err = (\<lambda>t e. None),
      sy_walk = (\<lambda>p e. [\<lparr>we_Path = p @ ''/a.tmp'', we_Error = None, we_IsDir = False,
                          we_Name = ''a.tmp'', we_Info = Inr \<lparr>fi_ModTime = -(2 * 24 * go_Hour), fi_Size = 10\<rparr>\<rparr>]),
      sy_match = (\<lambda>p n. p = n), sy_remove = (\<lambda>p e. (None, e @ [p])), sy_look_path = (\<lambda>n e. False),
      sy_create_temp = (\<lambda>e. (Inr ''/tmp/logrotate-1.conf'', e)), sy_write_temp = (\<lambda>f c e. (None, e)),
      sy_close_temp = (\<lambda>f e. (None, e)), sy_stat = (\<lambda>p e. Inr 5), sy_stamp = (\<lambda>t. ''19700101-000000''),
      sy_rename = (\<lambda>a b e. (None, e)), sy_create = (\<lambda>p e. (None, e)), sy_open = (\<lambda>p e. None),
      sy_truncate = (\<lambda>p n e. (None, e)), sy_parse_url = (\<lambda>u. Inr (''https'', ''host'')),
      sy_json = (\<lambda>m. ''{}''), sy_json_headers = (\<lambda>h. None), sy_new_request = (\<lambda>m u. None),
      sy_http_do = (\<lambda>c t r e. (Inr \<lparr>wp_StatusCode = 200, wp_Body = []\<rparr>, e))\<rparr>"

definition sample_check_config :: "string \<Rightarrow> check_config" where
  "sample_check_config ty =
     \<lparr>cc_Name = ''db'', cc_Type = ty, cc_Service = ''web'', cc_URL = [], cc_Method = [],
      cc_ExpectedStatus = 0, cc_Address = ''db:5432'', cc_Headers = [], cc_Interval = go_Minute,
      cc_Timeout = 0, cc_Threshold = Fin 0, cc_Path = [], cc_ProcessName = [], cc_ServiceName = [],
      cc_CertURL = [], cc_CertPath = [], cc_DaysBeforeExpiry = 0, cc_ContainerName = []\<rparr>"

section \<open>One delivery of the scheduler\<close>

definition sample_check :: "(goerror, unit) check" where
  "sample_check = \<lparr>ck_Name = ''api'', ck_Run = (\<lambda>w. (sample_result CheckFailed, w))\<rparr>"

text \<open>
  The scheduler starts its worker and its ticker; the worker takes the job of the ticker, runs the
  check and delivers its result.
\<close>

definition sample_delivered :: "(goerror, unit) sched_run" where
  "sample_delivered =
     \<lparr>sn_checks = [sample_check], sn_pool = 1, sn_started = True, sn_cancelled = False,
      sn_jobs = make_chan 1, sn_closed = False, sn_panicked = False, sn_tickers = [TkWaiting], sn_workers = [WkIdle],
      sn_results = (make_chan 4)\<lparr>ch_buf := [sample_result CheckFailed]\<rparr>,
      sn_phase = NotStopping, sn_taken = False, sn_early = False, sn_world = sample_world\<rparr>"

lemma sample_delivery:
  "sched_reach (new_run (add_check sample_check go_Second (new_scheduler 1)) (make_chan 4) sample_world)
     sample_delivered"
proof -
  let ?n = "new_run (add_check sample_check go_Second (new_scheduler 1)) (make_chan 4) sample_world"
  let ?b = "begin_start ?n"
  let ?w = "?b\<lparr>sn_workers := sn_workers ?b @ [WkIdle]\<rparr>"
  let ?s0 = "?w\<lparr>sn_tickers := sn_tickers ?w @ [TkSending]\<rparr>"
  let ?s1 = "set_ticker 0 TkWaiting (?s0\<lparr>sn_jobs := (make_chan 1)\<lparr>ch_buf := [0]\<rparr>\<rparr>)"
  let ?s2 = "set_worker 0 (WkRunning 0) (?s1\<lparr>sn_jobs := make_chan 1\<rparr>)"
  let ?s3 = "set_worker 0 (WkDelivering (sample_result CheckFailed)) (?s2\<lparr>sn_world := sample_world\<rparr>)"
  let ?s4 = "set_worker 0 WkIdle (?s3\<lparr>sn_results := (make_chan 4)\<lparr>ch_buf := [sample_result CheckFailed]\<rparr>\<rparr>)"
  note defs = begin_start_def new_run_def add_check_def new_scheduler_def make_chan_def try_send_def recv_def sample_check_def
  have "sched_step ?n ?b" by (rule s_begin) (simp add: defs)
  moreover have "sched_step ?b ?w" by (rule s_launch_worker) (simp_all add: defs)
  moreover have "sched_step ?w ?s0" by (rule s_launch_ticker) (simp_all add: defs)
  moreover have "sched_step ?s0 ?s1" by (rule s_send) (simp_all add: defs)
  moreover have "sched_step ?s1 ?s2" by (rule s_take) (simp_all add: defs)
  moreover have "sched_step ?s2 ?s3" by (rule s_run [where i = 0]) (simp_all add: defs)
  moreover have "sched_step ?s3 ?s4" by (rule s_deliver) (simp_all add: defs)
  ultimately have "sched_reach ?n ?s4" by (meson sr_refl sr_step)
  then show ?thesis by (simp add: sample_delivered_def defs)
qed

section \<open>A control plane that takes everything\<close>

text \<open>The environment is the list of the messages handed to the stream; nothing is ever received.\<close>

definition sample_grpc :: "agent_message list grpc" where
  "sample_grpc =
     \<lparr>gp_new_client = (\<lambda>ep tls e. (Inr 0, e)), gp_close = (\<lambda>c e. (None, e)),
      gp_open = (\<lambda>c md e. (Inr 0, e)),
      gp_send = (\<lambda>s m e. (if length e = 3 then Some ''broken pipe'' else None, e @ [m])),
      gp_recv = (\<lambda>s e. (Inl ''EOF'', e)), gp_close_send = (\<lambda>s e. (None, e)),
      gp_ctx_err = (\<lambda>e. None), gp_sleep = (\<lambda>d e. (False, e)), gp_hostname = (\<lambda>e. ''host''),
      gp_platform = (''linux'', ''amd64''), gp_version = ''dev''\<rparr>"

lemma sample_grpc_logs: "logs_sends sample_grpc (\<lambda>e. e)"
  by (simp add: logs_sends_def sample_grpc_def)

definition sample_link :: "agent_message list link" where
  "sample_link =
     \<lparr>lk_client = report_incident ''inc-1'' ''api'' ''web'' ''open'' 1 0
        (new_control_plane_client ''cp:443'' ''uuid'' ''key'' [WithTelemetryDrainer]),
      lk_buffer = the (new_ring_buffer 4), lk_updates = [],
      lk_world = \<lparr>w_clock = sample_clock, w_reads = 0, w_env = []\<rparr>\<rparr>"

lemma sample_link_ok: "client_ok (lk_client sample_link)"
  by (simp add: sample_link_def client_ok_new)

section \<open>A platform without a cluster\<close>

definition sample_cluster :: "'e cluster" where
  "sample_cluster =
     \<lparr>cu_getenv = (\<lambda>v e. ''''), cu_in_cluster_config = (\<lambda>e. Inl ''not in cluster''),
      cu_kubeconfig = (\<lambda>e. Inl ''no kubeconfig''), cu_new_for_config = (\<lambda>c e. Inl ''no cluster''),
      cu_ctx_err = (\<lambda>e. None), cu_sleep = (\<lambda>d e. (False, e))\<rparr>"

definition sample_kube_client :: "'e kube_client" where
  "sample_kube_client =
     \<lparr>kl_actions = \<lparr>kb_delete_pod = (\<lambda>t n s g e. (None, e)), kb_get_scale = (\<lambda>t n d e. (Inl ''none'', e)),
        kb_update_scale = (\<lambda>t n d s e. (None, e)), kb_get_deployment = (\<lambda>t n d e. (Inl ''none'', e)),
        kb_list_replica_sets = (\<lambda>t n s e. (Inl ''none'', e)), kb_patch_template = (\<lambda>t n d p e. (None, e))\<rparr>,
      kl_watch = (\<lambda>n e. (Inr 0, e)), kl_stop = (\<lambda>h e. e)\<rparr>"

definition sample_watcher :: "'e watcher" where
  "sample_watcher = new_watcher_with_client sample_kube_client ''''"

definition sample_event :: "string \<Rightarrow> kube_event" where
  "sample_event ns = \<lparr>ke_Type = ''Warning'', ke_Reason = ''BackOff'', ke_Message = ''restarting'',
     ke_Kind = ''Pod'', ke_Name = ''api-0'', ke_Namespace = ns\<rparr>"

lemma sample_event_failure [simp]: "failure_event (sample_event ns)"
  by (simp add: failure_event_def sample_event_def)


section \<open>A whole agent\<close>

definition silent_grpc :: "'e grpc" where
  "silent_grpc =
     \<lparr>gp_new_client = (\<lambda>ep tls e. (Inl ''unreachable'', e)), gp_close = (\<lambda>c e. (None, e)),
      gp_open = (\<lambda>c md e. (Inl ''unreachable'', e)), gp_send = (\<lambda>s m e. (Some ''unreachable'', e)),
      gp_recv = (\<lambda>s e. (Inl ''EOF'', e)), gp_close_send = (\<lambda>s e. (None, e)),
      gp_ctx_err = (\<lambda>e. None), gp_sleep = (\<lambda>d e. (False, e)), gp_hostname = (\<lambda>e. ''host''),
      gp_platform = (''linux'', ''amd64''), gp_version = ''dev''\<rparr>"

definition sample_platform :: "(mem_db, string list) platform" where
  "sample_platform =
     \<lparr>pf_zap = \<lparr>zp_unmarshal_level = (\<lambda>l. if l = ''info'' then Inr 0 else Inl ''unrecognized level''),
                zp_build = (\<lambda>c. None)\<rparr>,
      pf_bolt = mem_api, pf_mkdir = (\<lambda>p. None), pf_open_db = (\<lambda>p. Inr (\<lambda>bk. [])),
      pf_probes = sample_probes, pf_system = sample_system, pf_cluster = sample_cluster,
      pf_http = \<lparr>hs_serve = (\<lambda>a e. (ServerClosed, e)), hs_shutdown = (\<lambda>a e. (None, e))\<rparr>,
      pf_grpc = silent_grpc\<rparr>"

definition sample_config :: config where
  "sample_config = default_config\<lparr>c_Checks := [sample_check_config ''tcp''],
     c_Repairs := [\<lparr>rr_Rule = ''r'', rr_Check = ''db'', rr_Recipe = ''fix'', rr_MaxRepairsPerHour = 2\<rparr>],
     c_Recipes := [\<lparr>rc_Name = ''fix'', rc_Steps = []\<rparr>]\<rparr>"

lemma sample_config_valid: "valid_config sample_config"
  by (simp add: valid_config_def sample_config_def default_config_def sample_check_config_def check_config_ok_def
      recipe_config_ok_def rule_config_ok_def cp_enabled_def)

lemma sample_config_buffer: "1 \<le> tc_BufferSize (c_Telemetry sample_config)"
  by (simp add: sample_config_def default_config_def)

lemma sample_runtime_opens:
  "new_runtime sample_platform sample_config w \<noteq> Inl (NewLogger e, None)"
  "new_runtime sample_platform sample_config w \<noteq> Inl (NewStorage e', None)"
proof -
  have l: "new_logger (pf_zap sample_platform) (lc_Level (c_Logging sample_config)) (lc_Format (c_Logging sample_config))
      = Inr \<lparr>zc_Preset = ZapProduction, zc_Level = 0\<rparr>"
    by (simp add: new_logger_def sample_platform_def sample_config_def default_config_def)
  have s: "\<exists>st. new_bolt_store (pf_bolt sample_platform) (pf_mkdir sample_platform) (pf_open_db sample_platform)
      (stc_Path (c_Storage sample_config)) = Inr st"
    by (simp add: new_bolt_store_def sample_platform_def mem_api_def)
  from l s show "new_runtime sample_platform sample_config w \<noteq> Inl (NewLogger e, None)"
    "new_runtime sample_platform sample_config w \<noteq> Inl (NewStorage e', None)"
    by (auto simp: new_runtime_def case_prod_beta Let_def split: option.splits sum.splits)
qed

definition sample_files :: files where
  "sample_files = \<lparr>fl_read = (\<lambda>p. Inr ''agent:''), fl_getenv = (\<lambda>v. ''''), fl_yaml = (\<lambda>t c. Inr sample_config)\<rparr>"

lemma sample_setup:
  "\<exists>rt. run_setup sample_files sample_platform ''agent.yaml'' '''' w = Inr rt \<and> rt_Config rt = sample_config"
proof -
  have v: "fst (validate sample_config) = None" using validate_None sample_config_valid by blast
  then have "validate sample_config = (None, snd (validate sample_config))" by (metis prod.collapse)
  from validate_Some_config [OF this] sample_config_buffer have "snd (validate sample_config) = sample_config"
    by (simp add: with_buffer_size_def)
  with v have "validate sample_config = (None, sample_config)" by (metis prod.collapse)
  then have l: "load_from_file (fl_read sample_files) (fl_getenv sample_files) (fl_yaml sample_files) ''agent.yaml''
      = Inr sample_config" by (simp add: load_from_file_def sample_files_def)
  obtain rt where "new_runtime sample_platform sample_config w = Inr rt" "rt_Config rt = sample_config"
    using new_runtime_cases [OF sample_config_valid sample_config_buffer, of sample_platform w]
      sample_runtime_opens [of w] by metis
  with l show ?thesis by (simp add: run_setup_def override_level_def)
qed


end
