(* ===== verification/Spec2Isabelle.thy ===== *)
theory Spec2Isabelle
  imports Samples
begin

text \<open>
  A verification development for the Uptimy agent: a daemon that runs health checks, turns failures
  into incidents, repairs them by recipes of actions under guardrails, and reports to Prometheus and
  to a control plane. The theories below model its Go code; this one holds the properties, C1 to C40.

  \<^bold>\<open>The program.\<close> \<open>cmd/agent/main.go\<close> loads a file and calls \<open>New\<close>, \<open>Start\<close> and
  \<open>Shutdown\<close> of \<open>internal/runtime/runtime.go\<close>. \<open>New\<close> wires the parts. The scheduler runs
  each check on its interval and the Kubernetes watcher turns cluster events into results of the same
  form; both send to one channel. The incident manager takes the results, keeps one incident for each
  failing check, stores it, and sends an event for each change. The repair engine takes the events:
  for an open incident whose check has a rule it runs the recipe of the rule, within the hourly limit
  of the rule, and each step runs one registered action if the guardrails let it. Every part reports
  through the recorder, which updates the instruments, pushes an event into the telemetry buffer and
  queues a report for the control plane client, whose two loops send queues and buffer over a stream.

  \<^bold>\<open>Theories and files.\<close> A definition has the name of the function it translates, in Isabelle's
  spelling; a record has the fields of the struct behind a short prefix.
  \<^item> \<open>Prelude\<close>: Go itself: time, maps, channels, the clock, decimal numbers. \<open>Go_Strings\<close>,
    \<open>Go_Duration\<close>: what the agent uses of \<open>strings\<close>, \<open>os.Expand\<close> and the text of durations.
    \<open>Go_Float\<close>: rounding to \<open>float64\<close>, and durations as hours and seconds.
  \<^item> \<open>Config\<close>: \<open>internal/config\<close>, the types, defaults, \<open>Validate\<close> and \<open>LoadFromFile\<close>.
  \<^item> \<open>Checks\<close>, \<open>Scheduler\<close>, \<open>Scheduler_Stop\<close>: \<open>internal/checks\<close>. A run of the scheduler is
    the step relation \<open>sched_step\<close> over one state per goroutine, from before \<open>Start\<close>, whose launches
    are steps of their own, so that \<open>Stop\<close> can come at any point.
  \<^item> \<open>Checkers\<close>, \<open>Checkers_Props\<close>, \<open>Build\<close>: \<open>internal/plugins/checkers\<close>, the nine checks and
    \<open>BuildFromConfig\<close>.
  \<^item> \<open>Incident\<close>, \<open>Manager\<close>, \<open>Manager_Props\<close>, \<open>Manager_Persistence\<close>: \<open>internal/incidents\<close>.
  \<^item> \<open>Storage\<close>, \<open>Store_Interface\<close>: \<open>internal/storage\<close>.
  \<^item> \<open>Telemetry\<close>, \<open>Recorder\<close>, \<open>Platform\<close>, \<open>Json_Views\<close>: \<open>internal/telemetry\<close>,
    \<open>internal/metrics\<close>, \<open>internal/logging\<close> and the JSON renderings.
  \<^item> \<open>Actions\<close>, \<open>Guardrails\<close>, \<open>Engine\<close>: \<open>internal/repair\<close>. \<open>Engine_Props\<close> has what one step and
    one recipe do, \<open>Engine_Runs\<close> runs in which no two repairs overlap, \<open>Engine_Concurrent\<close> the step
    relation \<open>cstep\<close> in which they do and in which results arrive during a repair, \<open>Engine_Schedules\<close>
    that the former are among the latter, and what a repair does when results arrive during it.
  \<^item> \<open>Builtin_Actions\<close>, \<open>File_Actions\<close>, \<open>Actions_Props\<close>: \<open>internal/plugins/actions\<close>.
  \<^item> \<open>Watcher\<close>: \<open>internal/kubernetes\<close>. \<open>Client\<close>, \<open>Client_Stream\<close>, \<open>Client_Props\<close>:
    \<open>pkg/client/client.go\<close>.
  \<^item> \<open>Runtime\<close>, \<open>Runtime_Props\<close>, \<open>Cli\<close>: \<open>internal/runtime\<close> and \<open>cmd/agent\<close>. \<open>live_step\<close> lets
    all of the above interleave in one state.
  \<^item> \<open>Samples\<close>: surroundings on which the properties are applied.

  \<^bold>\<open>Interfaces.\<close> \<open>Registry_Interface\<close>: \<open>named_registry\<close>, of the check registry and the action
  registry. \<open>Ring_Interface\<close>: \<open>bounded_log\<close>, of the telemetry buffer. \<open>Store_Interface\<close>:
  \<open>incident_store\<close>, and in \<open>Manager_Persistence\<close> \<open>persisted_incidents\<close>, of BoltStore towards the
  manager. \<open>Check_Interface\<close>: \<open>checker\<close>, of the nine checks towards the manager.
  \<open>Actions_Props\<close>: \<open>repair_action\<close>, of the actions towards the engine. Each is interpreted on the
  model of the code that provides it.

  \<^bold>\<open>How Go is modelled.\<close>
  \<^item> Time and durations are integers of nanoseconds, and \<open>wrap64\<close> is written where the code can
    overflow. A \<open>float64\<close> of the configuration or a probe is a rational or one of the special values and
    is only compared and printed; where the code computes with \<open>float64\<close> the model rounds as Go does.
  \<^item> A map is an association list with one entry for each key, a buffered channel a list with a
    capacity, a non-blocking send one that may be refused. A string is a list of bytes.
  \<^item> \<open>world\<close> is a clock, which gives its n-th reading, the number of readings so far, and an
    environment of any type: everything outside the agent. A call that reads the clock a bounded
    number of times gets the readings as a function.
  \<^item> An error is a value: a datatype where the code tells errors apart or a property does, else the
    message. A panic is \<open>None\<close> or a flag, and properties show that it is not reached.
  \<^item> A method that holds its component's mutex is one atomic operation. Goroutines are step relations
    whose state has what each goroutine is about to do; a \<open>select\<close> may take any branch that is
    ready. Where one goroutine is followed alone (\<open>watch_loop\<close>, \<open>stream_steps\<close>,
    \<open>reconnect_turns\<close>) its choices are a list it consumes.
  \<^item> Every function is total and no fuel is used: the loops of the agent run over lists, over a
    counted number of attempts, or over a list of choices, and the loops that are to run forever are
    step relations. The parser of durations terminates because a segment is shorter than its input.
  \<^item> What is not under \<open>src/\<close> is a parameter: \<open>bolt_api\<close> (with its laws as hypotheses, in which a call may report an error), \<open>probes\<close>,
    \<open>system\<close>, \<open>kube\<close>, \<open>cluster\<close>, \<open>grpc\<close>, \<open>files\<close>, \<open>platform\<close>. \<open>Samples\<close> instantiates each.

  \<^bold>\<open>What is shown.\<close>
  \<^item> C1 to C6, incidents: the manager refines a table from checks to a status and a count; the order of
    events; distinct IDs; the invariant; recovery after a restart when no save failed; the drift of the
    gauge.
  \<^item> C7 to C10: saved records are read back, the buffer keeps the newest events, \<open>Validate\<close> decides
    its specification, a loaded file is valid.
  \<^item> C11 to C18, repairs one at a time: which actions may run, the hourly limit over every window, what
    recipes and steps do, and that an incident is repaired once.
  \<^item> C19 to C22, with overlap: the status a repair leaves, and which incident it leaves it in; runs without overlap are
    schedules of the engine with goroutines; how far the limits hold with overlap and where they do not.
  \<^item> C23 to C25, the scheduler: no send on the closed channel when \<open>Stop\<close> follows \<open>Start\<close>, a panic when
    it overtakes it; \<open>Stop\<close> returns; results are genuine.
  \<^item> C26 to C33: that checks are built as configured, and what checks and actions do.
  \<^item> C34, C35, the client: order without loss in the queues, and the backoff. C36 to C38, the watcher.
  \<^item> C39, C40, the whole agent: from a file to an agent wired as it says, and where its incidents come
    from.

  Some of these state behaviour the comments or the documentation do not promise: C6 (the gauge after
  a restart), C19 (the successor of a repaired incident), C21 and C22 (limit and status under overlap),
  C23 (\<open>Stop\<close> during \<open>Start\<close>), C28, C29, C33 (last day of a certificate and its \<open>float64\<close> days, half
  a quorum, the revision of a rollback), C35 (the backoff is not reset), C37 and C38 (incidents of
  the watcher).

  \<^bold>\<open>Approximations.\<close> \<open>live_step\<close> lets the loops of the client go on from any of their states, so it
  has more runs than the code, and what C40 states of all its runs holds of those of the code; after a
  panic \<open>sched_step\<close> lets the other goroutines go on, which adds runs too. The events of a manager
  operation are emitted with it, while the code emits them after unlocking, so two goroutines may emit
  theirs in the other order. Stored strings are valid UTF-8. Seconds are printed from the exact
  duration, and case conversion and trimming treat ASCII only.

  \<^bold>\<open>Not modelled.\<close> \<open>pkg/proto\<close> is generated code; its messages appear as the fields the client
  fills. Libraries are parameters, as above: YAML and JSON text, Zap, Prometheus, BoltDB, gRPC, Docker,
  Kubernetes, gopsutil, the operating system. Parsing the command line and catching signals are left
  out: \<open>run\<close> starts from the values of its flags, and cancellation may come at any time. Log messages
  are left out, and with them the no-op logger of the tests and the handler of control plane commands,
  which only logs.
\<close>

section \<open>Incidents\<close>

text \<open>
  C1. The incident manager refines a table from checks to a status and a failure count: after any run
  of check results and status changes, its active incidents are the table folded over the same
  operations, in which a failing result opens or counts up, a healthy one clears, and a status change
  overwrites or, when it resolves, clears.
\<close>

theorem incident_table_refined:
  assumes "manager_ok m"
  shows "table_of (mgr_run ops xs m) = fold (\<lambda>x. table_step (snd x)) xs (table_of m)"
  by (rule table_of_run [OF assms])

theorem incident_table_refined_witness:
  "table_of (mgr_run (bolt_store_ops mem_api)
       [(sample_clock, OpResult (sample_result CheckFailed)),
        (sample_clock, OpResult (sample_result CheckDegraded)),
        (sample_clock, OpSetStatus ''api'' StatusRepairing)] sample_manager) ''api''
     = Some (StatusRepairing, 2)"
  unfolding incident_table_refined [OF sample_manager_ok]
  by (simp add: sample_result_def table_of_def)

text \<open>
  C2. The events of one check over a run follow the lifecycle: an incident is opened only when none
  is active, updated, repairing, failed or resolved only while one is, and resolving ends it.
\<close>

theorem incident_lifecycle:
  assumes "manager_ok m"
  shows "lifecycle (get_active m k \<noteq> None) (events_of k (run_events ops xs m))"
  using run_lifecycle [OF assms] by (simp add: get_active_def)

theorem incident_lifecycle_witness:
  "lifecycle False (events_of ''api'' (run_events (bolt_store_ops mem_api)
       [(sample_clock, OpResult (sample_result CheckFailed)),
        (sample_clock, OpResult (sample_result CheckHealthy))] sample_manager))"
  using incident_lifecycle [OF sample_manager_ok, of "''api''" "bolt_store_ops mem_api"
      "[(sample_clock, OpResult (sample_result CheckFailed)),
        (sample_clock, OpResult (sample_result CheckHealthy))]"]
  by (simp add: get_active_def)

text \<open>
  C3. The incidents opened in a run get consecutive numbers after the counter, so no two of them
  share an ID.
\<close>

theorem opened_incident_ids:
  assumes "manager_ok m"
  shows "opened_ids (run_events ops xs m) =
           map inc_id_of [mg_idCounter m + 1 .. mg_idCounter (mgr_run ops xs m)]
     \<and> distinct (opened_ids (run_events ops xs m))"
proof -
  have "distinct (map inc_id_of [i..j])" for i j
    by (simp add: distinct_map inj_on_def)
  then show ?thesis unfolding run_opened_ids [OF assms] by (intro conjI refl)
qed

theorem opened_incident_ids_witness:
  "distinct (opened_ids (run_events (bolt_store_ops mem_api)
       [(sample_clock, OpResult (sample_result CheckFailed))] sample_manager))"
  using opened_incident_ids [OF sample_manager_ok, of "bolt_store_ops mem_api"
      "[(sample_clock, OpResult (sample_result CheckFailed))]"] by blast

text \<open>
  C4. A manager that starts, loads the stored incidents and then runs keeps its invariant: active
  incidents are filed under their own check and none of them is resolved, the event channel stays
  within its capacity, the telemetry buffer is well formed and nothing has panicked.
\<close>

theorem manager_invariant:
  assumes "chan_ok ch" and "recorder_ok r"
  shows "manager_ok (mgr_run ops xs (snd (rehydrate ops (new_manager now st ch r))))"
  by (intro manager_ok_run manager_ok_rehydrate manager_ok_new assms)

theorem manager_invariant_witness:
  "manager_ok (mgr_run (bolt_store_ops mem_api) [(sample_clock, OpResult (sample_result CheckFailed))]
     (snd (rehydrate (bolt_store_ops mem_api)
        (new_manager sample_clock mem_store (make_chan 8) sample_recorder))))"
  by (rule manager_invariant) simp_all

text \<open>
  C5. Incidents survive a restart: if a manager started on a database without incidents, ran any
  results and changes to statuses the code names, and no save of that run reported an error, then a
  new manager on the same database that loads it without error has exactly the active incidents the
  first one had. (A put may fail, as BoltDB's does for a blank or a large key; the laws say only what
  the database holds after calls that report success or an error.)
\<close>

theorem restart_recovers_incidents:
  fixes xs :: "((nat \<Rightarrow> gotime) \<times> 'err mgr_op) list"
  assumes "bolt_inv api b st" and "bolt_content b st = Map.empty" and "chan_ok ch" and "recorder_ok r"
    and "\<forall>x \<in> set xs. op_known x"
    and "m = mgr_run (bolt_store_ops api) xs (new_manager now st ch r)"
    and "run_saves_succeed (bolt_store_ops api) xs (new_manager now st ch r)"
    and "rehydrate (bolt_store_ops api) (new_manager now' (mg_store m) ch' r') = (None, m')"
  shows "get_active m' = get_active m"
proof -
  have "synced (bolt_content b) (bolt_inv api b) (new_manager now st ch r)"
    by (rule bolt_per.synced_new) (use assms in auto)
  note sy = bolt_per.synced_run [OF this assms(5,7)]
  obtain js where "so_ListIncidents (bolt_store_ops api) (mg_store m) = (js, None)"
    using assms(8) by (auto simp: rehydrate_def new_manager_def split: prod.splits option.splits)
  from bolt_per.restart_active(2) [OF sy, of js now' ch' r'] this assms(8) show ?thesis
    by (simp add: assms(6) get_active_def fun_eq_iff)
qed

theorem restart_recovers_incidents_witness:
  "\<exists>m m'. m = mgr_run (bolt_store_ops mem_api) [(\<lambda>i. 0, OpResult (sample_result CheckFailed))]
         (new_manager sample_clock mem_store (make_chan 8) sample_recorder)
     \<and> get_active m ''api'' \<noteq> None
     \<and> rehydrate (bolt_store_ops mem_api)
           (new_manager sample_clock (mg_store m) (make_chan 8) sample_recorder) = (None, m')
     \<and> get_active m' = get_active m"
proof -
  let ?xs = "[(\<lambda>i. 0, OpResult (sample_result CheckFailed))]"
  define m where "m = mgr_run (bolt_store_ops mem_api) ?xs
         (new_manager sample_clock mem_store (make_chan 8) sample_recorder)"
  have a: "get_active m ''api'' \<noteq> None"
    using sample_manager_ok
    by (simp add: m_def get_active_def active_process_result sample_manager_def [symmetric] sample_result_def)
  have s: "run_saves_succeed (bolt_store_ops mem_api) ?xs
      (new_manager sample_clock mem_store (make_chan 8) sample_recorder)"
  proof -
    have n: "length (show_int 1) = 1" by (simp add: show_int_def show_nat.simps)
    have "fst (bolt_save_incident mem_api \<lparr>si_ID = ''inc-'' @ show_int 1, si_CheckName = ''api'',
        si_Service = ''web'', si_Status = ''open'', si_FailureCount = 1, si_CreatedAt = 0, si_UpdatedAt = 0,
        si_ResolvedAt = None\<rparr> mem_store) = None"
      by (rule mem_save, simp add: marshal_incident_def time_writable_def) (simp_all add: n)
    then show ?thesis
      by (auto simp: sample_manager_def [symmetric] sample_result_def create_incident_def Let_def shift_def
          bolt_store_ops_def to_storage_def split: prod.splits option.splits)
  qed
  have "synced (bolt_content mem_content) (bolt_inv mem_api mem_content) m"
    unfolding m_def by (rule bolt_per.synced_run [OF bolt_per.synced_new _ s])
      (simp_all add: mem_inv mem_content_empty)
  then have "snd (bolt_list_incidents mem_api (mg_store m)) = None"
    by (intro mem_list_no_error) (simp add: synced_def)
  then obtain m' where l: "rehydrate (bolt_store_ops mem_api)
      (new_manager sample_clock (mg_store m) (make_chan 8) sample_recorder) = (None, m')"
    by (cases "bolt_list_incidents mem_api (mg_store m)")
      (auto simp: rehydrate_def new_manager_def bolt_store_ops_def)
  from restart_recovers_incidents [OF mem_inv mem_content_empty _ _ _ m_def s l] a l m_def show ?thesis
    by auto
qed

text \<open>
  C6. The gauge of active incidents moves with their number: over a run the difference between the
  two does not change. So it is exact when the manager started empty, and after a restart, where the
  gauge starts at zero and the stored incidents are loaded, it stays too low by the number loaded.
\<close>

theorem active_gauge_offset:
  assumes "chan_ok ch" and "recorder_ok r" and "m_ActiveIncidents (rec_m r) = 0"
    and "m = snd (rehydrate ops (new_manager now st ch r))"
  shows "gauge (mgr_run ops xs m) = int (active_count (mgr_run ops xs m)) - int (active_count m)"
proof -
  have ok: "manager_ok m" using assms by (simp add: manager_ok_new)
  have "mg_recorder m = r"
    by (simp add: assms(4) rehydrate_def new_manager_def split: prod.splits option.splits)
  with assms(3) have "gauge m = 0" by (simp add: gauge_def)
  with gauge_run [OF ok, of ops xs] show ?thesis by simp
qed

theorem active_gauge_offset_witness:
  "\<exists>m. m = snd (rehydrate (bolt_store_ops mem_api)
            (new_manager sample_clock mem_store (make_chan 8) sample_recorder))
     \<and> gauge (mgr_run (bolt_store_ops mem_api) [(sample_clock, OpResult (sample_result CheckFailed))] m)
       = int (active_count (mgr_run (bolt_store_ops mem_api)
                [(sample_clock, OpResult (sample_result CheckFailed))] m)) - int (active_count m)"
proof -
  have "m_ActiveIncidents (rec_m sample_recorder) = 0"
    by (simp add: sample_recorder_def new_recorder_def new_metrics_def)
  show ?thesis
    by (intro exI conjI, rule refl, rule active_gauge_offset [OF _ _ \<open>m_ActiveIncidents _ = 0\<close> refl]) simp_all
qed

section \<open>Storage, telemetry, configuration\<close>

text \<open>
  C7. The BoltDB store keeps what it is given: after saving any list of incident records without
  error, a lookup that succeeds and a listing that succeeds return, for every ID, the last record
  saved under it, or what was there before.
\<close>

theorem saved_incidents_read_back:
  assumes "bolt_inv api b s" and "save_all (bolt_save_incident api) is s = (None, s')"
  defines "expected \<equiv> bolt_content b s ++ map_of (rev (map (\<lambda>i. (si_ID i, i)) is))"
  shows "(\<forall>n j. bolt_get_incident api n s' = Inr j \<longrightarrow> expected n = Some j)
     \<and> (\<forall>n m. bolt_get_incident api n s' = Inl (IncidentNotFound m) \<longrightarrow> expected n = None)
     \<and> (\<forall>xs. bolt_list_incidents api s' = (xs, None) \<longrightarrow>
           distinct (map si_ID xs) \<and> map_of (map (\<lambda>i. (si_ID i, i)) xs) = expected)"
proof -
  from bolt_inc.save_all_content [OF assms(1,2)]
  have inv: "bolt_inv api b s'" and c: "bolt_content b s' = expected" by (simp_all add: expected_def)
  show ?thesis
    using bolt_inc.get_found [OF inv] bolt_inc.get_missing [OF inv] bolt_inc.list_found [OF inv]
    unfolding c by blast
qed

definition sample_record :: storage_incident where
  "sample_record = \<lparr>si_ID = ''inc-1'', si_CheckName = ''api'', si_Service = ''web'', si_Status = ''open'',
     si_FailureCount = 3, si_CreatedAt = 0, si_UpdatedAt = 0, si_ResolvedAt = None\<rparr>"

theorem saved_incidents_read_back_witness:
  "\<exists>s'. save_all (bolt_save_incident mem_api) [sample_record] mem_store = (None, s')
     \<and> bolt_get_incident mem_api ''inc-1'' s' \<noteq> Inl (IncidentNotFound ''inc-1'')"
proof -
  have "time_writable 0" by (simp add: time_writable_def)
  then obtain s' where s': "save_all (bolt_save_incident mem_api) [sample_record] mem_store = (None, s')"
    by (auto simp: bolt_save_incident_def marshal_incident_def sample_record_def with_db_def mem_api_def)
  from saved_incidents_read_back [OF mem_inv this]
  show ?thesis using s' by (auto simp: sample_record_def)
qed

text \<open>
  C8. The telemetry buffer keeps the newest events: pushing any events never panics, and a drain then
  returns the last ones that fit, oldest first, and leaves the buffer empty and well formed.
\<close>

theorem telemetry_keeps_newest:
  assumes "ring_ok rb"
  shows "\<exists>rb'. push_all ring_push es rb = Some rb'
     \<and> fst (ring_drain rb') = take_last (rb_cap rb) (ring_list rb @ es)
     \<and> ring_snapshot rb' = take_last (rb_cap rb) (ring_list rb @ es)
     \<and> ring_len rb' = min (rb_cap rb) (rb_count rb + length es)
     \<and> ring_list (snd (ring_drain rb')) = [] \<and> ring_ok (snd (ring_drain rb'))"
proof -
  from ring.push_all_contents [OF assms, of es] obtain rb' where rb':
    "push_all ring_push es rb = Some rb'" "ring_ok rb'"
    "ring_list rb' = take_last (rb_cap rb) (ring_list rb @ es)" by blast
  have "ring_snapshot rb' = ring_list rb'" by (simp add: ring_snapshot_def ring_list_def)
  moreover have "ring_len rb' = length (ring_list rb')" by (simp add: ring_len_def)
  ultimately show ?thesis
    using rb' by (simp add: ring_drain_list ring_drain_empties ring_drain_ok)
qed

theorem telemetry_keeps_newest_witness:
  "\<exists>rb'. push_all ring_push [zero_event, zero_event, zero_event] (the (new_ring_buffer 2)) = Some rb'
     \<and> fst (ring_drain rb') = [zero_event, zero_event]"
proof -
  have "ring_ok (the (new_ring_buffer 2))" by (simp add: new_ring_buffer_def ring_ok_def)
  from telemetry_keeps_newest [OF this, of "[zero_event, zero_event, zero_event]"] show ?thesis
    by (auto simp: new_ring_buffer_def ring_list_def take_last_def)
qed

text \<open>
  C9. \<open>Validate\<close> accepts exactly the configurations of the specification (names present and unique,
  positive intervals, rules that refer to existing checks and recipes, optional parts complete) and
  then changes nothing but an unusable buffer size.
\<close>

theorem validate_specification:
  "(fst (validate c) = None \<longleftrightarrow> valid_config c)
   \<and> (validate c = (None, with_buffer_size c) \<longleftrightarrow> valid_config c)"
  using validate_None [of c] validate_Some_config [of c "snd (validate c)"]
  by (cases "validate c") auto

text \<open>
  C10. A configuration that loads is the parsed text over the defaults, with environment variables
  expanded before parsing, is valid, and has a telemetry buffer of at least one event.
\<close>

theorem loaded_config_valid:
  assumes "load_from_file read_file getenv yaml path = Inr cfg"
  shows "valid_config cfg \<and> 1 \<le> tc_BufferSize (c_Telemetry cfg)
     \<and> (\<exists>data c0. read_file path = Inr data \<and> yaml (expand getenv data) default_config = Inr c0
          \<and> cfg = with_buffer_size c0)"
proof -
  from assms obtain data c0 where d: "read_file path = Inr data"
    "yaml (expand getenv data) default_config = Inr c0" "validate c0 = (None, cfg)"
    by (auto simp: load_from_file_def split: sum.splits prod.splits option.splits)
  have cfg: "cfg = with_buffer_size c0" by (rule validate_Some_config [OF d(3)])
  have v: "valid_config c0" using validate_None [of c0] d(3) by simp
  have "valid_config (with_buffer_size c0)"
    using v by (auto simp: valid_config_def with_buffer_size_def rule_config_ok_def)
  moreover have "1 \<le> tc_BufferSize (c_Telemetry (with_buffer_size c0))" by (simp add: with_buffer_size_def)
  ultimately show ?thesis using d cfg by blast
qed

theorem loaded_config_valid_witness:
  "valid_config default_config"
proof -
  have "load_from_file (\<lambda>p. Inr ''agent:'') (\<lambda>v. '''') (\<lambda>t c. Inr c) ''agent.yaml'' = Inr default_config"
    by (simp add: load_from_file_def default_config_def validate_def KubeAuto_def cp_enabled_def)
  from loaded_config_valid [OF this] show ?thesis by simp
qed

section \<open>Guardrails\<close>

text \<open>
  C11. An action may run exactly when it is not forbidden, is in the allowed list if that list has
  any entry, and is not in its cooldown at the time of the check; the check itself changes nothing.
\<close>

theorem action_check_specification:
  "(fst (check_action name g w) = None \<longleftrightarrow>
      permitted g name \<and> \<not> cooling g name (w_clock w (w_reads w)))
   \<and> w_env (snd (check_action name g w)) = w_env w"
  by (simp add: check_action_iff check_action_world)

text \<open>
  C12. With the default guardrails the permitted actions are exactly the fifteen the runtime
  registers, and registering them never fails.
\<close>

theorem default_actions_permitted:
  "(permitted new_guardrails name \<longleftrightarrow> name \<in> a_Name ` set (builtin_actions sy reg k))
   \<and> (\<exists>r. register_builtin_actions sy reg k = Inr r
        \<and> (action_get r name \<noteq> None \<longleftrightarrow> permitted new_guardrails name))"
proof -
  have p: "permitted new_guardrails name \<longleftrightarrow> name \<in> a_Name ` set (builtin_actions sy reg k)"
    by (auto simp: permitted_def new_guardrails_def gget_or_def gget_def builtin_actions_def action_defs)
  have "distinct (map a_Name (builtin_actions sy reg k))" by (simp add: builtin_names)
  with action_reg.register_all_ok [OF action_reg.inv_empty, of "builtin_actions sy reg k"] obtain r where r:
    "register_builtin_actions sy reg k = Inr r"
    "\<forall>n. action_get r n = find (\<lambda>a. a_Name a = n) (builtin_actions sy reg k)"
    by (auto simp: action_reg.get_empty register_builtin_actions_def option.case_eq_if)
  then have "action_get r name \<noteq> None \<longleftrightarrow> name \<in> a_Name ` set (builtin_actions sy reg k)"
    by (auto simp: find_None_iff)
  with p r(1) show ?thesis by blast
qed

section \<open>Repairs\<close>

text \<open>
  C13. The hourly limit holds: in any run in which repairs do not overlap, no window of one hour
  contains more recorded repairs of a rule than its limit.
\<close>

theorem hourly_limit_respected:
  assumes "clock_monotone (ag_world ag)" and "gget (gr_maxRepairs (ag_gr ag)) r = Some L"
    and "history (ag_gr ag) r = []" and "clocked_actions en"
  shows "int (in_window t (times_of r (repair_log ops en xs ag))) \<le> max 0 L"
proof -
  have "limit_inv r L ([] @ times_of r (repair_log ops en xs ag)) (agent_run ops en xs ag)"
    by (rule limit_inv_run [OF limit_inv_start [OF assms(1-3)] assms(4)])
  then show ?thesis by (auto simp: limit_inv_def dest: spec [of _ t])
qed

theorem hourly_limit_respected_witness:
  "\<exists>t. times_of ''r'' (repair_log (bolt_store_ops mem_api) sample_engine
        [AgResult (sample_result CheckFailed), AgEvent sample_opened] sample_agent) = [t]
     \<and> int (in_window (t - 1) [t]) \<le> max 0 2"
proof -
  obtain i t where r: "repair_log (bolt_store_ops mem_api) sample_engine
      [AgResult (sample_result CheckFailed), AgEvent sample_opened] sample_agent = [(''r'', i, t)]"
    using sample_repair [of "bolt_store_ops mem_api"] by blast
  then have t: "times_of ''r'' (repair_log (bolt_store_ops mem_api) sample_engine
      [AgResult (sample_result CheckFailed), AgEvent sample_opened] sample_agent) = [t]"
    by (simp only: times_of_def) simp
  have "int (in_window (t - 1) (times_of ''r'' (repair_log (bolt_store_ops mem_api) sample_engine
      [AgResult (sample_result CheckFailed), AgEvent sample_opened] sample_agent))) \<le> max 0 2"
    by (rule hourly_limit_respected) (simp_all add: sample_engine_clocked)
  with t show ?thesis by metis
qed

text \<open>
  C14. A recipe fails exactly when the last step it did not skip failed; its results are one per step,
  in order, under the names of the steps.
\<close>

theorem recipe_outcome:
  "res_Status (fst (execute_recipe en rcp i gw)) =
     (if last_failed (res_StepResults (fst (execute_recipe en rcp i gw))) then RecipeFailed else RecipeSuccess)
   \<and> map sr_StepName (res_StepResults (fst (execute_recipe en rcp i gw))) = map st_Name (wf_Steps rcp)
   \<and> map sr_ActionName (res_StepResults (fst (execute_recipe en rcp i gw))) = map st_ActionName (wf_Steps rcp)"
  using execute_recipe_status [of en rcp i gw]
    run_steps_results [of en "wf_Steps rcp" False "(fst gw, snd (time_now (snd gw)))"]
  by (simp add: execute_recipe_simps(1) del: execute_recipe_status)

text \<open>
  C15. A step is skipped exactly when it is marked to run on failure only and the last step executed
  before it, if any, did not fail.
\<close>

theorem fallback_step_skipped:
  assumes "n < length (wf_Steps rcp)" and "res = fst (execute_recipe en rcp i gw)"
  shows "sr_Status (res_StepResults res ! n) = RecipeSkipped \<longleftrightarrow>
     st_OnFailureOnly (wf_Steps rcp ! n) \<and> \<not> last_failed (take n (res_StepResults res))"
  using run_steps_skipped [of False "[]" n "wf_Steps rcp" en "(fst gw, snd (time_now (snd gw)))"] assms
  by (simp add: execute_recipe_simps(1))

theorem fallback_step_skipped_witness:
  "\<exists>res. res = fst (execute_recipe sample_engine
          \<lparr>wf_Name = ''fix'', wf_Steps = [sample_step\<lparr>st_OnFailureOnly := True\<rparr>]\<rparr> ''inc-1''
          (new_guardrails, sample_world))
     \<and> sr_Status (res_StepResults res ! 0) = RecipeSkipped"
  by (intro exI conjI, rule refl, subst fallback_step_skipped [OF _ refl]) simp_all

text \<open>
  C16. A step makes at most one attempt more than its retries, and at least one when it succeeds; it
  fails by its attempts only after all of them, and a step blocked by the guardrails or without an
  action makes none.
\<close>

theorem step_attempts:
  fixes sr :: step_result
  assumes "sr = fst (execute_step en step gw)"
  shows "0 \<le> sr_Attempts sr \<and> sr_Attempts sr \<le> max 0 (max_attempts step)
     \<and> (sr_Status sr = RecipeSuccess \<longrightarrow> 1 \<le> sr_Attempts sr \<and> sr_Error sr = None)
     \<and> (sr_Status sr \<noteq> RecipeSuccess \<longrightarrow>
          (case sr_Error sr of
             Some (ActionFailed a n e) \<Rightarrow> a = st_ActionName step \<and> n = max_attempts step
               \<and> sr_Attempts sr = max 0 (max_attempts step) \<and> (e = None \<longrightarrow> max_attempts step \<le> 0)
           | Some (GuardrailBlocked e) \<Rightarrow> sr_Attempts sr = 0
           | Some (ActionNotFound a) \<Rightarrow> sr_Attempts sr = 0 \<and> action_get (en_actions en) a = None
           | None \<Rightarrow> False))"
proof -
  obtain g w where gw: "gw = (g, w)" by (cases gw)
  show ?thesis
  proof (cases rule: execute_step_cases [of step g w en])
    case (3 act)
    obtain gw' where "attempt_loop act step (nat (max_attempts step)) 0 0 None
        (g, snd (check_action (st_ActionName step) g w)) = (sr, gw')"
      using assms 3 gw by (metis prod.collapse)
    from attempt_loop_result [OF this] show ?thesis by (auto simp: max_def split: option.splits if_splits)
  qed (use assms gw in \<open>simp_all add: failed_step_def\<close>)
qed

theorem step_attempts_witness:
  "\<exists>sr. sr = fst (execute_step sample_engine sample_step (new_guardrails, sample_world))
     \<and> sr_Attempts sr \<le> max 0 (max_attempts sample_step)"
  using step_attempts [OF refl] by blast

text \<open>
  C17. The guardrails are enforced: two engines that differ only in actions the guardrails do not
  permit run every recipe alike, to the same results in the same world. So no recipe reaches an
  action that is forbidden or not in the allowed list.
\<close>

theorem unpermitted_actions_unreachable:
  assumes "\<And>a. permitted (fst gw) a \<Longrightarrow> action_get (en_actions en) a = action_get (en_actions en') a"
  shows "execute_recipe en rcp i gw = execute_recipe en' rcp i gw"
  by (rule execute_recipe_agree) (use assms in \<open>simp add: agree_on_permitted_def\<close>)

theorem unpermitted_actions_unreachable_witness:
  "execute_recipe sample_engine sample_recipe ''inc-1'' (new_guardrails, sample_world) =
   execute_recipe (sample_engine\<lparr>en_actions :=
       [(''wait'', noop_action ''wait''), (''shell_exec'', noop_action ''shell_exec'')]\<rparr>)
     sample_recipe ''inc-1'' (new_guardrails, sample_world)"
  by (rule unpermitted_actions_unreachable)
    (auto simp: permitted_def new_guardrails_def gget_or_def gget_def sample_engine_def action_get_def)

text \<open>
  C18. An incident is repaired at most once in a run in which repairs do not overlap: the incidents
  of the admitted repairs are all different.
\<close>

theorem incident_repaired_once:
  assumes "manager_ok (ag_mgr ag)" and "ids_ok (ag_mgr ag)"
  shows "distinct (repaired_ids (repair_log ops en xs ag))"
proof -
  have "once_inv [] ag" using assms by (simp add: once_inv_def)
  from once_inv_run [OF this, of ops en xs] show ?thesis by (simp add: once_inv_def)
qed

theorem incident_repaired_once_witness:
  "repaired_ids (repair_log (bolt_store_ops mem_api) sample_engine
      [AgResult (sample_result CheckFailed), AgEvent sample_opened] sample_agent) \<noteq> []
   \<and> distinct (repaired_ids (repair_log (bolt_store_ops mem_api) sample_engine
      ([AgResult (sample_result CheckFailed), AgEvent sample_opened] @ [AgEvent sample_opened]) sample_agent))"
proof
  obtain i t where r: "repair_log (bolt_store_ops mem_api) sample_engine
      [AgResult (sample_result CheckFailed), AgEvent sample_opened] sample_agent = [(''r'', i, t)]"
    using sample_repair [of "bolt_store_ops mem_api"] by blast
  show "repaired_ids (repair_log (bolt_store_ops mem_api) sample_engine
      [AgResult (sample_result CheckFailed), AgEvent sample_opened] sample_agent) \<noteq> []"
    unfolding r by (simp add: repaired_ids_def)
  show "distinct (repaired_ids (repair_log (bolt_store_ops mem_api) sample_engine
      ([AgResult (sample_result CheckFailed), AgEvent sample_opened] @ [AgEvent sample_opened]) sample_agent))"
    by (rule incident_repaired_once) (simp_all add: sample_manager_ok sample_manager_ids)
qed

text \<open>
  C19. A repair during which nothing else reaches the manager ends by moving the incident of its check
  to verifying or failed, as the recipe succeeded or not, and touches no other incident. When check
  results are processed during the repair its last transition moves whichever incident is active under
  the name of the check by then, if any, and touches no other. That need not be the incident that was
  repaired: if the check recovers and fails again during the repair, its successor, still open, is
  moved without having been repaired.
\<close>

theorem repair_outcome_status:
  assumes "manager_ok (ag_mgr ag)" and "get_active (ag_mgr ag) (inc_CheckName inc) = Some cur"
  shows "(\<exists>new. get_active (ag_mgr (run_repair ops en inc rule rcp ag)) (inc_CheckName inc) = Some new
       \<and> inc_ID new = inc_ID cur \<and> inc_FailureCount new = inc_FailureCount cur
       \<and> inc_Status new = (if res_Status (repair_outcome ops en inc rule rcp ag) = RecipeSuccess
                           then StatusVerifying else StatusFailed)
       \<and> (\<forall>k. k \<noteq> inc_CheckName inc \<longrightarrow>
              get_active (ag_mgr (run_repair ops en inc rule rcp ag)) k = get_active (ag_mgr ag) k))
     \<and> (\<forall>s i b. manager_ok (ag_mgr (ca_agent s)) \<and> i < length (ca_tasks s) \<and> ca_tasks s ! i = TReported inc b \<longrightarrow>
          (\<exists>s' t. cstep ops en s s' \<and> ca_tasks s' = (ca_tasks s)[i := TDone]
            \<and> (\<forall>k. get_active (ag_mgr (ca_agent s')) k =
                 (if k = inc_CheckName inc
                  then map_option (\<lambda>x. x\<lparr>inc_Status := if b then StatusVerifying else StatusFailed, inc_UpdatedAt := t\<rparr>)
                         (get_active (ag_mgr (ca_agent s)) k)
                  else get_active (ag_mgr (ca_agent s)) k))))
     \<and> (ids_ok (ag_mgr ag) \<and> accepted en cur ag = Some (rule, rcp) \<longrightarrow>
          (\<exists>s b new. creach ops en \<lparr>ca_agent = ag, ca_tasks = []\<rparr> s \<and> ca_tasks s = [TReported cur b]
            \<and> manager_ok (ag_mgr (ca_agent s))
            \<and> get_active (ag_mgr (ca_agent s)) (inc_CheckName cur) = Some new
            \<and> inc_ID new \<noteq> inc_ID cur \<and> inc_Status new = StatusOpen))"
proof (intro conjI allI impI)
  show "\<exists>new. get_active (ag_mgr (run_repair ops en inc rule rcp ag)) (inc_CheckName inc) = Some new
       \<and> inc_ID new = inc_ID cur \<and> inc_FailureCount new = inc_FailureCount cur
       \<and> inc_Status new = (if res_Status (repair_outcome ops en inc rule rcp ag) = RecipeSuccess
                           then StatusVerifying else StatusFailed)
       \<and> (\<forall>k. k \<noteq> inc_CheckName inc \<longrightarrow>
              get_active (ag_mgr (run_repair ops en inc rule rcp ag)) k = get_active (ag_mgr ag) k)"
    by (rule run_repair_manager [OF assms(1), of ops en inc rule rcp])
      (use assms(2) in \<open>simp add: get_active_def\<close>)
next
  fix s :: "('a, 'b) cagent" and i b
  assume "manager_ok (ag_mgr (ca_agent s)) \<and> i < length (ca_tasks s) \<and> ca_tasks s ! i = TReported inc b"
  then show "\<exists>s' t. cstep ops en s s' \<and> ca_tasks s' = (ca_tasks s)[i := TDone]
      \<and> (\<forall>k. get_active (ag_mgr (ca_agent s')) k =
           (if k = inc_CheckName inc
            then map_option (\<lambda>x. x\<lparr>inc_Status := if b then StatusVerifying else StatusFailed, inc_UpdatedAt := t\<rparr>)
                   (get_active (ag_mgr (ca_agent s)) k)
            else get_active (ag_mgr (ca_agent s)) k))"
    using last_transition [of s i inc b ops en] by blast
next
  assume "ids_ok (ag_mgr ag) \<and> accepted en cur ag = Some (rule, rcp)"
  moreover have "get_active (ag_mgr ag) (inc_CheckName cur) = Some cur"
    using active_own_name [OF assms] assms(2) by simp
  ultimately show "\<exists>s b new. creach ops en \<lparr>ca_agent = ag, ca_tasks = []\<rparr> s \<and> ca_tasks s = [TReported cur b]
      \<and> manager_ok (ag_mgr (ca_agent s)) \<and> get_active (ag_mgr (ca_agent s)) (inc_CheckName cur) = Some new
      \<and> inc_ID new \<noteq> inc_ID cur \<and> inc_Status new = StatusOpen"
    using repair_moves_successor [OF assms(1), of cur en rule rcp ops] by blast
qed

theorem repair_outcome_status_witness:
  "\<exists>ag cur new s new'. get_active (ag_mgr ag) ''api'' = Some cur
     \<and> get_active (ag_mgr (run_repair (bolt_store_ops mem_api) sample_engine cur sample_rule sample_recipe ag)) ''api'' = Some new
     \<and> inc_ID new = inc_ID cur \<and> inc_Status new \<in> {StatusVerifying, StatusFailed}
     \<and> creach (bolt_store_ops mem_api) sample_engine \<lparr>ca_agent = ag, ca_tasks = []\<rparr> s
     \<and> get_active (ag_mgr (ca_agent s)) ''api'' = Some new' \<and> inc_ID new' \<noteq> inc_ID cur"
proof -
  let ?ops = "bolt_store_ops mem_api"
  let ?ag = "agent_step ?ops sample_engine (AgResult (sample_result CheckFailed)) sample_agent"
  obtain cur where cur: "get_active (ag_mgr ?ag) ''api'' = Some cur" "inc_CheckName cur = ''api''"
    and acc: "accepted sample_engine cur ?ag = Some (sample_rule, sample_recipe)"
    by (rule sample_admitted [of ?ops])
  have ok: "manager_ok (ag_mgr ?ag)" by (simp add: sample_manager_ok readings_def)
  have ids: "ids_ok (ag_mgr ?ag)"
    by (simp add: readings_def ids_ok_process_result sample_manager_ok sample_manager_ids)
  note all = repair_outcome_status [OF ok, of cur cur ?ops sample_engine sample_rule sample_recipe]
  have "\<exists>new. get_active (ag_mgr (run_repair ?ops sample_engine cur sample_rule sample_recipe ?ag)) ''api'' = Some new
      \<and> inc_ID new = inc_ID cur \<and> inc_Status new \<in> {StatusVerifying, StatusFailed}"
    using conjunct1 [OF all] cur by (fastforce simp del: agent_step.simps)
  moreover have "\<exists>s new'. creach ?ops sample_engine \<lparr>ca_agent = ?ag, ca_tasks = []\<rparr> s
      \<and> get_active (ag_mgr (ca_agent s)) ''api'' = Some new' \<and> inc_ID new' \<noteq> inc_ID cur"
    using conjunct2 [OF conjunct2 [OF all]] cur ids acc by (force simp del: agent_step.simps)
  ultimately show ?thesis using cur(1) by blast
qed

section \<open>Overlapping repairs\<close>

text \<open>
  C20. The engine that handles one event at a time is one schedule of the engine with goroutines: for
  every run without overlap there are transitions of the concurrent engine, each phase of a repair a
  transition of its own, that end in the same agent with every task done.
\<close>

theorem sequential_runs_are_schedules:
  fixes xs :: "goerror agent_op list"
  shows "\<exists>ts. set ts \<subseteq> {TDone}
     \<and> creach ops en \<lparr>ca_agent = ag, ca_tasks = []\<rparr> \<lparr>ca_agent = agent_run ops en xs ag, ca_tasks = ts\<rparr>"
  using run_schedule [of "[]" ops en ag xs] by auto

text \<open>
  C21. However events, goroutines and steps interleave, at most ten repairs hold a slot. The hourly
  limit can be exceeded, because a repair is counted when it ends and not when it is admitted, but
  only by the other slots: the recorded repairs of a rule and those under way are together at most
  the limit and nine more.
\<close>

theorem concurrent_limit_overshoot:
  assumes "creach ops en \<lparr>ca_agent = ag, ca_tasks = []\<rparr> s"
    and "gget (gr_maxRepairs (ag_gr ag)) r = Some L" and "0 < L" and "history (ag_gr ag) r = []"
  shows "slots_used (ca_tasks s) \<le> 10
     \<and> int (length (history (ag_gr (ca_agent s)) r) + flying r (ca_tasks s)) \<le> L + 9"
proof -
  have "conc_inv r L \<lparr>ca_agent = ag, ca_tasks = []\<rparr>"
    using assms(2-4) by (simp add: conc_inv_def slots_ok_def slots_used_def flying_def)
  from conc_inv_reach [OF assms(1) this] show ?thesis
    by (simp add: conc_inv_def slots_ok_def max_concurrent_def)
qed

theorem concurrent_limit_overshoot_witness:
  "\<exists>ag s. creach (bolt_store_ops mem_api) sample_engine \<lparr>ca_agent = ag, ca_tasks = []\<rparr> s
     \<and> flying ''r'' (ca_tasks s) = 2
     \<and> int (length (history (ag_gr (ca_agent s)) ''r'') + flying ''r'' (ca_tasks s)) \<le> 2 + 9"
proof -
  let ?ag = "agent_step (bolt_store_ops mem_api) sample_engine (AgResult (sample_result CheckFailed)) sample_agent"
  obtain snap where snap: "get_active (ag_mgr ?ag) ''api'' = Some snap" "inc_CheckName snap = ''api''"
      "inc_Status snap = StatusOpen"
    and lim: "history (ag_gr ?ag) ''r'' = []" "gget (gr_maxRepairs (ag_gr ?ag)) ''r'' = Some 2"
    by (rule sample_admitted)
  have r: "rr_Rule sample_rule = ''r''" by (simp add: sample_rule_def)
  have "\<exists>s. creach (bolt_store_ops mem_api) sample_engine \<lparr>ca_agent = ?ag, ca_tasks = []\<rparr> s
     \<and> ca_tasks s = [TAdmitted snap sample_rule sample_recipe, TAdmitted snap sample_rule sample_recipe]"
    by (rule double_admission [OF snap(1,3)])
      (use snap lim in \<open>simp_all add: r sample_engine_def gget_def del: agent_step.simps\<close>,
       simp_all add: sample_rule_def)
  then obtain s where s: "creach (bolt_store_ops mem_api) sample_engine \<lparr>ca_agent = ?ag, ca_tasks = []\<rparr> s"
    "ca_tasks s = [TAdmitted snap sample_rule sample_recipe, TAdmitted snap sample_rule sample_recipe]" by blast
  from s(2) have "flying ''r'' (ca_tasks s) = 2" by (simp add: flying_def r)
  with conjunct2 [OF concurrent_limit_overshoot [OF s(1) lim(2) _ lim(1)]] s(1) show ?thesis
    by (intro exI conjI) (assumption, assumption, simp)
qed

text \<open>
  C22. The test of the status on the snapshot does not keep an incident from being repaired twice at
  once: from an open incident with a rule, a recipe and room under the limit, two events lead to two
  admitted repairs of the same incident.
\<close>

theorem incident_admitted_twice:
  assumes "get_active (ag_mgr ag) c = Some snap" and "inc_Status snap = StatusOpen"
    and "gget (en_rules en) (inc_CheckName snap) = Some rule"
    and "gget (en_recipes en) (rr_Recipe rule) = Some rcp"
    and "history (ag_gr ag) (rr_Rule rule) = []"
    and "\<And>L. gget (gr_maxRepairs (ag_gr ag)) (rr_Rule rule) = Some L \<Longrightarrow> 0 < L"
  shows "\<exists>s. creach ops en \<lparr>ca_agent = ag, ca_tasks = []\<rparr> s
     \<and> ca_tasks s = [TAdmitted snap rule rcp, TAdmitted snap rule rcp]"
  by (rule double_admission [OF assms])

theorem incident_admitted_twice_witness:
  "\<exists>m snap s. creach (bolt_store_ops mem_api) sample_engine
       \<lparr>ca_agent = sample_agent\<lparr>ag_mgr := m\<rparr>, ca_tasks = []\<rparr> s
     \<and> ca_tasks s = [TAdmitted snap sample_rule sample_recipe, TAdmitted snap sample_rule sample_recipe]"
proof -
  let ?m = "process_result sample_clock (bolt_store_ops mem_api) (sample_result CheckFailed) sample_manager"
  obtain cur where cur: "get_active ?m ''api'' = Some cur" "inc_CheckName cur = ''api''"
    "inc_Status cur = StatusOpen"
    by (auto simp: get_active_def active_process_result [OF sample_manager_ok] sample_result_def
        create_incident_def Let_def)
  have "\<exists>s. creach (bolt_store_ops mem_api) sample_engine
       \<lparr>ca_agent = sample_agent\<lparr>ag_mgr := ?m\<rparr>, ca_tasks = []\<rparr> s
     \<and> ca_tasks s = [TAdmitted cur sample_rule sample_recipe, TAdmitted cur sample_rule sample_recipe]"
    by (rule incident_admitted_twice [where c = "''api''"])
      (use cur in \<open>simp_all add: sample_engine_def sample_rule_def gget_def sample_agent_def
         history_def set_max_repairs_per_hour_def new_guardrails_def gset_def gget_or_def\<close>)
  then show ?thesis by blast
qed

section \<open>The check scheduler\<close>

text \<open>
  C23. Whatever the interleaving of \<open>Start\<close>, tickers, workers, cancellation and \<open>Stop\<close>, every queued
  job names a scheduled check. If \<open>Stop\<close> is called when \<open>Start\<close> has launched all its goroutines,
  nothing is ever sent on the closed jobs channel, and when \<open>Stop\<close> has returned every ticker and worker
  has exited. The condition is needed: \<open>Start\<close> gives the lock back before it launches them, and with
  any check at all there is a run in which \<open>Stop\<close> overtakes \<open>Start\<close>, closes the channel, and the
  ticker launched afterwards sends on it and panics.
\<close>

theorem scheduler_safe:
  assumes "sched_reach (new_run sch results w) s"
  shows "(\<forall>i \<in> set (ch_buf (sn_jobs s)). i < length (sd_checks sch))
     \<and> (\<not> sn_early s \<longrightarrow> \<not> sn_panicked s
          \<and> (sn_phase s = Stopped \<longrightarrow> (\<forall>t \<in> set (sn_tickers s). t = TkExited)
               \<and> (\<forall>wk \<in> set (sn_workers s). wk = WkExited)))
     \<and> (sd_checks sch \<noteq> [] \<longrightarrow>
          (\<exists>s'. sched_reach (new_run sch results w) s' \<and> sn_early s' \<and> sn_panicked s'))"
proof -
  have early: "sn_early t \<or> orderly t" if "sched_reach (new_run sch results w) t" for t
    using sched_ok_reach [OF that sched_ok_new] by (simp add: sched_ok_def stop_ok_def)
  have "sn_checks s = map fst (sd_checks sch)" "data_ok s"
    using sched_checks_reach [OF assms] sched_ok_reach [OF assms sched_ok_new] by (simp_all add: sched_ok_def)
  then have jobs: "\<forall>i \<in> set (ch_buf (sn_jobs s)). i < length (sd_checks sch)" by (simp add: data_ok_def)
  have calm: "orderly s" if "\<not> sn_early s" using early [OF assms] that by blast
  have "\<exists>s'. sched_reach (new_run sch results w) s' \<and> sn_early s' \<and> sn_panicked s'"
    if some: "sd_checks sch \<noteq> []"
  proof -
    obtain t where t: "sched_reach (new_run sch results w) t" "sn_panicked t"
      using early_stop_panics [OF some] by blast
    with early [OF t(1)] have "sn_early t" by (simp add: orderly_def)
    with t show ?thesis by blast
  qed
  with jobs show ?thesis by (intro conjI impI) (simp_all add: calm [unfolded orderly_def])
qed

theorem scheduler_safe_witness:
  "\<not> sn_panicked sample_delivered \<and> sn_results sample_delivered \<noteq> make_chan 4
     \<and> (\<exists>s. sched_reach (new_run (add_check sample_check go_Second (new_scheduler 1)) (make_chan 4) sample_world) s
          \<and> sn_panicked s)"
  using scheduler_safe [OF sample_delivery] by (auto simp: sample_delivered_def make_chan_def add_check_def)

text \<open>
  C24. \<open>Stop\<close> returns, even when nobody takes results any more and even when it overtakes \<open>Start\<close>:
  once it has been called and the context is cancelled (which \<open>Stop\<close> itself does unless it came
  before the critical section of \<open>Start\<close>), the goroutines can always go on with something else than a
  tick until it has returned, and of such steps there are only so many: a run of n steps, k of which
  are ticks or repeated cancellations, has n at most six times k more than the work left. So without
  ticks it ends, and it can only end with \<open>Stop\<close> returned; and \<open>Stop\<close> can return without any
  goroutine panicking on the way.
\<close>

theorem scheduler_stop_returns:
  assumes "sched_reach (new_run sch results w) s" and "sn_phase s \<noteq> NotStopping"
    and "sn_early s \<Longrightarrow> sn_cancelled s"
  shows "sn_cancelled s
     \<and> (sn_phase s = Stopped \<or> (\<exists>s'. sched_step s s' \<and> \<not> idle_step s s'))
     \<and> (sched_run_of s n k s' \<longrightarrow> n + work_left s' \<le> work_left s + 6 * k)
     \<and> (\<exists>s'. sched_reach s s' \<and> sn_phase s' = Stopped \<and> sn_panicked s' = sn_panicked s)"
proof -
  have ok: "sched_ok s" by (rule sched_ok_reach [OF assms(1) sched_ok_new])
  then have c: "sn_cancelled s"
    using assms(2,3) by (auto simp: sched_ok_def stop_ok_def orderly_def)
  have d: "data_ok s" using ok by (simp add: sched_ok_def)
  from stop_progress [OF d c assms(2)] run_bound [of s n k s'] stop_ends [OF d c assms(2)] c
  show ?thesis unfolding stops_from_def by blast
qed

theorem scheduler_stop_returns_witness:
  "\<exists>s'. sched_reach (begin_stop sample_delivered) s' \<and> sn_phase s' = Stopped \<and> \<not> sn_panicked s'"
proof -
  have "sched_step sample_delivered (begin_stop sample_delivered)"
    by (rule s_stop) (simp add: sample_delivered_def)
  from scheduler_stop_returns [OF sr_step [OF sample_delivery this]] show ?thesis
    by (simp add: begin_stop_def launched_def sample_delivered_def)
qed

text \<open>
  C25. Every result the scheduler delivers is the outcome of a run of a scheduled check.
\<close>

theorem scheduler_results_genuine:
  fixes sch :: "('err, 'e) scheduler"
  assumes "sched_reach (new_run sch (make_chan n) w) s" and "r \<in> set (ch_buf (sn_results s))"
  shows "\<exists>c d w'. (c, d) \<in> set (sd_checks sch) \<and> r = fst (ck_Run c w')"
proof -
  have "\<forall>r \<in> set (ch_buf (sn_results s)). of_check (sn_checks (new_run sch (make_chan n) w)) r"
    by (rule results_reach [OF assms(1) sched_ok_new]) (simp add: make_chan_def)
  with assms(2) obtain x w' where "x \<in> set (sd_checks sch)" "r = fst (ck_Run (fst x) w')"
    by (auto simp: of_check_def)
  then show ?thesis by (metis prod.collapse)
qed

theorem scheduler_results_genuine_witness:
  "\<exists>c d w'. (c, d) \<in> set (sd_checks (add_check sample_check go_Second (new_scheduler 1)))
     \<and> sample_result CheckFailed = fst (ck_Run c w')"
  by (rule scheduler_results_genuine [OF sample_delivery]) (simp add: sample_delivered_def)

section \<open>The control plane client\<close>

text \<open>
  C34. The stream to the control plane loses no order and duplicates nothing: whatever its loops do
  and however it ends, the incident reports, the repair reports and the telemetry events handed to the
  connection, followed by those still waiting, are those of the start, each once and in order. (What
  is handed to a send that fails is not sent again.)
\<close>

theorem stream_hands_over_in_order:
  assumes "logs_sends gp attempts"
  shows "ledgers attempts (sm_link (stream_steps gp active st chs (start_stream lk))) = ledgers attempts lk"
  unfolding ledgers_stream_steps [OF assms] by (simp add: start_stream_def)

theorem stream_hands_over_in_order_witness:
  "incident_ledger (\<lambda>e. e) (sm_link (stream_steps sample_grpc 1 0
       [ChooseStart, ChooseHeartbeat, ChooseIncident, ChooseTelemetry, ChooseRecv] (start_stream sample_link)))
     = [\<lparr>pi_IncidentId = ''inc-1'', pi_CheckName = ''api'', pi_Service = ''web'', pi_Status = ''open'',
         pi_FailureCount = 1, pi_EventCreatedAt = 0\<rparr>]"
proof -
  have "ledgers (\<lambda>e. e) sample_link =
      ([\<lparr>pi_IncidentId = ''inc-1'', pi_CheckName = ''api'', pi_Service = ''web'', pi_Status = ''open'',
         pi_FailureCount = 1, pi_EventCreatedAt = 0\<rparr>], [], [])"
    by (simp add: ledger_defs sample_link_def sent_of_def report_incident_def new_control_plane_client_def
        try_send_def make_chan_def pb_incident_def int32_of_def unix_sec_def new_ring_buffer_def ring_list_def)
  with stream_hands_over_in_order [OF sample_grpc_logs, of 1 0
      "[ChooseStart, ChooseHeartbeat, ChooseIncident, ChooseTelemetry, ChooseRecv]" sample_link]
  show ?thesis by (simp add: ledgers_def)
qed

text \<open>
  C35. Reconnecting: after n turns that failed or lost their stream the client is disconnected and
  well formed, and the next wait is two to the n seconds but at most a minute; a stream that was
  established in between does not reset it.
\<close>

theorem reconnect_backoff:
  assumes "run_with_reconnect gp active turns lk = Retrying b lk'" and "client_ok (lk_client lk)"
  shows "b = min (60 * go_Second) (2 ^ length turns * go_Second) \<and> client_ok (lk_client lk')
     \<and> (turns \<noteq> [] \<longrightarrow> \<not> is_connected (lk_client lk'))"
  using reconnect_turns_ok [OF assms(1) [unfolded run_with_reconnect_def] assms(2)]
    reconnect_turns_backoff [OF assms(1) [unfolded run_with_reconnect_def]]
  by (simp add: backoff_after max_backoff_def)

theorem reconnect_backoff_witness:
  "\<exists>b lk'. run_with_reconnect sample_grpc 1 [[ChooseStart, ChooseRecv, ChooseDone], [ChooseStart, ChooseRecv, ChooseDone]]
        sample_link = Retrying b lk' \<and> b = 4 * go_Second"
proof -
  have "\<exists>b lk'. run_with_reconnect sample_grpc 1 [[ChooseStart, ChooseRecv, ChooseDone], [ChooseStart, ChooseRecv, ChooseDone]]
        sample_link = Retrying b lk'"
    by (simp add: run_with_reconnect_def reconnect_turn_def connect_def sample_grpc_def sample_link_def
        new_control_plane_client_def report_incident_def on_env_def run_stream_def start_stream_def
        stream_step_def after_send_def send_heartbeat_def send_message_def recv_branch_def recv_returns_def
        send_returns_def loop_done_def mark_disconnected_def wait_backoff_def time_now_def Let_def
        auth_context_def)
  then obtain b lk' where r: "run_with_reconnect sample_grpc 1
      [[ChooseStart, ChooseRecv, ChooseDone], [ChooseStart, ChooseRecv, ChooseDone]] sample_link = Retrying b lk'"
    by blast
  from reconnect_backoff [OF r sample_link_ok] r show ?thesis by simp
qed

section \<open>The built-in checks\<close>

text \<open>
  C26. A valid configuration is built as written: building its checks never fails; the schedule is that
  of the entries of a known type in the order of the file, each with the check that has the fields of
  the entry, defaults filled in, and with the interval of the entry; and the registry finds under each
  name the check of the entry of that name and nothing else.
\<close>

theorem configured_checks_built:
  fixes pb :: "'e probes"
  assumes "valid_config c"
  shows "\<exists>reg sch. build_from_config pb (c_Checks c) (new_registry, new_scheduler n) = (None, reg, sch)
     \<and> sd_workers sch = n
     \<and> sd_checks sch = List.map_filter
         (\<lambda>cc. map_option (\<lambda>ck. (ck, cc_Interval cc))
            (map_of (checks_by_type pb (with_check_defaults cc)) (cc_Type cc))) (c_Checks c)
     \<and> map (ck_Name \<circ> fst) (sd_checks sch)
         = map cc_Name (filter (\<lambda>cc. cc_Type cc \<in> set known_types) (c_Checks c))
     \<and> (\<forall>x \<in> set (sd_checks sch). 0 < snd x)
     \<and> (\<forall>name. check_get reg name =
           (case find (\<lambda>cc. cc_Name cc = name) (c_Checks c) of
              None \<Rightarrow> None
            | Some cc \<Rightarrow> map_of (checks_by_type pb (with_check_defaults cc)) (cc_Type cc)))"
proof -
  have d: "distinct (map cc_Name (c_Checks c))" and ok: "\<forall>cc \<in> set (c_Checks c). check_config_ok cc"
    using assms by (auto simp: valid_config_def)
  note sched = scheduled_described [OF ok, of pb]
  from build_ok [OF check_reg.inv_empty d, of pb "new_scheduler n"] obtain reg where reg:
    "build_from_config pb (c_Checks c) (new_registry, new_scheduler n) =
       (None, reg, (new_scheduler n)\<lparr>sd_checks := sd_checks (new_scheduler n) @ scheduled pb (c_Checks c)\<rparr>)"
    "\<forall>m. check_get reg m = (case find (\<lambda>x. ck_Name (fst x) = m) (scheduled pb (c_Checks c)) of
              None \<Rightarrow> check_get new_registry m | Some x \<Rightarrow> Some (fst x))"
    by (auto simp: check_reg.get_empty)
  have "check_get reg m = map_option fst (find (\<lambda>x. ck_Name (fst x) = m) (described_schedule pb (c_Checks c)))" for m
    using reg(2) [rule_format, of m] by (simp add: sched check_reg.get_empty split: option.splits)
  then have get: "check_get reg m = (case find (\<lambda>cc. cc_Name cc = m) (c_Checks c) of
      None \<Rightarrow> None | Some cc \<Rightarrow> map_of (checks_by_type pb (with_check_defaults cc)) (cc_Type cc))" for m
    by (simp add: find_described [OF d] described_check_def split: option.splits)
  have "0 < snd x" if "x \<in> set (scheduled pb (c_Checks c))" for x
    using scheduled_contract [OF that] ok build_interval_pos by fastforce
  with reg(1) get scheduled_names [of pb "c_Checks c"] show ?thesis
    by (simp add: new_scheduler_def) (simp add: sched described_schedule_def described_check_def)
qed

theorem configured_checks_built_witness:
  "\<exists>reg sch. build_from_config (sample_probes :: unit probes) [sample_check_config ''tcp'']
       (new_registry, new_scheduler 4) = (None, reg, sch)
     \<and> sd_checks sch = [(tcp_iface sample_probes \<lparr>tcp_name = ''db'', tcp_service = ''web'',
         tcp_address = ''db:5432'', tcp_timeout = 10 * go_Second\<rparr>, go_Minute)]"
proof -
  have "valid_config (default_config\<lparr>c_Checks := [sample_check_config ''tcp'']\<rparr>)"
    by (simp add: valid_config_def default_config_def sample_check_config_def check_config_ok_def
        cp_enabled_def)
  from configured_checks_built [OF this, of "sample_probes :: unit probes" 4] show ?thesis
    by (elim exE conjE)
      (simp add: checks_by_type_def with_check_defaults_def sample_check_config_def)
qed

text \<open>
  C27. A built check reports for its own entry, and the incident manager reacts to its error: after
  its result is processed an incident of that name is active exactly when the result carries an
  error, and the incidents of other checks are as before.
\<close>

theorem check_error_opens_incident:
  fixes pb :: "'e probes"
  assumes "build_check pb cc = Some c" and "manager_ok m" and "r = fst (ck_Run c w)"
  shows "cr_Name r = cc_Name cc \<and> cr_Service r = cc_Service cc
     \<and> (get_active (process_result now ops r m) (cc_Name cc) \<noteq> None \<longleftrightarrow> cr_Error r \<noteq> None)
     \<and> (\<forall>k. k \<noteq> cc_Name cc \<longrightarrow> get_active (process_result now ops r m) k = get_active m k)"
proof -
  note ck = build_check_contract [OF assms(1)]
  show ?thesis
    using checker.run_name [OF ck] checker.run_service [OF ck] checker.run_opens [OF ck assms(2)]
      checker.run_other_checks [OF ck assms(2)] by (simp add: assms(3))
qed

theorem check_error_opens_incident_witness:
  "\<exists>c. build_check (sample_probes :: unit probes) (sample_check_config ''tcp'') = Some c
     \<and> cr_Name (fst (ck_Run c sample_world)) = ''db''"
proof -
  obtain c where c: "build_check (sample_probes :: unit probes) (sample_check_config ''tcp'') = Some c"
    using build_check_None [of "sample_probes :: unit probes" "sample_check_config ''tcp''"]
    by (auto simp: known_types_def sample_check_config_def)
  from check_error_opens_incident [OF c sample_manager_ok refl] c show ?thesis
    by (auto simp: sample_check_config_def)
qed

text \<open>
  C28. The certificate verdict: healthy when the time left reaches the threshold, degraded while at
  least one whole day is left, failed on the last day already, before the certificate expires. The
  days are computed in \<open>float64\<close>, so this is what the code says unless the time left is short of the
  threshold by less than a \<open>2^-51\<close> part of it: for thresholds up to 26 days it is exact to the
  nanosecond. Beyond that a certificate can count as healthy shortly before it should not be any more:
  one nanosecond less than 365 days is 365 days.
\<close>

theorem certificate_verdict:
  assumes "0 < threshold" and "d = time_sub t now"
    and "threshold * (24 * go_Hour) \<le> d
         \<or> threshold * (24 * go_Hour) < 2 ^ 51 * (threshold * (24 * go_Hour) - d)"
  shows "fst (cert_verdict (days_until now t) threshold) =
      (if threshold * (24 * go_Hour) \<le> d then CheckHealthy
       else if 24 * go_Hour \<le> d then CheckDegraded else CheckFailed)
    \<and> (time_sub t' now' = 365 * (24 * go_Hour) - 1 \<longrightarrow>
         fst (cert_verdict (days_until now' t') 365) = CheckHealthy)"
  using cert_verdict_status [OF assms(2,1,3)] days_until_year [of t' now']
  by (auto simp: cert_verdict_def)

theorem certificate_verdict_witness:
  "fst (cert_verdict (days_until 0 (23 * go_Hour)) 30) = CheckFailed
     \<and> fst (cert_verdict (days_until 0 (26 * (24 * go_Hour) - 1)) 26) = CheckDegraded
     \<and> fst (cert_verdict (days_until 0 (365 * (24 * go_Hour) - 1)) 365) = CheckHealthy"
proof -
  have y: "time_sub (365 * (24 * go_Hour) - 1) 0 = 365 * (24 * go_Hour) - 1" by (simp add: time_sub_def)
  from certificate_verdict [of 30 "23 * go_Hour" "23 * go_Hour" 0]
    certificate_verdict [of 26 "26 * (24 * go_Hour) - 1" "26 * (24 * go_Hour) - 1" 0, THEN conjunct1]
    certificate_verdict [of 30 "23 * go_Hour" "23 * go_Hour" 0, THEN conjunct2, rule_format, OF _ _ _ y]
  show ?thesis by (simp add: time_sub_def)
qed

text \<open>
  C29. A swarm is healthy exactly when the node is active, no error is reported and at least half of
  the managers are reachable: of an even number of managers exactly half is enough, which is no
  majority.
\<close>

theorem swarm_quorum:
  assumes "0 \<le> sw_Managers si"
  shows "fst (evaluate_swarm si) = CheckHealthy \<longleftrightarrow>
     sw_LocalNodeState si = ''active'' \<and> sw_Error si = '''' \<and> sw_Managers si \<le> 2 * int (sw_RemoteManagers si)"
  by (rule evaluate_swarm_healthy [OF assms])

theorem swarm_quorum_witness:
  "fst (evaluate_swarm \<lparr>sw_LocalNodeState = ''active'', sw_NodeID = ''n'', sw_NodeAddr = ''a'',
      sw_ControlAvailable = True, sw_Error = '''', sw_RemoteManagers = 2, sw_Nodes = 5, sw_Managers = 4\<rparr>)
    = CheckHealthy"
  by (subst swarm_quorum) simp_all

section \<open>The built-in actions\<close>

text \<open>
  C30. A step that starts, stops or restarts a service whose name is not made of systemd's characters
  fails without running a command or changing anything else, however often it is retried.
\<close>

theorem bad_service_step_harmless:
  assumes "action_get (en_actions en) (st_ActionName step) = Some act"
    and "a_Execute act \<in> {start_service_execute sy, stop_service_execute sy, restart_service_execute sy}"
    and "\<exists>c \<in> set (param (st_Params step) ''service''). \<not> is_valid_service_rune c"
  shows "sr_Status (fst (execute_step en step (g, w))) = RecipeFailed
     \<and> fst (snd (execute_step en step (g, w))) = g
     \<and> w_env (snd (snd (execute_step en step (g, w)))) = w_env w"
proof -
  have bad: "bad_service (st_Params step)"
    using assms(3) validate_service_name_None [of "param (st_Params step) ''service''"]
    by (auto simp: bad_service_def)
  from assms(2) consider "a_Execute act = start_service_execute sy" | "a_Execute act = stop_service_execute sy"
    | "a_Execute act = restart_service_execute sy" by blast
  then show ?thesis
  proof cases
    case 1 then show ?thesis by (rule start_service_act.refused_step [OF assms(1) _ bad])
  next
    case 2 then show ?thesis by (rule stop_service_act.refused_step [OF assms(1) _ bad])
  next
    case 3 then show ?thesis by (rule restart_service_act.refused_step [OF assms(1) _ bad])
  qed
qed

definition stop_engine :: "string list engine" where
  "stop_engine = \<lparr>en_actions =
     [(''stop_service'', \<lparr>a_Name = ''stop_service'', a_Execute = stop_service_execute sample_system\<rparr>)],
     en_rules = [], en_recipes = []\<rparr>"

definition sample_log_world :: "string list world" where
  "sample_log_world = \<lparr>w_clock = sample_clock, w_reads = 0, w_env = []\<rparr>"

theorem bad_service_step_harmless_witness:
  "w_env (snd (snd (execute_step stop_engine
     (sample_step\<lparr>st_ActionName := ''stop_service'', st_Params := Some [(''service'', ''a;b'')]\<rparr>)
     (new_guardrails, sample_log_world)))) = []"
proof -
  let ?step = "sample_step\<lparr>st_ActionName := ''stop_service'', st_Params := Some [(''service'', ''a;b'')]\<rparr>"
  have "action_get (en_actions stop_engine) (st_ActionName ?step) =
      Some \<lparr>a_Name = ''stop_service'', a_Execute = stop_service_execute sample_system\<rparr>"
    by (simp add: stop_engine_def action_get_def gget_def)
  from bad_service_step_harmless [OF this, of sample_system new_guardrails sample_log_world] show ?thesis
    by (simp add: param_def params_of_def gget_or_def gget_def is_valid_service_rune_def sample_log_world_def)
qed

text \<open>
  C31. A wait step of a recipe sleeps for exactly the duration of the configuration, which reaches
  the action as text: printing and parsing a positive duration lose nothing.
\<close>

theorem configured_wait_exact:
  assumes "0 < sc_Duration s" and "sc_Duration s < 2 ^ 63"
  shows "wait_execute sy t (st_Params (compile_step rcp i s)) w = on_env (sy_sleep sy t (sc_Duration s)) w"
  by (rule wait_step_sleeps [OF assms(2,1)])

theorem configured_wait_exact_witness:
  "fst (wait_execute sample_system None
     (st_Params (compile_step ''fix'' 0
        \<lparr>sc_Action = ''wait'', sc_Retries = 0, sc_Timeout = 0, sc_OnFailureOnly = False, sc_Params = None,
         sc_Duration = 90 * go_Second, sc_Check = ''''\<rparr>)) sample_log_world) = None"
  by (subst configured_wait_exact) (simp_all add: on_env_def sample_system_def)

text \<open>
  C32. Clearing temporary files removes only regular entries that match the pattern and are at least
  as old as the threshold, in a path under an allowed prefix, in the order of the walk; without an
  error it removes all of them.
\<close>

theorem clear_temp_removals:
  assumes "clear_temp_execute sy t p w = (r, w')"
    and "cutoff = fst (time_now w) + wrap64 (- duration_param p ''age'' (24 * go_Hour))"
    and "pattern = (if param p ''pattern'' = '''' then ''*'' else param p ''pattern'')"
    and "ds = sy_walk sy (param p ''path'') (w_env w)"
  shows "(\<exists>n \<le> length ds. w_env w' = removals sy (filter (clear_selected sy pattern cutoff) (take n ds)) (w_env w)
          \<and> (r = None \<longrightarrow> n = length ds))
     \<and> (r = None \<or> w_env w' \<noteq> w_env w \<longrightarrow>
          (\<exists>a q. sy_abs sy (param p ''path'') (w_env w) = Inr a \<and> q \<in> set clear_temp_allowed \<and> prefix q a))"
proof (cases "bad_path sy clear_temp_allowed p (w_env w)")
  case True
  from clear_temp_act.execute_refuses [OF this, of t] assms(1) have "r \<noteq> None" "w' = w" by auto
  then show ?thesis by (intro conjI exI [of _ 0]) (auto simp: removals_def)
next
  case False
  then have v: "param p ''path'' \<noteq> ''''" "validate_path sy clear_temp_allowed (param p ''path'') w = None"
    and a: "\<exists>a q. sy_abs sy (param p ''path'') (w_env w) = Inr a \<and> q \<in> set clear_temp_allowed \<and> prefix q a"
    by (auto simp: bad_path_def validate_path_None has_allowed_prefix_iff split: sum.splits)
  let ?st = "(0, 0, snd (time_now w))"
  let ?walk = "clear_walk sy t pattern cutoff ds ?st"
  have r: "r = None \<longleftrightarrow> fst ?walk = None" "w' = snd (snd (snd ?walk))"
    using assms(1) v by (auto simp: clear_temp_execute_def Let_def case_prod_beta assms(2-4) split: option.splits)
  from clear_walk_env [of ds sy t pattern cutoff ?st] r a show ?thesis by auto
qed

theorem clear_temp_removals_witness:
  "\<exists>n. w_env (snd (clear_temp_execute sample_system None (Some [(''path'', ''/tmp'')]) sample_log_world))
     = removals sample_system (filter (clear_selected sample_system ''*'' (- (24 * go_Hour)))
         (take n (sy_walk sample_system ''/tmp'' []))) []"
  using clear_temp_removals [of sample_system None "Some [(''path'', ''/tmp'')]" sample_log_world, OF prod.collapse [symmetric] refl refl refl]
  by (auto simp: param_def params_of_def gget_or_def gget_def duration_param_def param_opt_def wrap64_def
      sample_log_world_def time_now_def sample_clock_def)

text \<open>
  C33. The revision a rollback takes: among the replica sets of the deployment, with different
  positive revisions, it is the second highest one if that comes after the highest in the list the
  server returned, and none otherwise; from a list in ascending order there is no rollback.
\<close>

theorem rollback_target:
  assumes "filter (\<lambda>rs. is_owned_by (rs_Owners rs) (kd_UID dep)) rss = xs @ m # ys"
    and "distinct (map (revision_of sy) (xs @ m # ys))" and "0 < revision_of sy m"
    and "\<forall>x \<in> set (xs @ ys). 0 < revision_of sy x \<and> revision_of sy x < revision_of sy m"
  shows "(find_previous_revision sy rss dep = Some r \<longleftrightarrow>
       r \<in> set ys \<and> (\<forall>z \<in> set (xs @ ys). revision_of sy z \<le> revision_of sy r))
     \<and> (ys = [] \<longrightarrow> find_previous_revision sy rss dep = None)"
proof -
  note eq = find_previous_revision_eq [OF assms(1,2,4,3)]
  show ?thesis
    using eq [of r] eq [of "the (find_previous_revision sy rss dep)"]
    by (cases "find_previous_revision sy rss dep") auto
qed

theorem rollback_target_witness:
  "find_previous_revision sample_system
     [\<lparr>rs_Owners = [''u''], rs_Annotations = [(''deployment.kubernetes.io/revision'', ''1'')], rs_Template = ''old''\<rparr>,
      \<lparr>rs_Owners = [''u''], rs_Annotations = [(''deployment.kubernetes.io/revision'', ''2'')], rs_Template = ''new''\<rparr>]
     \<lparr>kd_UID = ''u'', kd_Selector = ''app''\<rparr> = None"
proof -
  let ?a = "\<lparr>rs_Owners = [''u''], rs_Annotations = [(''deployment.kubernetes.io/revision'', ''1'')], rs_Template = ''old''\<rparr>"
  let ?b = "\<lparr>rs_Owners = [''u''], rs_Annotations = [(''deployment.kubernetes.io/revision'', ''2'')], rs_Template = ''new''\<rparr>"
  have rev: "revision_of sample_system ?a = 1" "revision_of sample_system ?b = 2"
    by (simp_all add: revision_of_def parse_revision_def sample_system_def sample_number_def gget_or_def
        gget_def is_digit_def dec_val_def digit_val_def)
  from rollback_target [of "\<lparr>kd_UID = ''u'', kd_Selector = ''app''\<rparr>" "[?a, ?b]" "[?a]" ?b "[]" sample_system] rev
  show ?thesis by simp
qed

section \<open>The Kubernetes watcher\<close>

text \<open>
  C36. While the watch loop waits it has delivered exactly the failure events it saw, in order, each
  as one failing result of its object, as far as the channel had room: the oldest fit, the others are
  dropped, and events of other kinds, types and reasons leave nothing.
\<close>

theorem watcher_reports_failures:
  assumes "chan_ok results" and "watch_loop cu inputs (results, w) = (None, results', w')"
  shows "map untimed (ch_buf results') =
     take (ch_cap results) (map untimed (ch_buf results) @ map (\<lambda>e. event_result e 0) (reported inputs))"
  using watch_loop_reports [of "(results, w)" cu inputs "(results', w')"] assms by simp

theorem watcher_reports_failures_witness:
  "\<exists>results' w'. watch_loop sample_cluster
       [InEvent WatchAdded (KubeEvent (sample_event ''a'')), InEvent WatchDeleted (KubeEvent (sample_event ''b'')),
        InEvent WatchModified (KubeEvent (sample_event ''c''))] (make_chan 1, sample_world) = (None, results', w')
     \<and> map untimed (ch_buf results') = [event_result (sample_event ''a'') 0]"
proof -
  let ?in = "[InEvent WatchAdded (KubeEvent (sample_event ''a'')), InEvent WatchDeleted (KubeEvent (sample_event ''b'')),
        InEvent WatchModified (KubeEvent (sample_event ''c''))]"
  have "\<exists>results' w'. watch_loop sample_cluster ?in (make_chan 1, sample_world) = (None, results', w')"
    by (simp del: process_event.simps add: process_event_iff split: prod.splits)
  then obtain results' w' where r: "watch_loop sample_cluster ?in (make_chan 1, sample_world) = (None, results', w')"
    by blast
  from watcher_reports_failures [OF _ r] r show ?thesis by (auto simp: make_chan_def chan_ok_def)
qed

text \<open>
  C37. Nothing resolves an incident the watcher opened: as long as its name is reported only by the
  watcher, it stays active in every run of the agent, with its ID, and once a repair has moved it out
  of open it never becomes open again, so it is not repaired a second time.
\<close>

theorem watched_incident_stays:
  assumes "manager_ok (ag_mgr ag)" and "get_active (ag_mgr ag) n = Some inc"
    and "\<And>r. AgResult r \<in> set xs \<Longrightarrow> cr_Name r = n \<Longrightarrow>
       \<exists>turns k w. r \<in> set (ch_buf (fst (watch_state_of (watch_run cu wa turns (make_chan k, w)))))"
  shows "\<exists>inc'. get_active (ag_mgr (agent_run ops en xs ag)) n = Some inc'
     \<and> inc_ID inc' = inc_ID inc \<and> inc_FailureCount inc \<le> inc_FailureCount inc'
     \<and> (inc_Status inc \<noteq> StatusOpen \<longrightarrow> inc_Status inc' \<noteq> StatusOpen)"
proof -
  have "cr_Status r \<noteq> CheckHealthy" if r: "AgResult r \<in> set xs" "cr_Name r = n" for r
  proof -
    from assms(3) [OF r] obtain turns k w
      where "r \<in> set (ch_buf (fst (watch_state_of (watch_run cu wa turns (make_chan k, w)))))" by blast
    with watch_run_from [of UNIV "(make_chan k, w)" turns cu wa] obtain e t where "r = event_result e t"
      by (auto simp: results_from_def make_chan_def)
    then show ?thesis by (simp add: event_result_def)
  qed
  with stays_run [OF assms(1)] assms(2) show ?thesis by (fastforce simp: stays_def same_open_def)
qed

theorem watched_incident_stays_witness:
  "\<exists>inc inc'. get_active (process_result sample_clock (bolt_store_ops mem_api)
        (event_result (sample_event ''a'') 0) sample_manager) ''k8s-Pod-api-0'' = Some inc
     \<and> get_active (ag_mgr (agent_run (bolt_store_ops mem_api) sample_engine
          [AgResult (event_result (sample_event ''b'') 0)]
          (sample_agent\<lparr>ag_mgr := process_result sample_clock (bolt_store_ops mem_api)
             (event_result (sample_event ''a'') 0) sample_manager\<rparr>))) ''k8s-Pod-api-0'' = Some inc'
     \<and> inc_ID inc' = inc_ID inc"
proof -
  let ?m = "process_result sample_clock (bolt_store_ops mem_api) (event_result (sample_event ''a'') 0) sample_manager"
  have n: "kube_check_name (sample_event ns) = ''k8s-Pod-api-0''" for ns
    by (simp add: kube_check_name_def sample_event_def)
  obtain inc where inc: "get_active ?m ''k8s-Pod-api-0'' = Some inc"
    by (auto simp: get_active_def active_process_result [OF sample_manager_ok] event_result_def n)
  have "event_result (sample_event ''b'') 0 \<in> set (ch_buf (fst (watch_state_of (watch_run sample_cluster sample_watcher
      [[InEvent WatchAdded (KubeEvent (sample_event ''b''))]] (make_chan 1, sample_world)))))"
    by (simp del: process_event.simps add: watch_turn_def watch_events_def process_event_iff on_env_def
        sample_watcher_def new_watcher_with_client_def sample_kube_client_def make_chan_def try_send_def
        time_now_def sample_world_def sample_clock_def)
  then have w: "\<exists>turns k w. event_result (sample_event ''b'') 0 \<in> set (ch_buf (fst (watch_state_of
      (watch_run (sample_cluster :: unit cluster) sample_watcher turns (make_chan k, w)))))" by blast
  have "\<exists>inc'. get_active (ag_mgr (agent_run (bolt_store_ops mem_api) sample_engine
          [AgResult (event_result (sample_event ''b'') 0)] (sample_agent\<lparr>ag_mgr := ?m\<rparr>))) ''k8s-Pod-api-0'' = Some inc'
     \<and> inc_ID inc' = inc_ID inc \<and> inc_FailureCount inc \<le> inc_FailureCount inc'
     \<and> (inc_Status inc \<noteq> StatusOpen \<longrightarrow> inc_Status inc' \<noteq> StatusOpen)"
    by (rule watched_incident_stays [of _ _ _ _ "sample_cluster :: unit cluster" sample_watcher])
      (use inc w in \<open>simp_all add: sample_manager_ok\<close>)
  with inc show ?thesis by blast
qed

text \<open>
  C38. Objects of one kind and name in different namespaces share one incident: the failure of the
  second counts on the incident of the first, which keeps the first one's service.
\<close>

theorem namespaces_share_incident:
  assumes "manager_ok m" and "get_active m (kube_check_name a) = None"
    and "ke_Kind b = ke_Kind a" and "ke_Name b = ke_Name a"
  shows "\<exists>inc. get_active (process_result now' ops (event_result b t') (process_result now ops (event_result a t) m))
         (kube_check_name a) = Some inc
     \<and> inc_FailureCount inc = 2 \<and> inc_Service inc = ke_Namespace a @ ''/'' @ ke_Name a
     \<and> active_count (process_result now' ops (event_result b t') (process_result now ops (event_result a t) m))
         = active_count (process_result now ops (event_result a t) m)"
proof -
  let ?m1 = "process_result now ops (event_result a t) m" and ?m2 = "\<lambda>m1. process_result now' ops (event_result b t') m1"
  have ok: "manager_ok ?m1" using assms(1) by simp
  have n: "kube_check_name b = kube_check_name a" using assms(3,4) by (simp add: kube_check_name_def)
  obtain i where i: "get_active ?m1 (kube_check_name a) = Some i" "inc_FailureCount i = 1"
    "inc_Service i = ke_Namespace a @ ''/'' @ ke_Name a"
    using assms(2) by (auto simp: get_active_def active_process_result [OF assms(1)] create_incident_def Let_def)
  have get: "get_active (?m2 ?m1) k = (if k = kube_check_name a
      then Some (i\<lparr>inc_FailureCount := 2, inc_UpdatedAt := now' 1\<rparr>) else get_active ?m1 k)" for k
    using i(1,2) n by (simp add: get_active_def active_process_result [OF ok])
  with i(1) have "dom (gget (mg_active (?m2 ?m1))) = dom (gget (mg_active ?m1))"
    by (auto simp: get_active_def split: if_splits)
  moreover have "manager_ok (?m2 ?m1)" using ok by simp
  ultimately have "active_count (?m2 ?m1) = active_count ?m1"
    using ok by (simp add: active_count_def manager_ok_def active_ok_def glen_card gkeys_dom)
  with get i(3) show ?thesis by simp
qed

theorem namespaces_share_incident_witness:
  "\<exists>inc. get_active (process_result sample_clock (bolt_store_ops mem_api) (event_result (sample_event ''staging'') 0)
       (process_result sample_clock (bolt_store_ops mem_api) (event_result (sample_event ''prod'') 0) sample_manager))
       ''k8s-Pod-api-0'' = Some inc
     \<and> inc_Service inc = ''prod/api-0''"
proof -
  have n: "kube_check_name (sample_event ns) = ''k8s-Pod-api-0''" for ns
    by (simp add: kube_check_name_def sample_event_def)
  from namespaces_share_incident [OF sample_manager_ok, of "sample_event ''prod''" "sample_event ''staging''"
      sample_clock "bolt_store_ops mem_api" 0 sample_clock 0]
  show ?thesis unfolding n by (auto simp: get_active_def) (auto simp: sample_event_def)
qed

section \<open>The whole agent\<close>



text \<open>
  C40. However the goroutines of a running agent interleave (the scheduler and its workers, the
  manager, the engine with its repairs, the watcher, the client), every active incident has a source:
  a check of the configuration, a failure event of the cluster if Kubernetes is not switched off, or
  the store at the start; the manager stays well formed, at most ten repairs hold a slot, and a send
  on the closed jobs channel needs a scheduler that was stopped before it had started all its
  goroutines.
\<close>

theorem incidents_have_a_source:
  assumes "run_setup fl pf path level w = Inr rt" and "live_reach pf rt (start_runtime rt) s"
  shows "(\<forall>k. get_active (lv_mgr s) k \<noteq> None \<longrightarrow>
         k \<in> cc_Name ` set (c_Checks (rt_Config rt))
         \<or> (kc_Enabled (c_Kubernetes (rt_Config rt)) \<noteq> KubeDisabled
              \<and> (\<exists>e. failure_event e \<and> k = kube_check_name e))
         \<or> get_active (ag_mgr (rt_Agent rt)) k \<noteq> None)
     \<and> manager_ok (lv_mgr s) \<and> (sn_panicked (lv_sched s) \<longrightarrow> sn_early (lv_sched s)) \<and> slots_used (ca_tasks (lv_eng s)) \<le> 10"
proof (rule run_setup_Inr [OF assms(1)])
  fix cfg
  assume n: "new_runtime pf (override_level level cfg) w = Inr rt"
    and v: "valid_config (override_level level cfg)" "1 \<le> tc_BufferSize (c_Telemetry (override_level level cfg))"
  have rt: "agent_wired (rt_Config rt) rt
      \<and> sd_checks (rt_CheckScheduler rt) = scheduled (pf_probes pf) (c_Checks (rt_Config rt))
      \<and> rt_checkResults rt = make_chan 256"
    by (rule new_runtime_cases [OF v, of pf w]) (use n in simp_all)
  have inv: "live_inv pf rt {k. get_active (ag_mgr (rt_Agent rt)) k \<noteq> None} s"
    by (rule live_inv_reach [OF assms(2) live_inv_start]) (use rt in \<open>simp_all add: agent_wired_def\<close>)
  have off: "rt_KubeWatcher rt \<noteq> None \<Longrightarrow> kc_Enabled (c_Kubernetes (rt_Config rt)) \<noteq> KubeDisabled"
    using rt by (auto simp: agent_wired_def)
  show ?thesis
  proof (intro conjI allI impI)
    fix k
    assume "get_active (lv_mgr s) k \<noteq> None"
    with inv have "get_active (ag_mgr (rt_Agent rt)) k \<noteq> None
        \<or> sourced (pf_probes pf) (rt_Config rt) (rt_KubeWatcher rt) k"
      unfolding live_inv_def by blast
    with off show "k \<in> cc_Name ` set (c_Checks (rt_Config rt))
         \<or> (kc_Enabled (c_Kubernetes (rt_Config rt)) \<noteq> KubeDisabled
              \<and> (\<exists>e. failure_event e \<and> k = kube_check_name e))
         \<or> get_active (ag_mgr (rt_Agent rt)) k \<noteq> None"
      unfolding sourced_def by blast
  qed (use inv in \<open>auto simp: live_inv_def sched_ok_def stop_ok_def orderly_def slots_ok_def max_concurrent_def\<close>)
qed

theorem incidents_have_a_source_witness:
  "\<exists>rt s. run_setup sample_files sample_platform ''agent.yaml'' '''' sample_log_world = Inr rt
     \<and> live_reach sample_platform rt (start_runtime rt) s \<and> s \<noteq> start_runtime rt
     \<and> manager_ok (lv_mgr s) \<and> slots_used (ca_tasks (lv_eng s)) \<le> 10"
proof -
  obtain rt where rt: "run_setup sample_files sample_platform ''agent.yaml'' '''' sample_log_world = Inr rt"
    using sample_setup by blast
  let ?init = "start_runtime rt"
  let ?next = "set_mgr ((lv_mgr ?init)\<lparr>mg_recorder := increment_uptime (mg_recorder (lv_mgr ?init))\<rparr>) ?init"
  have r: "live_reach sample_platform rt ?init ?next" by (rule live_next [OF live_refl [of _ _ ?init] l_uptime])
  have "m_AgentUptime (rec_m (mg_recorder (lv_mgr ?next))) \<noteq> m_AgentUptime (rec_m (mg_recorder (lv_mgr ?init)))"
    by (simp add: increment_uptime_def)
  then have "?next \<noteq> ?init" by metis
  with incidents_have_a_source [OF rt r] rt r show ?thesis by blast
qed

end
